(* ===== verification/Go_Prelude.thy ===== *)
theory Go_Prelude
  imports Main "HOL-Library.Sublist" "HOL-Library.Char_ord" "HOL-Library.List_Lexorder"
begin

text \<open>
  Shared vocabulary of the development.

  Go strings and byte slices are \<^typ>\<open>string\<close> (a list of 8-bit characters), Go's \<open>int\<close> and
  \<open>int64\<close> values are \<^typ>\<open>int\<close> (with the wrap-around written out where a computation can leave the
  range), an instant of \<open>time.Time\<close> is the number of nanoseconds since Go's zero time (so
  \<open>IsZero\<close> is \<open>t = 0\<close>), and a fallible operation returns \<open>error + value\<close> with \<open>Inl\<close> for the error.
  The theorem collections below carry the proofs of the component theories.
\<close>

type_synonym bytes = string
type_synonym instant = int
type_synonym duration = int

named_theorems go_result "inversion of fallible operations that returned a value"
named_theorems go_time "clock comparisons"
named_theorems go_path "string and path facts"

subsection \<open>Results\<close>

abbreviation is_err :: "'e + 'a \<Rightarrow> bool" where
  "is_err r \<equiv> isl r"

definition bind_result :: "'e + 'a \<Rightarrow> ('a \<Rightarrow> 'e + 'b) \<Rightarrow> 'e + 'b" where
  "bind_result r f = (case r of Inl e \<Rightarrow> Inl e | Inr x \<Rightarrow> f x)"

lemma bind_result_simps [simp]:
  "bind_result (Inl e) f = Inl e"
  "bind_result (Inr x) f = f x"
  by (simp_all add: bind_result_def)

lemma bind_result_Inr [go_result]:
  "bind_result r f = Inr y \<longleftrightarrow> (\<exists>x. r = Inr x \<and> f x = Inr y)"
  by (cases r) simp_all

definition opt_result :: "'e \<Rightarrow> 'a option \<Rightarrow> 'e + 'a" where
  "opt_result e r = (case r of None \<Rightarrow> Inl e | Some x \<Rightarrow> Inr x)"

lemma opt_result_simps [simp]:
  "opt_result e None = Inl e"
  "opt_result e (Some x) = Inr x"
  by (simp_all add: opt_result_def)

lemma opt_result_Inr [go_result]: "opt_result e r = Inr x \<longleftrightarrow> r = Some x"
  by (cases r) simp_all

lemma if_Inl_eq_Inr [go_result]:
  "(if b then Inl e else r) = Inr x \<longleftrightarrow> \<not> b \<and> r = Inr x"
  by simp

subsection \<open>Lists\<close>

lemma takeWhile_all_iff: "takeWhile P xs = xs \<longleftrightarrow> (\<forall>x \<in> set xs. P x)"
  by (simp add: takeWhile_eq_all_conv)

lemma dropWhile_sorted_filter:
  assumes "sorted (map f xs)"
  shows "dropWhile (\<lambda>x. f x \<le> (c::'a::linorder)) xs = filter (\<lambda>x. \<not> f x \<le> c) xs"
  using assms
proof (induction xs)
  case (Cons x xs)
  show ?case
  proof (cases "f x \<le> c")
    case False
    with Cons.prems have "\<forall>y \<in> set xs. \<not> f y \<le> c" by (auto dest: order_trans)
    with False show ?thesis by (simp add: filter_id_conv)
  qed (use Cons in simp)
qed simp

lemma sorted_map_tl: "sorted (map f xs) \<Longrightarrow> sorted (map f (tl xs))"
  by (cases xs) simp_all

lemma sorted_map_dropWhile: "sorted (map f xs) \<Longrightarrow> sorted (map f (dropWhile P xs))"
  by (induction xs) simp_all

lemma in_set_tlD: "x \<in> set (tl xs) \<Longrightarrow> x \<in> set xs"
  by (cases xs) simp_all

lemma map_of_filter_other:
  "k' \<noteq> k \<Longrightarrow> map_of (filter (\<lambda>p. fst p \<noteq> k) xs) k' = map_of xs k'"
  by (induction xs) auto

lemma map_of_filter_self [simp]:
  "map_of (filter (\<lambda>p. fst p \<noteq> k) xs) k = None"
  by (induction xs) auto

lemma map_of_append_single:
  "map_of (xs @ [(k, v)]) k' =
     (case map_of xs k' of None \<Rightarrow> if k' = k then Some v else None | Some w \<Rightarrow> Some w)"
  by (induction xs) (auto split: option.splits)

lemma map_of_rev_distinct: "distinct (map fst xs) \<Longrightarrow> map_of (rev xs) = map_of xs"
  by (simp add: map_of_inject_set rev_map [symmetric])

lemma distinct_fst_filter: "distinct (map fst xs) \<Longrightarrow> distinct (map fst (filter P xs))"
  by (induction xs) auto

end
