(* ===== verification/Go_Strings.thy ===== *)
theory Go_Strings
  imports Go_Prelude
begin

text \<open>
  The functions of Go's \<open>strings\<close>, \<open>strconv\<close>, \<open>encoding/hex\<close>, \<open>path/filepath\<close> and \<open>bufio\<close>
  packages that the agents call, on byte strings, with the facts the component theories use.
  \<open>TrimSpace\<close> and \<open>Fields\<close> follow \<open>unicode.IsSpace\<close> on UTF-8 text: \<open>space_runes\<close> lists the
  encodings of the code points it accepts.
\<close>

subsection \<open>Prefixes, suffixes and searching\<close>

definition HasPrefix :: "string \<Rightarrow> string \<Rightarrow> bool" where
  "HasPrefix s p = prefix p s"

definition HasSuffix :: "string \<Rightarrow> string \<Rightarrow> bool" where
  "HasSuffix s p = suffix p s"

definition TrimPrefix :: "string \<Rightarrow> string \<Rightarrow> string" where
  "TrimPrefix s p = (if HasPrefix s p then drop (length p) s else s)"

definition TrimSuffix :: "string \<Rightarrow> string \<Rightarrow> string" where
  "TrimSuffix s p = (if HasSuffix s p then take (length s - length p) s else s)"

definition TrimRight :: "string \<Rightarrow> char \<Rightarrow> string" where
  "TrimRight s c = rev (dropWhile (\<lambda>x. x = c) (rev s))"

definition TrimLeft :: "string \<Rightarrow> char \<Rightarrow> string" where
  "TrimLeft s c = dropWhile (\<lambda>x. x = c) s"

text \<open>\<open>strings.Index\<close>: \<^const>\<open>None\<close> stands for the result \<open>-1\<close>.\<close>

fun Index :: "string \<Rightarrow> string \<Rightarrow> nat option" where
  "Index [] sub = (if sub = [] then Some 0 else None)"
| "Index (c # s) sub = (if prefix sub (c # s) then Some 0 else map_option Suc (Index s sub))"

definition Contains :: "string \<Rightarrow> string \<Rightarrow> bool" where
  "Contains s sub = (Index s sub \<noteq> None)"

text \<open>\<open>strings.SplitN(s, sep, 2)\<close> and \<open>strings.Split(s, c)\<close> for a one-character separator.\<close>

definition SplitN2 :: "string \<Rightarrow> string \<Rightarrow> string list" where
  "SplitN2 s sep = (case Index s sep of
       None \<Rightarrow> [s]
     | Some i \<Rightarrow> [take i s, drop (i + length sep) s])"

fun Split :: "string \<Rightarrow> char \<Rightarrow> string list" where
  "Split [] c = [[]]"
| "Split (x # s) c =
     (if x = c then [] # Split s c
      else (case Split s c of [] \<Rightarrow> [[x]] | p # ps \<Rightarrow> (x # p) # ps))"

fun Join :: "string list \<Rightarrow> string \<Rightarrow> string" where
  "Join [] sep = []"
| "Join [s] sep = s"
| "Join (s # t # ss) sep = s @ sep @ Join (t # ss) sep"

lemma HasPrefix_iff [go_path]: "HasPrefix s p \<longleftrightarrow> (\<exists>r. s = p @ r)"
  by (auto simp: HasPrefix_def prefix_def)

lemma HasSuffix_iff [go_path]: "HasSuffix s p \<longleftrightarrow> (\<exists>r. s = r @ p)"
  by (auto simp: HasSuffix_def suffix_def)

lemma TrimSuffix_append [simp]: "TrimSuffix (s @ p) p = s"
  by (simp add: TrimSuffix_def HasSuffix_def suffixI)

lemma TrimPrefix_append [simp]: "TrimPrefix (p @ s) p = s"
  by (simp add: TrimPrefix_def HasPrefix_def)

lemma TrimRight_no_trailing: "TrimRight s c = [] \<or> last (TrimRight s c) \<noteq> c"
proof (cases "dropWhile (\<lambda>x. x = c) (rev s)")
  case (Cons y ys)
  then have "hd (dropWhile (\<lambda>x. x = c) (rev s)) \<noteq> c"
    using hd_dropWhile [of "\<lambda>x. x = c" "rev s"] by auto
  with Cons show ?thesis by (simp add: TrimRight_def last_rev)
qed (simp add: TrimRight_def)

lemma TrimRight_id: "s = [] \<or> last s \<noteq> c \<Longrightarrow> TrimRight s c = s"
  by (cases s rule: rev_cases) (auto simp: TrimRight_def)

lemma TrimRight_idem [simp]: "TrimRight (TrimRight s c) c = TrimRight s c"
  by (rule TrimRight_id) (rule TrimRight_no_trailing)

lemma Index_bound: "Index s sub = Some i \<Longrightarrow> i + length sub \<le> length s"
proof (induction s arbitrary: i)
  case (Cons c s)
  then show ?case by (auto split: if_splits dest: prefix_length_le)
qed (auto split: if_splits)

lemma Index_first: "Index s sub = Some i \<Longrightarrow> prefix sub (drop i s)"
proof (induction s arbitrary: i)
  case (Cons c s)
  then show ?case by (auto split: if_splits)
qed (auto split: if_splits)

lemma Index_None: "Index s sub = None \<Longrightarrow> \<not> sublist sub s"
proof (induction s)
  case (Cons c s)
  then show ?case by (auto simp: sublist_Cons_right split: if_splits)
qed (auto split: if_splits)

lemma Contains_iff_sublist: "Contains s sub \<longleftrightarrow> sublist sub s"
proof
  assume "Contains s sub"
  then obtain i where "Index s sub = Some i" by (auto simp: Contains_def)
  then have "prefix sub (drop i s)" by (rule Index_first)
  then have "sublist sub (drop i s)" by (rule prefix_imp_sublist)
  then show "sublist sub s"
    using sublist_drop sublist_order.order.trans by blast
qed (use Index_None in \<open>auto simp: Contains_def\<close>)

lemma Split_not_Nil [simp]: "Split s c \<noteq> []"
  by (induction s) (auto split: list.splits)

lemma Split_no_sep: "p \<in> set (Split s c) \<Longrightarrow> c \<notin> set p"
proof (induction s arbitrary: p)
  case (Cons x s)
  then show ?case
    by (cases "Split s c") (auto split: if_splits)
qed simp

lemma Join_Split: "Join (Split s c) [c] = s"
proof (induction s)
  case (Cons x s)
  obtain p ps where p: "Split s c = p # ps" by (cases "Split s c") auto
  with Cons show ?case by (cases ps) auto
qed simp

subsection \<open>White space\<close>

definition space_runes :: "string list" where
  "space_runes =
     [[CHR 0x20], [CHR 0x09], [CHR 0x0A], [CHR 0x0B], [CHR 0x0C], [CHR 0x0D],
      [CHR 0xC2, CHR 0x85], [CHR 0xC2, CHR 0xA0], [CHR 0xE1, CHR 0x9A, CHR 0x80],
      [CHR 0xE2, CHR 0x80, CHR 0x80], [CHR 0xE2, CHR 0x80, CHR 0x81],
      [CHR 0xE2, CHR 0x80, CHR 0x82], [CHR 0xE2, CHR 0x80, CHR 0x83],
      [CHR 0xE2, CHR 0x80, CHR 0x84], [CHR 0xE2, CHR 0x80, CHR 0x85],
      [CHR 0xE2, CHR 0x80, CHR 0x86], [CHR 0xE2, CHR 0x80, CHR 0x87],
      [CHR 0xE2, CHR 0x80, CHR 0x88], [CHR 0xE2, CHR 0x80, CHR 0x89],
      [CHR 0xE2, CHR 0x80, CHR 0x8A], [CHR 0xE2, CHR 0x80, CHR 0xA8],
      [CHR 0xE2, CHR 0x80, CHR 0xA9], [CHR 0xE2, CHR 0x80, CHR 0xAF],
      [CHR 0xE2, CHR 0x81, CHR 0x9F], [CHR 0xE3, CHR 0x80, CHR 0x80]]"

text \<open>The width of the white-space rune at the head (the tail) of a string, 0 if there is none.\<close>

definition space_at :: "string \<Rightarrow> nat" where
  "space_at s = (case find (\<lambda>r. prefix r s) space_runes of None \<Rightarrow> 0 | Some r \<Rightarrow> length r)"

definition space_end :: "string \<Rightarrow> nat" where
  "space_end s = (case find (\<lambda>r. suffix r s) space_runes of None \<Rightarrow> 0 | Some r \<Rightarrow> length r)"

lemma space_at_le: "space_at s \<le> length s"
  by (auto simp: space_at_def find_Some_iff dest: prefix_length_le split: option.split)

lemma space_end_le: "space_end s \<le> length s"
  by (auto simp: space_end_def find_Some_iff dest: suffix_length_le split: option.split)

lemma space_at_Nil [simp]: "space_at [] = 0"
  using space_at_le [of "[]"] by simp

lemma space_end_Nil [simp]: "space_end [] = 0"
  using space_end_le [of "[]"] by simp

function trim_left :: "string \<Rightarrow> string" where
  "trim_left s = (if space_at s = 0 then s else trim_left (drop (space_at s) s))"
  by pat_completeness auto
termination
proof (relation "measure length")
  fix s assume "space_at s \<noteq> 0"
  with space_at_le [of s] show "(drop (space_at s) s, s) \<in> measure length" by auto
qed simp

function trim_right :: "string \<Rightarrow> string" where
  "trim_right s = (if space_end s = 0 then s else trim_right (take (length s - space_end s) s))"
  by pat_completeness auto
termination
proof (relation "measure length")
  fix s assume "space_end s \<noteq> 0"
  with space_end_le [of s] show "(take (length s - space_end s) s, s) \<in> measure length" by auto
qed simp

declare trim_left.simps [simp del] trim_right.simps [simp del]

definition TrimSpace :: "string \<Rightarrow> string" where
  "TrimSpace s = trim_right (trim_left s)"

function fields_from :: "string \<Rightarrow> string \<Rightarrow> string list" where
  "fields_from acc [] = (if acc = [] then [] else [acc])"
| "fields_from acc (c # s) =
     (let w = space_at (c # s)
      in if w = 0 then fields_from (acc @ [c]) s
         else (if acc = [] then [] else [acc]) @ fields_from [] (drop w (c # s)))"
  by pat_completeness auto
termination
proof (relation "measure (\<lambda>(acc, s). length s)")
  fix acc c s w assume "w = space_at (c # s)" "w \<noteq> 0"
  then show "(([], drop w (c # s)), acc, c # s) \<in> measure (\<lambda>(acc, s). length s)" by simp
qed simp_all

definition Fields :: "string \<Rightarrow> string list" where
  "Fields s = fields_from [] s"

lemma trim_left_space_at [simp]: "space_at (trim_left s) = 0"
proof (induction s rule: trim_left.induct)
  case (1 s)
  then show ?case by (cases "space_at s = 0") (simp_all add: trim_left.simps [of s])
qed

lemma trim_right_space_end [simp]: "space_end (trim_right s) = 0"
proof (induction s rule: trim_right.induct)
  case (1 s)
  then show ?case by (cases "space_end s = 0") (simp_all add: trim_right.simps [of s])
qed

text \<open>Printable ASCII characters other than the space neither start nor end a white-space rune.\<close>

definition plain_char :: "char \<Rightarrow> bool" where
  "plain_char c = (33 \<le> (of_char c :: nat) \<and> (of_char c :: nat) \<le> 126)"

definition plain :: "string \<Rightarrow> bool" where
  "plain s = list_all plain_char s"

lemma space_runes_plain:
  assumes "r \<in> set space_runes" "plain_char c"
  shows "r \<noteq> [] \<and> hd r \<noteq> c \<and> last r \<noteq> c"
  using assms by (auto simp: space_runes_def plain_char_def)

lemma space_at_plain [simp]: "plain_char c \<Longrightarrow> space_at (c # s) = 0"
proof -
  assume c: "plain_char c"
  have "\<not> prefix r (c # s)" if "r \<in> set space_runes" for r
    using space_runes_plain [OF that c] by (cases r) auto
  then show ?thesis by (simp add: space_at_def find_None_iff [THEN iffD2])
qed

lemma space_end_plain [simp]: "plain_char c \<Longrightarrow> space_end (s @ [c]) = 0"
proof -
  assume c: "plain_char c"
  have "\<not> suffix r (s @ [c])" if "r \<in> set space_runes" for r
    using space_runes_plain [OF that c] by (cases r rule: rev_cases) auto
  then show ?thesis by (simp add: space_end_def find_None_iff [THEN iffD2])
qed

lemma TrimSpace_plain: "plain s \<Longrightarrow> TrimSpace s = s"
proof (cases s)
  case (Cons c t)
  assume s: "plain s"
  with Cons have left: "trim_left s = s"
    by (simp add: trim_left.simps plain_def)
  from Cons have "s \<noteq> []" by simp
  then obtain u d where ud: "s = u @ [d]" by (cases s rule: rev_cases) simp_all
  with s have "trim_right s = s" by (simp add: trim_right.simps plain_def)
  with left show ?thesis by (simp add: TrimSpace_def)
qed (simp add: TrimSpace_def trim_left.simps trim_right.simps)

lemma fields_from_plain:
  "plain s \<Longrightarrow> fields_from acc s = (if acc @ s = [] then [] else [acc @ s])"
  by (induction s arbitrary: acc) (auto simp: plain_def)

lemma Fields_plain: "plain s \<Longrightarrow> s \<noteq> [] \<Longrightarrow> Fields s = [s]"
  by (simp add: Fields_def fields_from_plain)

lemma Index_char_None: "c \<notin> set s \<Longrightarrow> Index s [c] = None"
  by (induction s) auto

lemma fields_from_nonempty: "p \<in> set (fields_from acc s) \<Longrightarrow> p \<noteq> []"
  by (induction acc s rule: fields_from.induct) (auto simp: Let_def split: if_splits)

lemma Fields_nonempty: "p \<in> set (Fields s) \<Longrightarrow> p \<noteq> []"
  unfolding Fields_def by (rule fields_from_nonempty)

subsection \<open>Line scanning\<close>

text \<open>
  \<open>bufio.Scanner\<close> with its default split function and its default buffer: a line of 65536 bytes or
  more stops the scan with \<open>ErrTooLong\<close>; one trailing carriage return of a line is dropped; a last
  line without a newline is a token when it is not empty.
\<close>

definition newline :: char where "newline = CHR 0x0A"

definition max_token :: nat where "max_token = 65536"

fun raw_lines :: "string \<Rightarrow> string list" where
  "raw_lines [] = []"
| "raw_lines (c # s) =
     (if c = newline then [] # raw_lines s
      else (case raw_lines s of [] \<Rightarrow> [[c]] | l # ls \<Rightarrow> (c # l) # ls))"

definition drop_cr :: "string \<Rightarrow> string" where
  "drop_cr l = (if l \<noteq> [] \<and> last l = CHR 0x0D then butlast l else l)"

record scan_result =
  tokens :: "string list"
  too_long :: bool

definition scan_lines :: "string \<Rightarrow> scan_result" where
  "scan_lines s = (let ls = raw_lines s in
     \<lparr>tokens = map drop_cr (takeWhile (\<lambda>l. length l < max_token) ls),
      too_long = list_ex (\<lambda>l. \<not> length l < max_token) ls\<rparr>)"

lemma raw_lines_append_line:
  assumes "newline \<notin> set l"
  shows "raw_lines (l @ newline # s) = l # raw_lines s"
  using assms by (induction l) auto

text \<open>A text that is empty or ends in a newline is a sequence of complete lines.\<close>

definition complete_text :: "string \<Rightarrow> bool" where
  "complete_text s \<longleftrightarrow> s = [] \<or> last s = newline"

lemma raw_lines_complete:
  assumes "complete_text s"
  shows "raw_lines (s @ t) = raw_lines s @ raw_lines t"
  using assms
proof (induction s)
  case (Cons c s)
  show ?case
  proof (cases "s = []")
    case True
    with Cons.prems show ?thesis by (simp add: complete_text_def)
  next
    case False
    with Cons.prems have *: "complete_text s" by (simp add: complete_text_def)
    with False have "raw_lines s \<noteq> []"
      by (cases s) (auto split: list.splits)
    with Cons.IH [OF *] show ?thesis by (cases "raw_lines s") auto
  qed
qed simp

lemma raw_lines_fragment:
  "newline \<notin> set l \<Longrightarrow> raw_lines l = (if l = [] then [] else [l])"
  by (induction l) auto

lemma scan_one_line:
  assumes "l \<noteq> []" "newline \<notin> set l" "last l \<noteq> CHR 0x0D" "length l < max_token"
  shows "scan_lines l = \<lparr>tokens = [l], too_long = False\<rparr>"
  using assms by (simp add: scan_lines_def raw_lines_fragment drop_cr_def)

text \<open>A file of complete lines.\<close>

definition file_of :: "string list \<Rightarrow> bytes" where
  "file_of ls = concat (map (\<lambda>l. l @ [newline]) ls)"

lemma file_of_append: "file_of (ls @ [l]) = file_of ls @ l @ [newline]"
  by (simp add: file_of_def)

lemma complete_file: "complete_text (file_of ls)"
  by (cases ls rule: rev_cases) (simp_all add: file_of_def complete_text_def)

lemma raw_lines_file: "\<forall>l \<in> set ls. newline \<notin> set l \<Longrightarrow> raw_lines (file_of ls) = ls"
  by (induction ls) (simp_all add: file_of_def raw_lines_append_line)

lemma scan_clean_file:
  assumes "\<forall>l \<in> set ls. newline \<notin> set l \<and> drop_cr l = l \<and> length l < max_token"
  shows "scan_lines (file_of ls) = \<lparr>tokens = ls, too_long = False\<rparr>"
proof -
  have eqs: "takeWhile (\<lambda>l. length l < max_token) ls = ls" "map drop_cr ls = ls"
    "list_ex (\<lambda>l. \<not> length l < max_token) ls = False"
    using assms by (simp_all add: takeWhile_eq_all_conv map_idI list_ex_iff)
  have "raw_lines (file_of ls) = ls" using assms by (intro raw_lines_file) simp
  then show ?thesis by (simp only: scan_lines_def Let_def eqs)
qed

subsection \<open>Hexadecimal\<close>

definition hex_char :: "nat \<Rightarrow> char" where
  "hex_char n = (if n < 10 then char_of (48 + n) else char_of (87 + n))"

definition hex_val :: "char \<Rightarrow> nat option" where
  "hex_val c = (let n = of_char c :: nat in
     if 48 \<le> n \<and> n \<le> 57 then Some (n - 48)
     else if 97 \<le> n \<and> n \<le> 102 then Some (n - 87)
     else if 65 \<le> n \<and> n \<le> 70 then Some (n - 55)
     else None)"

fun EncodeToString :: "bytes \<Rightarrow> string" where
  "EncodeToString [] = []"
| "EncodeToString (b # bs) =
     hex_char (of_char b div 16) # hex_char (of_char b mod 16) # EncodeToString bs"

fun DecodeString :: "string \<Rightarrow> bytes option" where
  "DecodeString [] = Some []"
| "DecodeString [c] = None"
| "DecodeString (a # b # s) =
     (case (hex_val a, hex_val b) of
        (Some h, Some l) \<Rightarrow> map_option ((#) (char_of (16 * h + l))) (DecodeString s)
      | _ \<Rightarrow> None)"

lemma hex_val_hex_char: "n < 16 \<Longrightarrow> hex_val (hex_char n) = Some n"
  by (auto simp: hex_val_def hex_char_def Let_def)

lemma DecodeString_EncodeToString [simp]: "DecodeString (EncodeToString bs) = Some bs"
proof (induction bs)
  case (Cons b bs)
  have "(of_char b :: nat) < 256" by simp
  then have "(of_char b :: nat) div 16 < 16" "(of_char b :: nat) mod 16 < 16"
    by (auto simp: less_mult_imp_div_less simp del: of_char_mod_256)
  with Cons show ?case by (simp add: hex_val_hex_char)
qed simp

lemma length_DecodeString: "DecodeString s = Some bs \<Longrightarrow> length s = 2 * length bs"
  by (induction s arbitrary: bs rule: DecodeString.induct) (auto split: option.splits)

lemma length_EncodeToString [simp]: "length (EncodeToString bs) = 2 * length bs"
  by (induction bs) auto

lemma hex_char_plain: "n < 16 \<Longrightarrow> plain_char (hex_char n) \<and> hex_char n \<noteq> CHR ''#''"
proof -
  assume n: "n < 16"
  have "(of_char (hex_char n) :: nat) = (if n < 10 then 48 + n else 87 + n)"
    using n by (simp add: hex_char_def)
  with n show ?thesis by (auto simp: plain_char_def split: if_splits)
qed

lemma EncodeToString_plain: "plain (EncodeToString bs) \<and> CHR ''#'' \<notin> set (EncodeToString bs)"
proof (induction bs)
  case (Cons b bs)
  have "(of_char b :: nat) < 256" by simp
  then have "(of_char b :: nat) div 16 < 16" "(of_char b :: nat) mod 16 < 16"
    by (auto simp: less_mult_imp_div_less simp del: of_char_mod_256)
  with hex_char_plain [OF this(1)] hex_char_plain [OF this(2)] Cons show ?case
    by (auto simp: plain_def)
qed (simp add: plain_def)

lemma plain_no_newline: "plain s \<Longrightarrow> newline \<notin> set s \<and> CHR 0x0D \<notin> set s"
  by (auto simp: plain_def list_all_iff plain_char_def newline_def)

lemma EncodeToString_inj: "EncodeToString a = EncodeToString b \<Longrightarrow> a = b"
  by (metis DecodeString_EncodeToString option.inject)

subsection \<open>Decimal numbers\<close>

definition digit_char :: "nat \<Rightarrow> char" where
  "digit_char n = char_of (48 + n)"

fun nat_digits :: "nat \<Rightarrow> string" where
  "nat_digits n = (if n < 10 then [digit_char n] else nat_digits (n div 10) @ [digit_char (n mod 10)])"

declare nat_digits.simps [simp del]

text \<open>\<open>strconv.Itoa\<close> and \<open>strconv.FormatInt(n, 10)\<close>.\<close>

definition Itoa :: "int \<Rightarrow> string" where
  "Itoa n = (if n < 0 then CHR ''-'' # nat_digits (nat (- n)) else nat_digits (nat n))"

definition digit_val :: "char \<Rightarrow> nat option" where
  "digit_val c = (let n = of_char c :: nat in if 48 \<le> n \<and> n \<le> 57 then Some (n - 48) else None)"

fun digits_val :: "nat \<Rightarrow> string \<Rightarrow> nat option" where
  "digits_val acc [] = Some acc"
| "digits_val acc (c # s) =
     (case digit_val c of None \<Rightarrow> None | Some d \<Rightarrow> digits_val (10 * acc + d) s)"

definition max_int64 :: int where "max_int64 = 2 ^ 63 - 1"
definition min_int64 :: int where "min_int64 = - (2 ^ 63)"

text \<open>
  \<open>strconv.ParseInt(s, 10, 64)\<close> (and \<open>Atoi\<close>, whose \<open>int\<close> has 64 bits on the agents' hosts): the
  value together with whether an error was returned. On a range error the value is the nearest
  bound, on a syntax error it is 0.
\<close>

definition ParseInt :: "string \<Rightarrow> int \<times> bool" where
  "ParseInt s =
     (let (neg, ds) = (case s of
            [] \<Rightarrow> (False, [])
          | c # cs \<Rightarrow> if c = CHR ''-'' then (True, cs)
                     else if c = CHR ''+'' then (False, cs) else (False, s))
      in if ds = [] then (0, True)
         else case digits_val 0 ds of
             None \<Rightarrow> (0, True)
           | Some n \<Rightarrow>
               if neg then (if int n > 2 ^ 63 then (min_int64, True) else (- int n, False))
               else (if int n > max_int64 then (max_int64, True) else (int n, False)))"

definition wrap64 :: "int \<Rightarrow> int" where
  "wrap64 n = (n + 2 ^ 63) mod 2 ^ 64 - 2 ^ 63"

lemma wrap64_id: "min_int64 \<le> n \<Longrightarrow> n \<le> max_int64 \<Longrightarrow> wrap64 n = n"
  by (simp add: wrap64_def min_int64_def max_int64_def)

lemma wrap64_bounds: "min_int64 \<le> wrap64 n \<and> wrap64 n \<le> max_int64"
proof -
  have "0 \<le> (n + 2 ^ 63) mod 2 ^ 64" "(n + 2 ^ 63) mod 2 ^ 64 < (2 :: int) ^ 64"
    by simp_all
  then show ?thesis by (simp add: wrap64_def min_int64_def max_int64_def)
qed

lemma digit_val_digit_char: "n < 10 \<Longrightarrow> digit_val (digit_char n) = Some n"
  by (simp add: digit_val_def digit_char_def Let_def)

lemma digits_val_append:
  "digits_val acc (s @ t) = (case digits_val acc s of None \<Rightarrow> None | Some n \<Rightarrow> digits_val n t)"
  by (induction acc s rule: digits_val.induct) (auto split: option.split)

lemma digits_val_nat_digits: "digits_val 0 (nat_digits n) = Some n"
proof (induction n rule: nat_digits.induct)
  case (1 n)
  show ?case
  proof (cases "n < 10")
    case True
    then show ?thesis by (simp add: nat_digits.simps [of n] digit_val_digit_char)
  next
    case False
    with 1 show ?thesis
      by (simp add: nat_digits.simps [of n] digits_val_append digit_val_digit_char)
  qed
qed

lemma nat_digits_not_Nil [simp]: "nat_digits n \<noteq> []"
  by (subst nat_digits.simps) simp

end
