(* ===== verification/Go_Time.thy ===== *)
theory Go_Time
  imports Go_Strings
begin

text \<open>
  The part of Go's \<open>time\<close> package the agents use. An instant is the number of nanoseconds since
  January 1 of year 1, 00:00 UTC, which is Go's zero \<open>time.Time\<close>; a duration is a signed 64-bit
  number of nanoseconds, and \<open>Sub\<close> saturates at its bounds. Two times that differ only in their
  location are the same instant. \<open>parse_RFC3339\<close> is \<open>time.Parse(time.RFC3339, s)\<close> with its
  leniencies (one-digit hours, a comma before the fraction, offsets up to 24:60), and
  \<open>format_RFC3339Nano\<close> is \<open>t.UTC().Format(time.RFC3339Nano)\<close>.
\<close>

definition Millisecond :: duration where "Millisecond = 1000000"
definition Second :: duration where "Second = 1000000000"
definition Minute :: duration where "Minute = 60 * Second"
definition Hour :: duration where "Hour = 60 * Minute"

lemmas duration_defs = Millisecond_def Second_def Minute_def Hour_def

definition IsZero :: "instant \<Rightarrow> bool" where
  "IsZero t = (t = 0)"

definition Before :: "instant \<Rightarrow> instant \<Rightarrow> bool" where
  "Before t u = (t < u)"

definition After :: "instant \<Rightarrow> instant \<Rightarrow> bool" where
  "After t u = (u < t)"

definition Add :: "instant \<Rightarrow> duration \<Rightarrow> instant" where
  "Add t d = t + d"

definition Sub :: "instant \<Rightarrow> instant \<Rightarrow> duration" where
  "Sub t u = max min_int64 (min max_int64 (t - u))"

definition Milliseconds :: "duration \<Rightarrow> int" where
  "Milliseconds d = sgn d * (\<bar>d\<bar> div Millisecond)"

lemmas instant_defs [go_time] = IsZero_def Before_def After_def Add_def

lemma Sub_exact: "min_int64 \<le> t - u \<Longrightarrow> t - u \<le> max_int64 \<Longrightarrow> Sub t u = t - u"
  by (simp add: Sub_def)

lemma Sub_less_iff [go_time]:
  "min_int64 < d \<Longrightarrow> d \<le> max_int64 \<Longrightarrow> Sub t u < d \<longleftrightarrow> t - u < d"
  by (auto simp: Sub_def)

lemma Sub_greater_iff [go_time]:
  "min_int64 \<le> d \<Longrightarrow> d < max_int64 \<Longrightarrow> d < Sub t u \<longleftrightarrow> d < t - u"
  by (auto simp: Sub_def)

subsection \<open>The calendar\<close>

definition is_leap :: "int \<Rightarrow> bool" where
  "is_leap y = (y mod 4 = 0 \<and> (y mod 100 \<noteq> 0 \<or> y mod 400 = 0))"

definition days_in :: "nat \<Rightarrow> int \<Rightarrow> nat" where
  "days_in m y = (if m = 2 then if is_leap y then 29 else 28
                  else if m \<in> {4, 6, 9, 11} then 30 else 31)"

definition days_before_month :: "nat \<Rightarrow> int \<Rightarrow> nat" where
  "days_before_month m y = sum_list (map (\<lambda>k. days_in k y) [1..<m])"

definition days_before_year :: "int \<Rightarrow> int" where
  "days_before_year y = 365 * (y - 1) + (y - 1) div 4 - (y - 1) div 100 + (y - 1) div 400"

definition date_instant :: "int \<Rightarrow> nat \<Rightarrow> nat \<Rightarrow> nat \<Rightarrow> nat \<Rightarrow> nat \<Rightarrow> nat \<Rightarrow> instant" where
  "date_instant y mo d h mi s ns =
     (days_before_year y + int (days_before_month mo y) + int d - 1) * (24 * Hour)
     + int h * Hour + int mi * Minute + int s * Second + int ns"

definition year_of_days :: "int \<Rightarrow> int \<times> int" where
  "year_of_days d =
     (let n400 = d div 146097; r = d mod 146097;
          n100 = min 3 (r div 36524); r = r - 36524 * n100;
          n4 = r div 1461; r = r mod 1461;
          n1 = min 3 (r div 365)
      in (400 * n400 + 100 * n100 + 4 * n4 + n1 + 1, r - 365 * n1))"

fun month_of :: "nat \<Rightarrow> int \<Rightarrow> nat \<Rightarrow> nat list \<Rightarrow> nat \<times> nat" where
  "month_of m y yday [] = (m, yday + 1)"
| "month_of m y yday (k # ks) =
     (if yday < days_in k y then (k, yday + 1) else month_of k y (yday - days_in k y) ks)"

definition pad :: "nat \<Rightarrow> string \<Rightarrow> string" where
  "pad w s = replicate (w - length s) (CHR ''0'') @ s"

definition fraction :: "nat \<Rightarrow> string" where
  "fraction ns = (if ns = 0 then [] else CHR ''.'' # TrimRight (pad 9 (nat_digits ns)) (CHR ''0''))"

definition format_date :: "instant \<Rightarrow> int \<times> nat \<times> nat" where
  "format_date t =
     (let (y, yday) = year_of_days (t div (24 * Hour));
          (m, d) = month_of 1 y (nat yday) [1..<13]
      in (y, m, d))"

text \<open>The offset of a zone east of UTC, in minutes.\<close>

definition zone_suffix :: "int \<Rightarrow> string" where
  "zone_suffix tz =
     (if tz = 0 then ''Z''
      else (if tz < 0 then CHR ''-'' else CHR ''+'') # pad 2 (nat_digits (nat \<bar>tz\<bar> div 60))
           @ '':'' @ pad 2 (nat_digits (nat \<bar>tz\<bar> mod 60)))"

definition format_year :: "int \<Rightarrow> string" where
  "format_year y =
     (if y < 0 then CHR ''-'' # pad 4 (nat_digits (nat (- y))) else pad 4 (nat_digits (nat y)))"

definition format_RFC3339Nano_in :: "int \<Rightarrow> instant \<Rightarrow> string" where
  "format_RFC3339Nano_in tz t =
     (let u = t + tz * Minute; (y, m, d) = format_date u; r = nat (u mod (24 * Hour));
          ns = r mod 1000000000; secs = r div 1000000000
      in format_year y @ ''-'' @ pad 2 (nat_digits m) @ ''-'' @ pad 2 (nat_digits d)
         @ ''T'' @ pad 2 (nat_digits (secs div 3600))
         @ '':'' @ pad 2 (nat_digits (secs div 60 mod 60))
         @ '':'' @ pad 2 (nat_digits (secs mod 60)) @ fraction ns @ zone_suffix tz)"

definition format_RFC3339Nano :: "instant \<Rightarrow> string" where
  "format_RFC3339Nano t = format_RFC3339Nano_in 0 t"

subsection \<open>Parsing\<close>

definition is_digit :: "char \<Rightarrow> bool" where
  "is_digit c = (digit_val c \<noteq> None)"

text \<open>Two digits, or one digit where the layout does not fix the width.\<close>

fun getnum :: "bool \<Rightarrow> string \<Rightarrow> (nat \<times> string) option" where
  "getnum fixed [] = None"
| "getnum fixed [a] = (case digit_val a of None \<Rightarrow> None | Some x \<Rightarrow> if fixed then None else Some (x, []))"
| "getnum fixed (a # b # s) =
     (case digit_val a of
        None \<Rightarrow> None
      | Some x \<Rightarrow> (case digit_val b of
            None \<Rightarrow> if fixed then None else Some (x, b # s)
          | Some y \<Rightarrow> Some (10 * x + y, s)))"

fun skip_char :: "char \<Rightarrow> string \<Rightarrow> string option" where
  "skip_char c [] = None"
| "skip_char c (x # s) = (if x = c then Some s else None)"

definition get_year :: "string \<Rightarrow> (nat \<times> string) option" where
  "get_year s = (if length s < 4 then None
     else map_option (\<lambda>y. (y, drop 4 s)) (digits_val 0 (take 4 s)))"

text \<open>The fraction after the seconds: at most nine digits count, further ones are dropped.\<close>

definition get_fraction :: "string \<Rightarrow> nat \<times> string" where
  "get_fraction s =
     (case s of
        c # d # r \<Rightarrow>
          if (c = CHR ''.'' \<or> c = CHR '','') \<and> is_digit d
          then (let ds = takeWhile is_digit (d # r); used = take 9 ds
                in (the (digits_val 0 used) * 10 ^ (9 - length used), dropWhile is_digit (d # r)))
          else (0, s)
      | _ \<Rightarrow> (0, s))"

text \<open>The zone: the offset in seconds and the rest of the text.\<close>

definition get_zone :: "string \<Rightarrow> (int \<times> string) option" where
  "get_zone s =
     (case s of
        [] \<Rightarrow> None
      | c # r \<Rightarrow>
          if c = CHR ''Z'' then Some (0, r)
          else if length s < 6 \<or> s ! 3 \<noteq> CHR '':'' then None
          else (case (getnum True (take 2 (drop 1 s)), getnum True (take 2 (drop 4 s))) of
              (Some (hr, _), Some (mm, _)) \<Rightarrow>
                if hr > 24 \<or> mm > 60 then None
                else if c = CHR ''+'' then Some (int ((hr * 60 + mm) * 60), drop 6 s)
                else if c = CHR ''-'' then Some (- int ((hr * 60 + mm) * 60), drop 6 s)
                else None
            | _ \<Rightarrow> None))"

definition parse_RFC3339 :: "string \<Rightarrow> instant option" where
  "parse_RFC3339 s =
     Option.bind (get_year s) (\<lambda>(year, s).
     Option.bind (skip_char (CHR ''-'') s) (\<lambda>s.
     Option.bind (getnum True s) (\<lambda>(month, s).
     if month = 0 \<or> 12 < month then None else
     Option.bind (skip_char (CHR ''-'') s) (\<lambda>s.
     Option.bind (getnum True s) (\<lambda>(day, s).
     Option.bind (skip_char (CHR ''T'') s) (\<lambda>s.
     Option.bind (getnum False s) (\<lambda>(hour, s).
     if 24 \<le> hour then None else
     Option.bind (skip_char (CHR '':'') s) (\<lambda>s.
     Option.bind (getnum True s) (\<lambda>(mi, s).
     if 60 \<le> mi then None else
     Option.bind (skip_char (CHR '':'') s) (\<lambda>s.
     Option.bind (getnum True s) (\<lambda>(sec, s).
     if 60 \<le> sec then None else
     (let (ns, s) = get_fraction s in
      Option.bind (get_zone s) (\<lambda>(off, s).
      if s \<noteq> [] \<or> day < 1 \<or> days_in month (int year) < day then None
      else Some (date_instant (int year) month day hour mi sec ns - off * Second))))))))))))))"

end
