(* ===== verification/Go_Calendar.thy ===== *)
theory Go_Calendar
  imports Go_Time
begin

text \<open>
  Formatting an instant and parsing the text again gives the same instant, in every time zone:
  \<open>time.Parse\<close> inverts \<open>Time.Format\<close> for the years 0 to 9999.
\<close>

subsection \<open>Days and dates\<close>

lemma days_before_year_parts:
  assumes "0 \<le> b" "b \<le> 3" "0 \<le> c" "c \<le> 24" "0 \<le> e" "e \<le> (3::int)"
  shows "days_before_year (400 * a + 100 * b + 4 * c + e + 1) =
    146097 * a + 36524 * b + 1461 * c + 365 * e"
proof -
  let ?n = "400 * a + 100 * b + 4 * c + e"
  have "?n div 4 = 100 * a + 25 * b + c" "?n div 100 = 4 * a + b" "?n div 400 = a"
    using assms by linarith+
  then show ?thesis by (simp add: days_before_year_def)
qed

lemma leap_parts:
  assumes "0 \<le> b" "b \<le> 3" "0 \<le> c" "c < 24 \<or> b = 3" "c \<le> (24::int)"
  shows "is_leap (400 * a + 100 * b + 4 * c + 3 + 1)"
proof -
  let ?y = "400 * a + 100 * b + 4 * c + 3 + 1"
  have "?y = 4 * (100 * a + 25 * b + c + 1)" by simp
  then have "?y mod 4 = 0" by (metis mod_mult_self1_is_0)
  moreover have "?y mod 100 \<noteq> 0 \<or> ?y mod 400 = 0"
  proof (cases "c < 24")
    case True
    have "?y = 4 * c + 4 + 100 * (4 * a + b)" by simp
    then have "?y mod 100 = (4 * c + 4) mod 100" by (metis mod_mult_self2)
    with True assms(3) show ?thesis by simp
  next
    case False
    with assms have "c = 24" "b = 3" by simp_all
    then have "?y = 400 * (a + 1)" by simp
    then show ?thesis by (metis mod_mult_self1_is_0)
  qed
  ultimately show ?thesis by (simp add: is_leap_def)
qed

lemma year_of_days_correct:
  assumes "year_of_days n = (y, yd)"
  shows "days_before_year y + yd = n \<and> 0 \<le> yd \<and> yd < (if is_leap y then 366 else 365)"
proof -
  define a r b r2 c r3 e where parts: "a = n div 146097" "r = n mod 146097"
    "b = min 3 (r div 36524)" "r2 = r - 36524 * b" "c = r2 div 1461" "r3 = r2 mod 1461"
    "e = min 3 (r3 div 365)"
  have y: "y = 400 * a + 100 * b + 4 * c + e + 1" and yd: "yd = r3 - 365 * e"
    using assms unfolding year_of_days_def Let_def parts [symmetric] by simp_all
  have r: "0 \<le> r" "r < 146097" and n: "n = 146097 * a + r" unfolding parts(1,2) by simp_all
  have b: "0 \<le> b" "b \<le> 3" "36524 * b \<le> r" "b < 3 \<longrightarrow> r < 36524 * b + 36524"
    using r by (auto simp: parts(3) min_def)
  have r2: "0 \<le> r2" "r2 \<le> 36524" "b < 3 \<longrightarrow> r2 < 36524"
    using b r unfolding parts(4) by linarith+
  have c: "0 \<le> c" "c \<le> 24" and r3: "0 \<le> r3" "r3 < 1461" "r2 = 1461 * c + r3"
    using r2(1,2) unfolding parts(5,6) by simp_all
  have e: "0 \<le> e" "e \<le> 3" "365 * e \<le> r3" "r3 < 1460 \<longrightarrow> r3 < 365 * e + 365"
    using r3(1,2) by (auto simp: parts(7) min_def)
  have "days_before_year y + yd = n"
    unfolding y using days_before_year_parts [OF b(1,2) c e(1,2), of a] r3(3)
    by (simp add: n yd parts(4))
  moreover have "is_leap y" if "r3 = 1460"
  proof -
    have "e = 3" using that by (simp add: parts(7))
    moreover have "c < 24 \<or> b = 3" using that b(2) r2(3) r3(3) c(2) by linarith
    ultimately show ?thesis unfolding y using leap_parts [OF b(1,2) c(1) _ c(2), of a] by simp
  qed
  moreover have "yd < 365 \<or> r3 = 1460 \<and> yd = 365"
    using e(4) r3(1,2) by (auto simp: yd parts(7))
  moreover have "0 \<le> yd" using e(3) by (simp add: yd)
  ultimately show ?thesis by auto
qed

lemma month_of_correct:
  assumes "month_of m0 y n ks = (m, d)" and "n < sum_list (map (\<lambda>k. days_in k y) ks)"
  shows "\<exists>pre post. ks = pre @ m # post \<and> n + 1 = sum_list (map (\<lambda>k. days_in k y) pre) + d \<and>
    1 \<le> d \<and> d \<le> days_in m y"
  using assms
proof (induction ks arbitrary: m0 n)
  case (Cons k ks)
  show ?case
  proof (cases "n < days_in k y")
    case True
    with Cons.prems show ?thesis by (intro exI [of _ "[]"] exI [of _ ks]) auto
  next
    case False
    with Cons.prems have "month_of k y (n - days_in k y) ks = (m, d)"
      "n - days_in k y < sum_list (map (\<lambda>k. days_in k y) ks)" by simp_all
    from Cons.IH [OF this] obtain pre post where "ks = pre @ m # post"
      "n - days_in k y + 1 = sum_list (map (\<lambda>k. days_in k y) pre) + d" "1 \<le> d" "d \<le> days_in m y"
      by blast
    with False show ?thesis by (intro exI [of _ "k # pre"] exI [of _ post]) auto
  qed
qed simp

lemma days_in_year: "sum_list (map (\<lambda>k. days_in k y) [1..<13]) = (if is_leap y then 366 else 365)"
  by (simp add: days_in_def upt_rec)

lemma upt_split: "[i..<j] = pre @ m # post \<Longrightarrow> pre = [i..<m] \<and> i \<le> m \<and> m < j"
proof -
  assume split: "[i..<j] = pre @ m # post"
  then have "length [i..<j] = length pre + Suc (length post)" by simp
  then have len: "length pre < j - i" by simp
  have "m = [i..<j] ! length pre" by (simp add: split)
  with len have m: "m = i + length pre" by simp
  have "pre = take (length pre) [i..<j]" by (simp add: split)
  with len m show ?thesis by (simp add: take_upt)
qed

lemma format_date_correct:
  assumes "format_date u = (y, m, d)"
  shows "days_before_year y + int (days_before_month m y) + int d - 1 = u div (24 * Hour) \<and>
    1 \<le> m \<and> m \<le> 12 \<and> 1 \<le> d \<and> d \<le> days_in m y"
proof -
  obtain yd where yd: "year_of_days (u div (24 * Hour)) = (y, yd)"
    and m: "month_of 1 y (nat yd) [1..<13] = (m, d)"
    using assms by (auto simp: format_date_def split: prod.splits)
  note year = year_of_days_correct [OF yd]
  then have "nat yd < sum_list (map (\<lambda>k. days_in k y) [1..<13])" using days_in_year [of y] by (auto split: if_splits)
  from month_of_correct [OF m this] obtain pre post where
    pre: "[1..<13] = pre @ m # post" "nat yd + 1 = sum_list (map (\<lambda>k. days_in k y) pre) + d"
      "1 \<le> d" "d \<le> days_in m y" by blast
  moreover from upt_split [OF pre(1)] have "pre = [1..<m]" "1 \<le> m" "m \<le> 12" by simp_all
  ultimately show ?thesis using year by (auto simp: days_before_month_def)
qed

subsection \<open>Padded numbers\<close>

lemma length_nat_digits: "n < 10 ^ w \<Longrightarrow> 0 < w \<Longrightarrow> length (nat_digits n) \<le> w"
proof (induction n arbitrary: w rule: nat_digits.induct)
  case (1 n)
  show ?case
  proof (cases "n < 10")
    case False
    with "1.prems" obtain v where v: "w = Suc v" "0 < v" by (cases w; cases "w - 1") auto
    with "1.prems" have "n div 10 < 10 ^ v" by (simp add: less_mult_imp_div_less mult.commute)
    with "1.IH" [of v] False v show ?thesis by (simp add: nat_digits.simps [of n])
  qed (use "1.prems" in \<open>simp add: nat_digits.simps [of n]\<close>)
qed

lemma digits_val_zeros: "digits_val 0 (replicate k CHR ''0'' @ s) = digits_val 0 s"
  by (induction k) (simp_all add: digit_val_def)

lemma digits_val_pad: "digits_val 0 (pad w (nat_digits n)) = Some n"
  by (simp add: pad_def digits_val_zeros digits_val_nat_digits)

lemma length_pad: "n < 10 ^ w \<Longrightarrow> 0 < w \<Longrightarrow> length (pad w (nat_digits n)) = w"
  using length_nat_digits [of n w] by (simp add: pad_def)

lemma digits_val_set: "digits_val acc s = Some n \<Longrightarrow> c \<in> set s \<Longrightarrow> is_digit c"
  by (induction acc s rule: digits_val.induct) (auto simp: is_digit_def split: option.splits)

lemma getnum_pad:
  assumes "n < 100"
  shows "getnum fixed (pad 2 (nat_digits n) @ rest) = Some (n, rest)"
proof -
  have "length (pad 2 (nat_digits n)) = 2" using assms by (intro length_pad) simp_all
  then obtain a b where ab: "pad 2 (nat_digits n) = [a, b]"
    by (auto simp: numeral_2_eq_2 length_Suc_conv)
  have "digits_val 0 [a, b] = Some n" using digits_val_pad [of 2 n] by (simp add: ab)
  then show ?thesis by (auto simp: ab split: option.splits)
qed

lemma get_year_pad:
  assumes "n < 10000"
  shows "get_year (pad 4 (nat_digits n) @ rest) = Some (n, rest)"
  using length_pad [of n 4] digits_val_pad [of 4 n] assms
  by (simp add: get_year_def)

lemma digits_val_trailing:
  "digits_val acc (s @ replicate k CHR ''0'') = map_option (\<lambda>n. n * 10 ^ k) (digits_val acc s)"
proof (induction k)
  case (Suc k)
  have "digits_val n (replicate k CHR ''0'') = Some m \<Longrightarrow>
      digits_val m [CHR ''0''] = Some (10 * m)" for n m
    by (simp add: digit_val_def)
  moreover have "s @ replicate (Suc k) CHR ''0'' = (s @ replicate k CHR ''0'') @ [CHR ''0'']"
    by (simp add: replicate_append_same)
  ultimately show ?case
    by (simp only: digits_val_append [of _ "s @ replicate k CHR ''0''"] Suc)
      (auto simp: digit_val_def split: option.split)
qed (simp add: option.map_ident)

lemma TrimRight_split: "\<exists>k. s = TrimRight s c @ replicate k c"
proof -
  have "rev s = takeWhile (\<lambda>x. x = c) (rev s) @ dropWhile (\<lambda>x. x = c) (rev s)" by simp
  moreover have "takeWhile (\<lambda>x. x = c) (rev s) = replicate (length (takeWhile (\<lambda>x. x = c) (rev s))) c"
    by (metis (mono_tags) replicate_length_same set_takeWhileD)
  ultimately have "s = rev (dropWhile (\<lambda>x. x = c) (rev s)) @
      rev (replicate (length (takeWhile (\<lambda>x. x = c) (rev s))) c)"
    by (metis rev_append rev_swap)
  then show ?thesis by (auto simp: TrimRight_def)
qed

lemma get_fraction_dot:
  "is_digit d \<Longrightarrow> get_fraction (CHR ''.'' # d # r) =
     (the (digits_val 0 (take 9 (takeWhile is_digit (d # r)))) *
        10 ^ (9 - length (take 9 (takeWhile is_digit (d # r)))), dropWhile is_digit (d # r))"
  by (simp add: get_fraction_def Let_def)

lemma get_fraction_fraction:
  assumes "ns < 1000000000" and "c \<noteq> CHR ''.''" "c \<noteq> CHR '',''" "\<not> is_digit c"
  shows "get_fraction (fraction ns @ c # rest) = (ns, c # rest)"
proof (cases "ns = 0")
  case True
  with assms show ?thesis by (simp add: fraction_def get_fraction_def split: list.split)
next
  case False
  let ?p = "pad 9 (nat_digits ns)"
  define t where "t = TrimRight ?p CHR ''0''"
  obtain k where k: "?p = t @ replicate k CHR ''0''" unfolding t_def using TrimRight_split by blast
  have "length ?p = 9" using assms(1) by (intro length_pad) simp_all
  then have "length t + k = 9" unfolding k by simp
  then have len: "k = 9 - length t" "length t \<le> 9" by simp_all
  have "map_option (\<lambda>n. n * 10 ^ k) (digits_val 0 t) = Some ns"
    using digits_val_pad [of 9 ns] unfolding k digits_val_trailing .
  then obtain n where n: "digits_val 0 t = Some n" "n * 10 ^ k = ns" by auto
  have "t \<noteq> []" using n False by auto
  then obtain d r where t: "t = d # r" by (cases t) auto
  have "\<forall>x \<in> set t. is_digit x" using digits_val_set [OF n(1)] by blast
  then have dig: "takeWhile is_digit (d # r @ c # rest) = t" "dropWhile is_digit (d # r @ c # rest) = c # rest"
    "is_digit d"
    using assms(4) by (simp_all add: t takeWhile_append2 dropWhile_append2)
  have "fraction ns = CHR ''.'' # d # r" using False by (simp add: fraction_def t_def [symmetric] t)
  then have "get_fraction (fraction ns @ c # rest) =
      (the (digits_val 0 (take 9 t)) * 10 ^ (9 - length (take 9 t)), c # rest)"
    using get_fraction_dot [OF dig(3), of "r @ c # rest"] unfolding dig(1,2) by simp
  with n len show ?thesis by simp
qed

subsection \<open>The round trip\<close>

lemma zone_suffix_start:
  "\<exists>c r. zone_suffix tz = c # r \<and> c \<noteq> CHR ''.'' \<and> c \<noteq> CHR '','' \<and> \<not> is_digit c"
  by (simp add: zone_suffix_def is_digit_def digit_val_def)

lemma get_zone_signed:
  assumes "length h = 2" "length m = 2" "getnum True h = Some (hr, [])" "getnum True m = Some (mm, [])"
    and "hr \<le> 24" "mm \<le> 60"
  shows "get_zone (CHR ''+'' # h @ '':'' @ m) = Some (int ((hr * 60 + mm) * 60), [])"
    and "get_zone (CHR ''-'' # h @ '':'' @ m) = Some (- int ((hr * 60 + mm) * 60), [])"
proof -
  obtain a b c d where hm: "h = [a, b]" "m = [c, d]"
    using assms(1,2) by (auto simp: numeral_2_eq_2 length_Suc_conv)
  show "get_zone (CHR ''+'' # h @ '':'' @ m) = Some (int ((hr * 60 + mm) * 60), [])"
    "get_zone (CHR ''-'' # h @ '':'' @ m) = Some (- int ((hr * 60 + mm) * 60), [])"
    unfolding get_zone_def using assms(3-6) by (simp_all add: hm del: getnum.simps)
qed

lemma get_zone_suffix:
  assumes "\<bar>tz\<bar> < 24 * 60"
  shows "get_zone (zone_suffix tz) = Some (tz * 60, [])"
proof -
  define h m where hm: "h = nat \<bar>tz\<bar> div 60" "m = nat \<bar>tz\<bar> mod 60"
  have b: "h < 24" "m < 60" using assms by (simp_all add: hm)
  have sum: "int ((h * 60 + m) * 60) = \<bar>tz\<bar> * 60" by (simp add: hm)
  have "get_zone (CHR ''+'' # pad 2 (nat_digits h) @ '':'' @ pad 2 (nat_digits m)) = Some (\<bar>tz\<bar> * 60, [])"
    "get_zone (CHR ''-'' # pad 2 (nat_digits h) @ '':'' @ pad 2 (nat_digits m)) = Some (- (\<bar>tz\<bar> * 60), [])"
    unfolding sum [symmetric]
    by (rule get_zone_signed; use b getnum_pad [of _ True "[]"] in \<open>simp add: length_pad\<close>)+
  then show ?thesis
    unfolding zone_suffix_def hm [symmetric]
    by (cases "tz = 0"; cases "tz < 0") (simp_all add: get_zone_def)
qed

lemma clock_sum:
  "R = (a * 3600 + b * 60 + c) * 1000000000 + n \<Longrightarrow> a * Hour + b * Minute + c * Second + n = R"
  by (simp add: duration_defs)

lemma time_of_day:
  assumes "r < 86400000000000" and "secs = r div 1000000000" and "ns = r mod (1000000000 :: nat)"
  shows "secs div 3600 < 24" and "secs div 60 mod 60 < 60" and "secs mod 60 < 60" and "ns < 1000000000"
    and "int (secs div 3600) * Hour + int (secs div 60 mod 60) * Minute + int (secs mod 60) * Second
      + int ns = int r"
proof -
  have "secs < 86400" using assms(1,2) by (simp add: less_mult_imp_div_less)
  then show "secs div 3600 < 24" by (simp add: less_mult_imp_div_less)
  have "secs div 60 div 60 = secs div 3600" by (simp add: div_mult2_eq [symmetric])
  then have "secs = secs div 3600 * 3600 + secs div 60 mod 60 * 60 + secs mod 60"
    using div_mult_mod_eq [of secs 60] div_mult_mod_eq [of "secs div 60" 60] by linarith
  moreover have "r = secs * 1000000000 + ns" using assms(2,3) by simp
  ultimately have "int r = (int (secs div 3600) * 3600 + int (secs div 60 mod 60) * 60 + int (secs mod 60))
      * 1000000000 + int ns"
    by (metis (mono_tags, lifting) of_nat_add of_nat_mult of_nat_numeral)
  then show "int (secs div 3600) * Hour + int (secs div 60 mod 60) * Minute + int (secs mod 60) * Second
      + int ns = int r"
    by (rule clock_sum)
qed (use assms in simp_all)

text \<open>The local years 0 to 9999, the range in which the text has four year digits.\<close>

definition printable_time :: "int \<Rightarrow> instant \<Rightarrow> bool" where
  "printable_time tz t \<longleftrightarrow> \<bar>tz\<bar> < 24 * 60 \<and> fst (format_date (t + tz * Minute)) \<in> {0..9999}"

lemma parse_format:
  assumes "printable_time tz t"
  shows "parse_RFC3339 (format_RFC3339Nano_in tz t) = Some t"
proof -
  define u where "u = t + tz * Minute"
  define r where "r = nat (u mod (24 * Hour))"
  define secs ns where "secs = r div 1000000000" and "ns = r mod 1000000000"
  obtain y m d where date: "format_date u = (y, m, d)" by (metis prod_cases3)
  note cal = format_date_correct [OF date]
  have y: "0 \<le> y" "y \<le> 9999" using assms date by (simp_all add: printable_time_def u_def)
  have day: "d < 100" using cal by (auto simp: days_in_def split: if_splits)
  have r: "r < 86400000000000" "int r = u mod (24 * Hour)" by (simp_all add: r_def duration_defs)
  note tod = time_of_day [OF r(1) secs_def ns_def]
  obtain c z where cz: "zone_suffix tz = c # z" "c \<noteq> CHR ''.''" "c \<noteq> CHR '',''" "\<not> is_digit c"
    using zone_suffix_start by blast
  have zone: "get_zone (c # z) = Some (tz * 60, [])"
    using get_zone_suffix [of tz] assms by (simp add: printable_time_def cz(1))
  have "date_instant (int (nat y)) m d (secs div 3600) (secs div 60 mod 60) (secs mod 60) ns
      = u div (24 * Hour) * (24 * Hour) + int r"
    using cal tod(5) y(1) by (simp add: date_instant_def algebra_simps)
  also have "\<dots> = u" unfolding r(2) by (rule div_mult_mod_eq)
  finally have inst: "date_instant y m d (secs div 3600) (secs div 60 mod 60) (secs mod 60) ns
      - tz * 60 * Second = t"
    using y(1) by (simp add: u_def duration_defs)
  have shape: "format_RFC3339Nano_in tz t =
    pad 4 (nat_digits (nat y)) @ CHR ''-'' # pad 2 (nat_digits m) @ CHR ''-'' # pad 2 (nat_digits d)
      @ CHR ''T'' # pad 2 (nat_digits (secs div 3600)) @ CHR '':'' # pad 2 (nat_digits (secs div 60 mod 60))
      @ CHR '':'' # pad 2 (nat_digits (secs mod 60)) @ fraction ns @ c # z"
    using y(1)
    by (simp add: format_RFC3339Nano_in_def Let_def u_def [symmetric] date r_def [symmetric]
        secs_def [symmetric] ns_def [symmetric] cz(1) format_year_def)
  show ?thesis
    unfolding shape parse_RFC3339_def
    using y cal day tod(1-4) zone inst
    by (simp add: get_year_pad getnum_pad get_fraction_fraction [OF tod(4) cz(2-4)] not_le)
qed

subsection \<open>Lengths\<close>

lemma length_Itoa: "min_int64 \<le> n \<Longrightarrow> n \<le> max_int64 \<Longrightarrow> length (Itoa n) \<le> 20"
proof -
  assume "min_int64 \<le> n" "n \<le> max_int64"
  then have "nat (- n) < 10 ^ 19" "nat n < 10 ^ 19" by (simp_all add: min_int64_def max_int64_def)
  then have "length (nat_digits (nat (- n))) \<le> 19" "length (nat_digits (nat n)) \<le> 19"
    using length_nat_digits [of _ 19] by simp_all
  then show ?thesis by (simp add: Itoa_def)
qed

lemma length_fraction: "n < 1000000000 \<Longrightarrow> length (fraction n) \<le> 10"
proof -
  assume "n < 1000000000"
  then have "length (pad 9 (nat_digits n)) = 9" by (intro length_pad) simp_all
  moreover have "length (TrimRight (pad 9 (nat_digits n)) CHR ''0'') \<le> length (pad 9 (nat_digits n))"
    using length_dropWhile_le [of _ "rev (pad 9 (nat_digits n))"] by (simp add: TrimRight_def)
  ultimately show ?thesis by (simp add: fraction_def)
qed

lemma length_zone_suffix: "\<bar>tz\<bar> < 24 * 60 \<Longrightarrow> length (zone_suffix tz) \<le> 6"
  using length_pad [of "nat \<bar>tz\<bar> div 60" 2] length_pad [of "nat \<bar>tz\<bar> mod 60" 2]
  by (simp add: zone_suffix_def)

lemma length_format: "printable_time tz t \<Longrightarrow> length (format_RFC3339Nano_in tz t) \<le> 35"
proof -
  assume p: "printable_time tz t"
  define u r where "u = t + tz * Minute" and "r = nat (u mod (24 * Hour))"
  obtain y m d where date: "format_date u = (y, m, d)" by (metis prod_cases3)
  have y: "0 \<le> y" "y \<le> 9999" using p date by (simp_all add: printable_time_def u_def)
  have m: "m < 100" "d < 100"
    using format_date_correct [OF date] by (auto simp: days_in_def split: if_splits)
  have r: "r < 86400000000000" by (simp add: r_def duration_defs)
  note tod = time_of_day [OF r refl refl]
  have "length (format_year y) = 4" using y length_pad [of "nat y" 4] by (simp add: format_year_def)
  moreover have "length (pad 2 (nat_digits k)) = 2" if "k < 100" for k using that by (simp add: length_pad)
  moreover have "length (zone_suffix tz) \<le> 6" using p by (simp add: printable_time_def length_zone_suffix)
  ultimately show ?thesis
    using m tod(1-3) length_fraction [OF tod(4)]
    by (simp add: format_RFC3339Nano_in_def Let_def u_def [symmetric] r_def [symmetric] date)
qed

end
