(* ===== verification/Go_Json.thy ===== *)
theory Go_Json
  imports Go_Calendar
begin

text \<open>
  The parts of \<open>encoding/json\<close> the agents use. \<open>lit\<close> is a JSON text as the scanner splits it (string
  and number literals kept as written, as \<open>Unmarshal\<close> hands them to its targets); \<open>json\<close> is a decoded
  document. The writer escapes as \<open>json.Marshal\<close> does, HTML characters included; the reader accepts
  what \<open>json.Unmarshal\<close> accepts, with its nesting limit of 10000.
\<close>

datatype lit =
    LNull
  | LBool bool
  | LNum string
  | LStr string
  | LArr "lit list"
  | LObj "(string \<times> lit) list"

datatype json =
    JNull
  | JBool bool
  | JNum string
  | JStr string
  | JArr "json list"
  | JObj "(string \<times> json) list"

subsection \<open>UTF-8\<close>

definition byte_in :: "nat \<Rightarrow> nat \<Rightarrow> char \<Rightarrow> bool" where
  "byte_in lo hi c = (lo \<le> of_char c \<and> of_char c \<le> hi)"

abbreviation cont_byte :: "char \<Rightarrow> bool" where
  "cont_byte \<equiv> byte_in 0x80 0xBF"

fun follows :: "(char \<Rightarrow> bool) list \<Rightarrow> string \<Rightarrow> bool" where
  "follows [] s = True"
| "follows (p # ps) [] = False"
| "follows (p # ps) (c # s) = (p c \<and> follows ps s)"

text \<open>What must follow the lead byte \<open>n\<close> of a rune, or \<^const>\<open>None\<close> if it cannot lead one.\<close>

definition utf8_tail :: "nat \<Rightarrow> (char \<Rightarrow> bool) list option" where
  "utf8_tail n =
     (if n < 0x80 then Some []
      else if 0xC2 \<le> n \<and> n \<le> 0xDF then Some [cont_byte]
      else if 0xE0 \<le> n \<and> n \<le> 0xEF then
        Some [byte_in (if n = 0xE0 then 0xA0 else 0x80) (if n = 0xED then 0x9F else 0xBF), cont_byte]
      else if 0xF0 \<le> n \<and> n \<le> 0xF4 then
        Some [byte_in (if n = 0xF0 then 0x90 else 0x80) (if n = 0xF4 then 0x8F else 0xBF),
              cont_byte, cont_byte]
      else None)"

text \<open>The length of the valid encoding of a rune at the start of a string, 0 if there is none.\<close>

definition utf8_len :: "string \<Rightarrow> nat" where
  "utf8_len s =
     (case s of
        [] \<Rightarrow> 0
      | a # r \<Rightarrow>
          (case utf8_tail (of_char a) of
             None \<Rightarrow> 0
           | Some ps \<Rightarrow> if follows ps r then Suc (length ps) else 0))"

definition utf8_encode :: "nat \<Rightarrow> string" where
  "utf8_encode n =
     (if n < 0x80 then [char_of n]
      else if n < 0x800 then [char_of (0xC0 + n div 64), char_of (0x80 + n mod 64)]
      else if n < 0x10000 then
        [char_of (0xE0 + n div 4096), char_of (0x80 + n div 64 mod 64), char_of (0x80 + n mod 64)]
      else [char_of (0xF0 + n div 262144), char_of (0x80 + n div 4096 mod 64),
            char_of (0x80 + n div 64 mod 64), char_of (0x80 + n mod 64)])"

definition replacement :: string where "replacement = utf8_encode 0xFFFD"

function utf8_valid :: "string \<Rightarrow> bool" where
  "utf8_valid s =
     (if s = [] then True else if utf8_len s = 0 then False else utf8_valid (drop (utf8_len s) s))"
  by pat_completeness auto
termination by (relation "measure length") auto

declare utf8_valid.simps [simp del]

subsection \<open>Strings\<close>

definition backslash :: char where "backslash = CHR 0x5C"
definition dquote :: char where "dquote = CHR 0x22"

definition u_escape :: "nat \<Rightarrow> string" where
  "u_escape n = backslash # CHR ''u'' #
     map (\<lambda>k. hex_char (n div 16 ^ k mod 16)) [3, 2, 1, 0]"

definition esc_byte :: "char \<Rightarrow> string" where
  "esc_byte c =
     (let n = of_char c :: nat in
      if c = backslash \<or> c = dquote then [backslash, c]
      else if n = 8 then [backslash, CHR ''b'']
      else if n = 12 then [backslash, CHR ''f'']
      else if n = 10 then [backslash, CHR ''n'']
      else if n = 13 then [backslash, CHR ''r'']
      else if n = 9 then [backslash, CHR ''t'']
      else if n < 32 \<or> c \<in> {CHR ''<'', CHR ''>'', CHR ''&''} then u_escape n
      else [c])"

definition line_separator :: "string \<Rightarrow> bool" where
  "line_separator r \<longleftrightarrow> r \<in> {utf8_encode 0x2028, utf8_encode 0x2029}"

function json_escape :: "string \<Rightarrow> string" where
  "json_escape s =
     (if s = [] then []
      else let k = utf8_len s in
        if k = 0 then u_escape 0xFFFD @ json_escape (drop 1 s)
        else if k = 1 then esc_byte (hd s) @ json_escape (drop 1 s)
        else if line_separator (take k s)
        then u_escape (if take k s = utf8_encode 0x2028 then 0x2028 else 0x2029) @ json_escape (drop k s)
        else take k s @ json_escape (drop k s))"
  by pat_completeness auto
termination by (relation "measure length") auto

declare json_escape.simps [simp del]

definition json_string :: "string \<Rightarrow> string" where
  "json_string s = dquote # json_escape s @ [dquote]"

text \<open>The scanner's view of a string literal, after the opening quote: its raw text and the rest.\<close>

definition is_hex :: "char \<Rightarrow> bool" where "is_hex c = (hex_val c \<noteq> None)"

fun str_lit :: "string \<Rightarrow> (string \<times> string) option" where
  "str_lit [] = None"
| "str_lit (c # s) =
     (if c = dquote then Some ([], s)
      else if c = backslash then
        (case s of
           [] \<Rightarrow> None
         | d # s' \<Rightarrow>
             if d \<in> set [CHR ''b'', CHR ''f'', CHR ''n'', CHR ''r'', CHR ''t'', backslash, CHR ''/'', dquote]
             then map_option (\<lambda>(r, t). (c # d # r, t)) (str_lit s')
             else if d = CHR ''u'' then
               (case s' of
                  h1 # h2 # h3 # h4 # s'' \<Rightarrow>
                    if is_hex h1 \<and> is_hex h2 \<and> is_hex h3 \<and> is_hex h4
                    then map_option (\<lambda>(r, t). (c # d # h1 # h2 # h3 # h4 # r, t)) (str_lit s'')
                    else None
                | _ \<Rightarrow> None)
             else None)
      else if of_char c < (32 :: nat) then None
      else map_option (\<lambda>(r, t). (c # r, t)) (str_lit s))"

text \<open>\<open>getu4\<close>: the value of a \<open>\u\<close> escape at the start of a string.\<close>

definition getu4 :: "string \<Rightarrow> nat option" where
  "getu4 s =
     (case s of
        b # u # h1 # h2 # h3 # h4 # _ \<Rightarrow>
          if b = backslash \<and> u = CHR ''u'' then
            (case (hex_val h1, hex_val h2, hex_val h3, hex_val h4) of
               (Some a, Some b, Some c, Some d) \<Rightarrow> Some (((a * 16 + b) * 16 + c) * 16 + d)
             | _ \<Rightarrow> None)
          else None
      | _ \<Rightarrow> None)"

definition surrogate_pair :: "nat \<Rightarrow> nat option \<Rightarrow> nat option" where
  "surrogate_pair a b =
     (case b of
        None \<Rightarrow> None
      | Some b \<Rightarrow>
          if 0xD800 \<le> a \<and> a < 0xDC00 \<and> 0xDC00 \<le> b \<and> b < 0xE000
          then Some ((a - 0xD800) * 1024 + (b - 0xDC00) + 0x10000) else None)"

definition simple_escape :: "char \<Rightarrow> char" where
  "simple_escape d =
     (if d = CHR ''b'' then CHR 0x08 else if d = CHR ''f'' then CHR 0x0C
      else if d = CHR ''n'' then CHR 0x0A else if d = CHR ''r'' then CHR 0x0D
      else if d = CHR ''t'' then CHR 0x09 else d)"

text \<open>What a literal's raw text stands for (\<open>unquoteBytes\<close>); the scanner has validated it.\<close>

function unquote :: "string \<Rightarrow> string" where
  "unquote s =
     (if s = [] then []
      else if hd s = backslash then
        (case getu4 s of
           Some n \<Rightarrow>
             if 0xD800 \<le> n \<and> n < 0xE000 then
               (case surrogate_pair n (getu4 (drop 6 s)) of
                  Some m \<Rightarrow> utf8_encode m @ unquote (drop 12 s)
                | None \<Rightarrow> replacement @ unquote (drop 6 s))
             else utf8_encode n @ unquote (drop 6 s)
         | None \<Rightarrow>
             (case drop 1 s of [] \<Rightarrow> [] | d # _ \<Rightarrow> simple_escape d # unquote (drop 2 s)))
      else let k = utf8_len s in
        if k = 0 then replacement @ unquote (drop 1 s) else take k s @ unquote (drop k s))"
  by pat_completeness auto
termination by (relation "measure length") auto

declare unquote.simps [simp del]

subsection \<open>Numbers and structure\<close>

definition num_char :: "char \<Rightarrow> bool" where
  "num_char c = (is_digit c \<or> c \<in> set ''+-.eE'')"

definition exp_ok :: "string \<Rightarrow> bool" where
  "exp_ok s =
     (case s of
        [] \<Rightarrow> True
      | c # r \<Rightarrow>
          c \<in> set ''eE'' \<and>
          (let r' = (case r of d # t \<Rightarrow> if d \<in> set ''+-'' then t else r | [] \<Rightarrow> r)
           in r' \<noteq> [] \<and> list_all is_digit r'))"

definition frac_ok :: "string \<Rightarrow> bool" where
  "frac_ok s =
     (case s of
        c # r \<Rightarrow>
          if c = CHR ''.'' then takeWhile is_digit r \<noteq> [] \<and> exp_ok (dropWhile is_digit r) else exp_ok s
      | [] \<Rightarrow> True)"

text \<open>The number grammar of RFC 8259.\<close>

definition num_ok :: "string \<Rightarrow> bool" where
  "num_ok s =
     (let u = TrimPrefix s ''-''; ip = takeWhile is_digit u
      in (ip = ''0'' \<or> (ip \<noteq> [] \<and> hd ip \<noteq> CHR ''0'')) \<and> frac_ok (dropWhile is_digit u))"

text \<open>A number literal extends over all number characters: none may follow it.\<close>

definition num_lit :: "string \<Rightarrow> (string \<times> string) option" where
  "num_lit s =
     (let l = takeWhile num_char s in if num_ok l then Some (l, dropWhile num_char s) else None)"

definition json_ws :: "char \<Rightarrow> bool" where
  "json_ws c = (c \<in> {CHR '' '', CHR 0x09, CHR 0x0D, CHR 0x0A})"

definition skip_ws :: "string \<Rightarrow> string" where
  "skip_ws s = dropWhile json_ws s"

text \<open>
  The parser, with fuel \<open>n\<close> (every second call consumes a character, so one more than twice the
  length of the text is enough) and the number \<open>d\<close> of levels that may still be opened.
\<close>

fun jval :: "nat \<Rightarrow> nat \<Rightarrow> string \<Rightarrow> (lit \<times> string) option"
  and jelems :: "nat \<Rightarrow> nat \<Rightarrow> string \<Rightarrow> (lit list \<times> string) option"
  and jmembers :: "nat \<Rightarrow> nat \<Rightarrow> string \<Rightarrow> ((string \<times> lit) list \<times> string) option" where
  "jval 0 d s = None"
| "jval (Suc n) d s =
     (case skip_ws s of
        [] \<Rightarrow> None
      | c # r \<Rightarrow>
          if c = dquote then map_option (\<lambda>(x, t). (LStr x, t)) (str_lit r)
          else if c = CHR ''{'' then
            (if d = 0 then None
             else case skip_ws r of
                 [] \<Rightarrow> None
               | c' # r' \<Rightarrow>
                   if c' = CHR ''}'' then Some (LObj [], r')
                   else map_option (\<lambda>(kvs, t). (LObj kvs, t)) (jmembers n (d - 1) r))
          else if c = CHR ''['' then
            (if d = 0 then None
             else case skip_ws r of
                 [] \<Rightarrow> None
               | c' # r' \<Rightarrow>
                   if c' = CHR '']'' then Some (LArr [], r')
                   else map_option (\<lambda>(vs, t). (LArr vs, t)) (jelems n (d - 1) r))
          else if HasPrefix (c # r) ''true'' then Some (LBool True, drop 3 r)
          else if HasPrefix (c # r) ''false'' then Some (LBool False, drop 4 r)
          else if HasPrefix (c # r) ''null'' then Some (LNull, drop 3 r)
          else map_option (\<lambda>(x, t). (LNum x, t)) (num_lit (c # r)))"
| "jelems 0 d s = None"
| "jelems (Suc n) d s =
     (case jval n d s of
        None \<Rightarrow> None
      | Some (v, t) \<Rightarrow>
          (case skip_ws t of
             [] \<Rightarrow> None
           | c # u \<Rightarrow>
               if c = CHR '','' then map_option (\<lambda>(vs, w). (v # vs, w)) (jelems n d u)
               else if c = CHR '']'' then Some ([v], u)
               else None))"
| "jmembers 0 d s = None"
| "jmembers (Suc n) d s =
     (case skip_ws s of
        [] \<Rightarrow> None
      | q # r \<Rightarrow>
          if q \<noteq> dquote then None
          else (case str_lit r of
              None \<Rightarrow> None
            | Some (k, t) \<Rightarrow>
                (case skip_ws t of
                   [] \<Rightarrow> None
                 | c # t' \<Rightarrow>
                     if c \<noteq> CHR '':'' then None
                     else (case jval n d t' of
                         None \<Rightarrow> None
                       | Some (v, u) \<Rightarrow>
                           (case skip_ws u of
                              [] \<Rightarrow> None
                            | e # w \<Rightarrow>
                                if e = CHR '','' then map_option (\<lambda>(kvs, x). ((k, v) # kvs, x)) (jmembers n d w)
                                else if e = CHR ''}'' then Some ([(k, v)], w)
                                else None)))))"

definition max_depth :: nat where "max_depth = 10000"

definition json_lit :: "string \<Rightarrow> lit option" where
  "json_lit s =
     (case jval (Suc (2 * length s)) max_depth s of
        None \<Rightarrow> None
      | Some (v, r) \<Rightarrow> if skip_ws r = [] then Some v else None)"

primrec json_of :: "lit \<Rightarrow> json" where
  "json_of LNull = JNull"
| "json_of (LBool b) = JBool b"
| "json_of (LNum x) = JNum x"
| "json_of (LStr x) = JStr (unquote x)"
| "json_of (LArr vs) = JArr (map json_of vs)"
| "json_of (LObj kvs) = JObj (map (\<lambda>p. (unquote (fst p), snd p)) (map (map_prod (\<lambda>k. k) json_of) kvs))"

definition json_parse :: "string \<Rightarrow> json option" where
  "json_parse s = map_option json_of (json_lit s)"

text \<open>The writer, and the document it writes as the scanner will see it.\<close>

primrec json_text :: "json \<Rightarrow> string" where
  "json_text JNull = ''null''"
| "json_text (JBool b) = (if b then ''true'' else ''false'')"
| "json_text (JNum x) = x"
| "json_text (JStr x) = json_string x"
| "json_text (JArr vs) = ''['' @ Join (map json_text vs) '','' @ '']''"
| "json_text (JObj kvs) =
     ''{'' @ Join (map (\<lambda>p. json_string (fst p) @ '':'' @ snd p) (map (map_prod (\<lambda>k. k) json_text) kvs)) '',''
       @ ''}''"

primrec json_lits :: "json \<Rightarrow> lit" where
  "json_lits JNull = LNull"
| "json_lits (JBool b) = LBool b"
| "json_lits (JNum x) = LNum x"
| "json_lits (JStr x) = LStr (json_escape x)"
| "json_lits (JArr vs) = LArr (map json_lits vs)"
| "json_lits (JObj kvs) = LObj (map (\<lambda>p. (json_escape (fst p), snd p)) (map (map_prod (\<lambda>k. k) json_lits) kvs))"

subsection \<open>String literals\<close>

lemma follows_split:
  "follows ps s \<Longrightarrow> \<exists>x r. s = x @ r \<and> length x = length ps \<and> (\<forall>t. follows ps (x @ t)) \<and>
     (\<forall>c \<in> set x. \<exists>p \<in> set ps. p c)"
proof (induction ps s rule: follows.induct)
  case (3 p ps c s)
  then obtain x r where "s = x @ r" "length x = length ps" "\<forall>t. follows ps (x @ t)"
    "\<forall>c \<in> set x. \<exists>p \<in> set ps. p c" by auto
  with 3 show ?case by (intro exI [of _ "c # x"] exI [of _ r]) auto
qed auto

lemma utf8_tail_high:
  "utf8_tail n = Some ps \<Longrightarrow> p \<in> set ps \<Longrightarrow> p c \<Longrightarrow> (128 :: nat) \<le> of_char c"
  by (auto simp: utf8_tail_def byte_in_def split: if_splits)

lemma utf8_tail_Nil: "utf8_tail n = Some ps \<Longrightarrow> ps = [] \<longleftrightarrow> n < 128"
  by (auto simp: utf8_tail_def split: if_splits)

lemma utf8_len_cases:
  assumes "utf8_len s \<noteq> 0"
  obtains (one) a r where "s = a # r" "utf8_len s = 1" "of_char a < (128 :: nat)"
  | (more) x r where "s = x @ r" "utf8_len s = length x" "2 \<le> length x"
      "\<forall>c \<in> set x. (128 :: nat) \<le> of_char c" "\<And>t. utf8_len (x @ t) = length x"
proof -
  obtain a r ps where s: "s = a # r" and ps: "utf8_tail (of_char a) = Some ps" "follows ps r"
    using assms by (auto simp: utf8_len_def split: list.splits option.splits if_splits)
  show ?thesis
  proof (cases "ps = []")
    case True
    with s ps show ?thesis by (intro one) (auto simp: utf8_len_def dest: utf8_tail_Nil)
  next
    case False
    from follows_split [OF ps(2)] obtain x r' where x: "r = x @ r'" "length x = length ps"
      "\<forall>t. follows ps (x @ t)" "\<forall>c \<in> set x. \<exists>p \<in> set ps. p c" by blast
    have "\<forall>c \<in> set (a # x). (128 :: nat) \<le> of_char c"
      using x(4) utf8_tail_high [OF ps(1)] utf8_tail_Nil [OF ps(1)] False by auto
    moreover have "utf8_len ((a # x) @ t) = length (a # x)" for t
      using x ps by (simp add: utf8_len_def)
    moreover have "2 \<le> length (a # x)" using x(2) False by (cases ps) auto
    ultimately show ?thesis using s x(1) by (intro more [of "a # x" r']) auto
  qed
qed


lemma utf8_len_ascii: "of_char c < (128 :: nat) \<Longrightarrow> utf8_len (c # t) = 1"
  by (simp add: utf8_len_def utf8_tail_def)

text \<open>A piece of a literal that the scanner copies as it is.\<close>

definition lit_chunk :: "string \<Rightarrow> bool" where
  "lit_chunk x \<longleftrightarrow> (\<forall>t. str_lit (x @ t) = map_option (\<lambda>(r, w). (x @ r, w)) (str_lit t))"

lemma is_hex_hex_char: "n < 16 \<Longrightarrow> is_hex (hex_char n)"
  by (simp add: is_hex_def hex_val_hex_char)

lemma map_option_pair_comp:
  "map_option (\<lambda>(r, w). (x @ r, w)) (map_option (\<lambda>(r, w). (y @ r, w)) z) =
   map_option (\<lambda>(r, w). (x @ y @ r, w)) z"
  by (cases z) auto

lemma lit_chunk_append: "lit_chunk x \<Longrightarrow> lit_chunk y \<Longrightarrow> lit_chunk (x @ y)"
  by (simp add: lit_chunk_def map_option_pair_comp)

lemma lit_chunk_Nil: "lit_chunk []"
  by (simp add: lit_chunk_def option.map_id)

lemma lit_chunk_char:
  "c \<noteq> dquote \<Longrightarrow> c \<noteq> backslash \<Longrightarrow> (32 :: nat) \<le> of_char c \<Longrightarrow> lit_chunk [c]"
  by (simp add: lit_chunk_def)

lemma lit_chunk_high: "\<forall>c \<in> set x. (128 :: nat) \<le> of_char c \<Longrightarrow> lit_chunk x"
proof (induction x)
  case (Cons c x)
  then have "lit_chunk [c]" by (intro lit_chunk_char) (auto simp: dquote_def backslash_def)
  with Cons lit_chunk_append [of "[c]" x] show ?case by simp
qed (simp add: lit_chunk_Nil)

lemma quote_neq [simp]: "backslash \<noteq> dquote" "dquote \<noteq> backslash" "CHR ''u'' \<noteq> backslash" "CHR ''u'' \<noteq> dquote"
  by (simp_all add: backslash_def dquote_def)

lemma lit_chunk_u: "lit_chunk (u_escape n)"
  by (simp add: lit_chunk_def u_escape_def is_hex_hex_char)

lemma lit_chunk_esc: "lit_chunk (esc_byte c)"
  by (auto simp: esc_byte_def Let_def lit_chunk_u intro: lit_chunk_char)
    (auto simp: lit_chunk_def)

lemma lit_chunk_escape: "lit_chunk (json_escape s)"
proof (induction s rule: json_escape.induct)
  case (1 s)
  show ?case
  proof (cases "s = [] \<or> utf8_len s = 0")
    case True
    with 1 show ?thesis
      by (subst json_escape.simps) (auto simp: lit_chunk_Nil intro!: lit_chunk_append lit_chunk_u)
  next
    case False
    then have "s \<noteq> []" "utf8_len s \<noteq> 0" by auto
    from this(2) show ?thesis
    proof (cases rule: utf8_len_cases)
      case (one a r)
      with 1 show ?thesis
        by (subst json_escape.simps) (auto intro!: lit_chunk_append lit_chunk_esc)
    next
      case (more x r)
      from more(4) have "lit_chunk x" by (rule lit_chunk_high)
      with 1 more show ?thesis
        by (subst json_escape.simps) (auto simp: Let_def intro!: lit_chunk_append lit_chunk_u)
    qed
  qed
qed

lemma str_lit_escape: "str_lit (json_escape s @ dquote # t) = Some (json_escape s, t)"
  using lit_chunk_escape [of s] by (simp add: lit_chunk_def)

text \<open>A piece \<open>x\<close> of a literal that stands for \<open>y\<close>.\<close>

definition stands_for :: "string \<Rightarrow> string \<Rightarrow> bool" where
  "stands_for x y \<longleftrightarrow> (\<forall>t. unquote (x @ t) = y @ unquote t)"

lemma getu4_u_escape: "n < 65536 \<Longrightarrow> getu4 (u_escape n @ t) = Some n"
proof -
  assume n: "n < 65536"
  have top: "n div 4096 < 16" using n by (simp add: less_mult_imp_div_less)
  have "n div 4096 * 16 + n div 256 mod 16 = n div 256" "n div 256 * 16 + n div 16 mod 16 = n div 16"
    using div_mult_mod_eq [of "n div 256" 16] div_mult_mod_eq [of "n div 16" 16]
    by (simp_all add: div_mult2_eq [symmetric])
  then have "((n div 4096 * 16 + n div 256 mod 16) * 16 + n div 16 mod 16) * 16 + n mod 16 = n"
    by simp
  with top show ?thesis by (simp add: getu4_def u_escape_def hex_val_hex_char)
qed

lemma stands_for_u: "n < 0xD800 \<Longrightarrow> stands_for (u_escape n) (utf8_encode n)"
proof (unfold stands_for_def, rule allI)
  fix t
  assume "n < 0xD800"
  moreover have "hd (u_escape n @ t) = backslash" "length (u_escape n) = 6" "u_escape n \<noteq> []"
    by (simp_all add: u_escape_def)
  ultimately show "unquote (u_escape n @ t) = utf8_encode n @ unquote t"
    by (subst unquote.simps) (simp add: getu4_u_escape)
qed

lemma stands_for_simple:
  assumes "d \<noteq> CHR ''u''"
  shows "stands_for [backslash, d] [simple_escape d]"
proof (unfold stands_for_def, rule allI)
  fix t
  have "getu4 ([backslash, d] @ t) = None" using assms by (auto simp: getu4_def split: list.split)
  then show "unquote ([backslash, d] @ t) = [simple_escape d] @ unquote t"
    by (subst unquote.simps) simp
qed

lemma stands_for_char:
  assumes "of_char c < (128 :: nat)" "c \<noteq> backslash"
  shows "stands_for [c] [c]"
  unfolding stands_for_def
  using assms by (subst unquote.simps) (simp add: utf8_len_ascii)

lemma stands_for_escapes:
  "stands_for [backslash, backslash] [backslash]" "stands_for [backslash, dquote] [dquote]"
  "stands_for [backslash, CHR ''b''] [CHR 0x08]" "stands_for [backslash, CHR ''f''] [CHR 0x0C]"
  "stands_for [backslash, CHR ''n''] [CHR 0x0A]" "stands_for [backslash, CHR ''r''] [CHR 0x0D]"
  "stands_for [backslash, CHR ''t''] [CHR 0x09]"
  using stands_for_simple [of backslash] stands_for_simple [of dquote]
    stands_for_simple [of "CHR ''b''"] stands_for_simple [of "CHR ''f''"]
    stands_for_simple [of "CHR ''n''"] stands_for_simple [of "CHR ''r''"]
    stands_for_simple [of "CHR ''t''"]
  by (simp_all add: simple_escape_def backslash_def dquote_def)

lemma control_chars:
  "of_char c = (8 :: nat) \<longleftrightarrow> c = CHR 0x08" "of_char c = (12 :: nat) \<longleftrightarrow> c = CHR 0x0C"
  "of_char c = (10 :: nat) \<longleftrightarrow> c = CHR 0x0A" "of_char c = (13 :: nat) \<longleftrightarrow> c = CHR 0x0D"
  "of_char c = (9 :: nat) \<longleftrightarrow> c = CHR 0x09"
proof -
  have *: "of_char c = n \<longleftrightarrow> c = d" if "of_char d = n" for d and n :: nat
    using that of_char_eqI [of c d] by auto
  show "of_char c = (8 :: nat) \<longleftrightarrow> c = CHR 0x08" "of_char c = (12 :: nat) \<longleftrightarrow> c = CHR 0x0C"
    "of_char c = (10 :: nat) \<longleftrightarrow> c = CHR 0x0A" "of_char c = (13 :: nat) \<longleftrightarrow> c = CHR 0x0D"
    "of_char c = (9 :: nat) \<longleftrightarrow> c = CHR 0x09"
    by (rule *; simp)+
qed

lemma stands_for_esc:
  assumes "of_char c < (128 :: nat)"
  shows "stands_for (esc_byte c) [c]"
proof -
  have u: "stands_for (u_escape (of_char c)) [c]"
    using stands_for_u [of "of_char c"] assms by (simp add: utf8_encode_def)
  have p: "c \<noteq> backslash \<Longrightarrow> stands_for [c] [c]" using assms by (intro stands_for_char)
  show ?thesis
    unfolding esc_byte_def Let_def control_chars
    by (simp add: u p stands_for_escapes)
qed

lemma line_separators:
  "line_separator x \<Longrightarrow>
     stands_for (u_escape (if x = utf8_encode 0x2028 then 0x2028 else 0x2029)) x"
  using stands_for_u [of "0x2028"] stands_for_u [of "0x2029"] by (auto simp: line_separator_def)

lemma unquote_escape: "utf8_valid s \<Longrightarrow> unquote (json_escape s) = s"
proof (induction s rule: json_escape.induct)
  case (1 s)
  show ?case
  proof (cases "s = []")
    case True
    then show ?thesis by (subst json_escape.simps) (simp add: unquote.simps)
  next
    case False
    with "1.prems" have len: "utf8_len s \<noteq> 0" and valid: "utf8_valid (drop (utf8_len s) s)"
      using utf8_valid.simps [of s] by (auto split: if_splits)
    from len show ?thesis
    proof (cases rule: utf8_len_cases)
      case (one a r)
      with 1 valid have "unquote (json_escape r) = r" by simp
      with one stands_for_esc [of a] show ?thesis
        by (subst json_escape.simps) (simp add: stands_for_def)
    next
      case (more x r)
      have IH: "unquote (json_escape r) = r"
      proof (cases "line_separator x")
        case True
        with 1(3) [OF False refl] more valid show ?thesis by fastforce
      next
        case no: False
        with 1(4) [OF False refl] more valid show ?thesis by fastforce
      qed
      have x: "x \<noteq> []" using more(3) by auto
      have "stands_for x x"
        unfolding stands_for_def using more(3-5)
        by (subst unquote.simps) (cases x; auto simp: backslash_def)
      with x more line_separators [of x] IH False show ?thesis
        by (subst json_escape.simps) (simp add: Let_def stands_for_def)
    qed
  qed
qed


subsection \<open>Reading back what was written\<close>

text \<open>A document the writer can have produced: number literals are well-formed, nesting is bounded.\<close>

definition num_literal :: "string \<Rightarrow> bool" where
  "num_literal l \<longleftrightarrow> num_ok l \<and> list_all num_char l"

fun json_wf :: "nat \<Rightarrow> json \<Rightarrow> bool" where
  "json_wf d JNull = True"
| "json_wf d (JBool b) = True"
| "json_wf d (JNum l) = num_literal l"
| "json_wf d (JStr s) = True"
| "json_wf d (JArr vs) = (d \<noteq> 0 \<and> (\<forall>v \<in> set vs. json_wf (d - 1) v))"
| "json_wf d (JObj kvs) = (d \<noteq> 0 \<and> (\<forall>p \<in> set kvs. json_wf (d - 1) (snd p)))"

definition number_ends :: "string \<Rightarrow> bool" where
  "number_ends r \<longleftrightarrow> r = [] \<or> \<not> num_char (hd r)"

lemma num_lit_append: "num_literal l \<Longrightarrow> number_ends r \<Longrightarrow> num_lit (l @ r) = Some (l, r)"
proof -
  assume "num_literal l" "number_ends r"
  then have "takeWhile num_char (l @ r) = l" "dropWhile num_char (l @ r) = r" "num_ok l"
    by (cases r; simp add: num_literal_def number_ends_def takeWhile_append2 dropWhile_append2 list_all_iff)+
  then show ?thesis by (simp add: num_lit_def)
qed

lemma num_literal_start:
  assumes "num_literal l"
  obtains c s where "l = c # s" "num_char c" "is_digit c \<or> c = CHR ''-''"
proof (cases l)
  case Nil
  with assms show ?thesis by (simp add: num_literal_def num_ok_def TrimPrefix_def HasPrefix_def Let_def)
next
  case (Cons c s)
  have "is_digit c \<or> c = CHR ''-''"
  proof (rule ccontr)
    assume "\<not> ?thesis"
    with Cons assms show False
      by (auto simp: num_literal_def num_ok_def TrimPrefix_def HasPrefix_def Let_def)
  qed
  with Cons assms that show ?thesis by (simp add: num_literal_def)
qed

lemma skip_ws_id: "\<not> json_ws c \<Longrightarrow> skip_ws (c # s) = c # s"
  by (simp add: skip_ws_def)

lemma ws_chars [simp]:
  "\<not> json_ws dquote" "\<not> json_ws CHR ''{''" "\<not> json_ws CHR ''}''" "\<not> json_ws CHR ''[''" "\<not> json_ws CHR '']''"
  "\<not> json_ws CHR '',''" "\<not> json_ws CHR '':''" "\<not> json_ws CHR ''t''" "\<not> json_ws CHR ''f''"
  "\<not> json_ws CHR ''n''" "\<not> json_ws CHR ''-''"
  by (simp_all add: json_ws_def dquote_def)

lemma digit_chars:
  "is_digit c \<Longrightarrow> \<not> json_ws c \<and> c \<noteq> dquote \<and> c \<notin> {CHR ''{'', CHR ''['', CHR ''}'', CHR '']'', CHR ''t'', CHR ''f'', CHR ''n''}"
  by (auto simp: is_digit_def digit_val_def json_ws_def dquote_def)

lemma number_ends_simps [simp]:
  "number_ends []" "number_ends (CHR '','' # s)" "number_ends (CHR '']'' # s)" "number_ends (CHR ''}'' # s)"
  by (simp_all add: number_ends_def num_char_def is_digit_def digit_val_def)

lemma HasPrefix_Cons: "HasPrefix (c # s) (d # p) \<longleftrightarrow> c = d \<and> HasPrefix s p"
  by (auto simp: HasPrefix_def)

lemma HasPrefix_append_self: "HasPrefix (p @ s) p"
  by (simp add: HasPrefix_def)

lemma jval_number:
  assumes "num_literal l" "number_ends r"
  shows "jval (Suc n) d (l @ r) = Some (LNum l, r)"
proof -
  obtain c s where l: "l = c # s" "is_digit c \<or> c = CHR ''-''" using assms(1) by (rule num_literal_start)
  then have c: "\<not> json_ws c" "c \<noteq> dquote" "c \<noteq> CHR ''{''" "c \<noteq> CHR ''[''" "c \<noteq> CHR ''t''" "c \<noteq> CHR ''f''" "c \<noteq> CHR ''n''"
    using digit_chars [of c] by (auto simp: dquote_def)
  have "num_lit (c # s @ r) = Some (l, r)" using num_lit_append [OF assms] by (simp add: l)
  with c show ?thesis by (simp add: l skip_ws_id HasPrefix_Cons)
qed

lemma json_text_start:
  assumes "json_wf d v"
  obtains c s where "json_text v = c # s" "\<not> json_ws c" "c \<noteq> CHR '']''" "c \<noteq> CHR ''}''"
proof (cases v)
  case (JNum l)
  with assms obtain c s where "l = c # s" "is_digit c \<or> c = CHR ''-''"
    by (auto elim: num_literal_start)
  with JNum digit_chars [of c] show ?thesis by (intro that) auto
next
  case (JBool b)
  then show ?thesis
    by (cases b) (use that [of "CHR ''t''" "''rue''"] that [of "CHR ''f''" "''alse''"] in simp_all)
qed (auto intro: that simp: json_string_def dquote_def json_ws_def)


lemma jval_literals:
  "jval (Suc n) d (''null'' @ r) = Some (LNull, r)"
  "jval (Suc n) d (''true'' @ r) = Some (LBool True, r)"
  "jval (Suc n) d (''false'' @ r) = Some (LBool False, r)"
  by (simp_all add: skip_ws_id HasPrefix_Cons dquote_def) (simp_all add: HasPrefix_def)

lemma jval_string: "jval (Suc n) d (json_string s @ r) = Some (LStr (json_escape s), r)"
  by (simp add: json_string_def skip_ws_id str_lit_escape)

text \<open>What the induction provides for the elements of an array or object.\<close>

definition reads_back :: "json \<Rightarrow> bool" where
  "reads_back v \<longleftrightarrow>
     (\<forall>n d r. json_wf d v \<longrightarrow> 2 * length (json_text v @ r) < n \<longrightarrow> number_ends r \<longrightarrow>
        jval n d (json_text v @ r) = Some (json_lits v, r))"

lemma reads_backD:
  "reads_back v \<Longrightarrow> json_wf d v \<Longrightarrow> 2 * length (json_text v @ r) < n \<Longrightarrow> number_ends r \<Longrightarrow>
     jval n d (json_text v @ r) = Some (json_lits v, r)"
  by (simp add: reads_back_def)

lemma jelems_reads_back:
  assumes "vs \<noteq> []" "\<forall>v \<in> set vs. reads_back v \<and> json_wf d v"
    and "2 * length (Join (map json_text vs) '','' @ CHR '']'' # r) + 1 < n"
  shows "jelems n d (Join (map json_text vs) '','' @ CHR '']'' # r) = Some (map json_lits vs, r)"
  using assms
proof (induction vs arbitrary: n)
  case (Cons v vs)
  then obtain n' where n: "n = Suc n'" by (cases n) auto
  show ?case
  proof (cases "vs = []")
    case True
    with Cons.prems n have "jval n' d (json_text v @ CHR '']'' # r) = Some (json_lits v, CHR '']'' # r)"
      by (intro reads_backD) auto
    with True n show ?thesis by (simp add: skip_ws_id)
  next
    case False
    let ?t = "Join (map json_text vs) '','' @ CHR '']'' # r"
    have eq: "Join (map json_text (v # vs)) '','' @ CHR '']'' # r = json_text v @ CHR '','' # ?t"
      using False by (cases vs) auto
    have "jval n' d (json_text v @ CHR '','' # ?t) = Some (json_lits v, CHR '','' # ?t)"
      using Cons.prems unfolding eq n by (intro reads_backD) auto
    moreover have "jelems n' d ?t = Some (map json_lits vs, r)"
      using Cons.prems False unfolding eq n by (intro Cons.IH) auto
    ultimately show ?thesis unfolding eq n by (simp add: skip_ws_id)
  qed
qed simp


definition member_text :: "string \<times> json \<Rightarrow> string" where
  "member_text p = json_string (fst p) @ '':'' @ json_text (snd p)"

definition member_lit :: "string \<times> json \<Rightarrow> string \<times> lit" where
  "member_lit p = (json_escape (fst p), json_lits (snd p))"

lemma json_text_obj: "json_text (JObj kvs) = ''{'' @ Join (map member_text kvs) '','' @ ''}''"
  by (simp add: member_text_def [abs_def] o_def)

lemma json_lits_obj: "json_lits (JObj kvs) = LObj (map member_lit kvs)"
  by (simp add: member_lit_def [abs_def] o_def)

lemma jmembers_start:
  "jmembers (Suc n) d (json_string k @ CHR '':'' # t) =
     (case jval n d t of
        None \<Rightarrow> None
      | Some (v, u) \<Rightarrow>
          (case skip_ws u of
             [] \<Rightarrow> None
           | e # w \<Rightarrow>
               if e = CHR '','' then map_option (\<lambda>(kvs, x). ((json_escape k, v) # kvs, x)) (jmembers n d w)
               else if e = CHR ''}'' then Some ([(json_escape k, v)], w)
               else None))"
  by (simp add: json_string_def skip_ws_id str_lit_escape)

lemma jmembers_reads_back:
  assumes "kvs \<noteq> []" "\<forall>p \<in> set kvs. reads_back (snd p) \<and> json_wf d (snd p)"
    and "2 * length (Join (map member_text kvs) '','' @ CHR ''}'' # r) + 1 < n"
  shows "jmembers n d (Join (map member_text kvs) '','' @ CHR ''}'' # r) = Some (map member_lit kvs, r)"
  using assms
proof (induction kvs arbitrary: n)
  case (Cons p kvs)
  then obtain n' where n: "n = Suc n'" by (cases n) auto
  obtain k v where p: "p = (k, v)" by fastforce
  show ?case
  proof (cases "kvs = []")
    case True
    with Cons.prems n p have "jval n' d (json_text v @ CHR ''}'' # r) = Some (json_lits v, CHR ''}'' # r)"
      by (intro reads_backD) (auto simp: member_text_def)
    with True n p show ?thesis
      by (simp add: member_text_def jmembers_start skip_ws_id member_lit_def del: jmembers.simps)
  next
    case False
    let ?t = "Join (map member_text kvs) '','' @ CHR ''}'' # r"
    have eq: "Join (map member_text (p # kvs)) '','' @ CHR ''}'' # r =
        json_string k @ CHR '':'' # json_text v @ CHR '','' # ?t"
      using False by (cases kvs) (auto simp: p member_text_def)
    have "jval n' d (json_text v @ CHR '','' # ?t) = Some (json_lits v, CHR '','' # ?t)"
      using Cons.prems unfolding eq n by (intro reads_backD) (auto simp: p)
    moreover have "jmembers n' d ?t = Some (map member_lit kvs, r)"
      using Cons.prems False unfolding eq n by (intro Cons.IH) auto
    ultimately show ?thesis unfolding eq n
      by (simp add: p jmembers_start skip_ws_id member_lit_def del: jmembers.simps)
  qed
qed simp

lemma reads_back_leaf: "reads_back JNull" "reads_back (JBool b)" "reads_back (JNum l)" "reads_back (JStr s)"
proof -
  have "jval n d (json_text v @ r) = Some (json_lits v, r)"
    if "v \<in> {JNull, JBool b, JNum l, JStr s}" "json_wf d v" "2 * length (json_text v @ r) < n" "number_ends r"
    for v n d r
  proof -
    from that(3) obtain n' where "n = Suc n'" by (cases n) auto
    with that show ?thesis
      using jval_literals [of n' d r] jval_number [of l r n' d] jval_string [of n' d s r]
      by (cases v) (simp_all del: jval.simps split: if_splits)
  qed
  then show "reads_back JNull" "reads_back (JBool b)" "reads_back (JNum l)" "reads_back (JStr s)"
    by (simp_all add: reads_back_def del: json_text.simps json_lits.simps)
qed

lemma brace_neq: "CHR ''{'' \<noteq> dquote" "dquote \<noteq> CHR ''}''"
  by (simp_all add: dquote_def)

lemma json_reads_back: "reads_back v"
proof (induction v)
  case (JArr vs)
  show ?case
    unfolding reads_back_def
  proof (intro allI impI)
    fix n d r
    assume wf: "json_wf d (JArr vs)" and len: "2 * length (json_text (JArr vs) @ r) < n"
    obtain n' where n: "n = Suc n'" using len by (cases n) auto
    show "jval n d (json_text (JArr vs) @ r) = Some (json_lits (JArr vs), r)"
    proof (cases vs)
      case Nil
      with wf n show ?thesis by (simp add: skip_ws_id dquote_def)
    next
      case (Cons v ws)
      let ?t = "Join (map json_text vs) '','' @ CHR '']'' # r"
      obtain c s where c: "json_text v = c # s" "\<not> json_ws c" "c \<noteq> CHR '']''"
        using wf Cons by (auto elim: json_text_start)
      then obtain s' where t: "?t = c # s'" using Cons by (cases ws) auto
      have "jelems n' (d - 1) ?t = Some (map json_lits vs, r)"
        using JArr wf len Cons n by (intro jelems_reads_back) auto
      with wf n c(2,3) show ?thesis by (simp add: t skip_ws_id dquote_def)
    qed
  qed
next
  case (JObj kvs)
  show ?case
    unfolding reads_back_def
  proof (intro allI impI)
    fix n d r
    assume wf: "json_wf d (JObj kvs)" and len: "2 * length (json_text (JObj kvs) @ r) < n"
    obtain n' where n: "n = Suc n'" using len by (cases n) auto
    show "jval n d (json_text (JObj kvs) @ r) = Some (json_lits (JObj kvs), r)"
      unfolding json_text_obj json_lits_obj
    proof (cases kvs)
      case Nil
      with wf n show "jval n d ((''{'' @ Join (map member_text kvs) '','' @ ''}'') @ r) = Some (LObj (map member_lit kvs), r)"
        by (simp add: skip_ws_id dquote_def)
    next
      case (Cons p ps)
      let ?t = "Join (map member_text kvs) '','' @ CHR ''}'' # r"
      obtain s' where t: "?t = dquote # s'"
        using Cons by (cases ps) (auto simp: member_text_def json_string_def)
      have "jmembers n' (d - 1) ?t = Some (map member_lit kvs, r)"
        using JObj wf len Cons n unfolding json_text_obj
        by (intro jmembers_reads_back) (auto simp: prod_set_defs)
      with wf n show "jval n d ((''{'' @ Join (map member_text kvs) '','' @ ''}'') @ r) = Some (LObj (map member_lit kvs), r)"
        by (simp add: t skip_ws_id brace_neq)
    qed
  qed
qed (simp_all only: reads_back_leaf)


lemma json_lit_text: "json_wf max_depth v \<Longrightarrow> json_lit (json_text v) = Some (json_lits v)"
  using reads_backD [OF json_reads_back, of max_depth v "[]" "Suc (2 * length (json_text v))"]
  by (simp add: json_lit_def skip_ws_def)

fun json_utf8 :: "json \<Rightarrow> bool" where
  "json_utf8 (JStr s) = utf8_valid s"
| "json_utf8 (JArr vs) = (\<forall>v \<in> set vs. json_utf8 v)"
| "json_utf8 (JObj kvs) = (\<forall>p \<in> set kvs. utf8_valid (fst p) \<and> json_utf8 (snd p))"
| "json_utf8 v = True"

lemma json_of_lits: "json_utf8 v \<Longrightarrow> json_of (json_lits v) = v"
proof (induction v)
  case (JArr vs)
  then show ?case by (simp add: map_idI o_def)
next
  case (JObj kvs)
  then have "map ((\<lambda>p. (unquote (fst p), snd p)) \<circ> (map_prod (\<lambda>k. k) json_of \<circ>
      ((\<lambda>p. (json_escape (fst p), snd p)) \<circ> map_prod (\<lambda>k. k) json_lits))) kvs = kvs"
    by (intro map_idI) (force simp: unquote_escape)
  then show ?case by simp
qed (auto simp: unquote_escape)

text \<open>Reading what was written gives the document back.\<close>

lemma json_parse_text:
  "json_wf max_depth v \<Longrightarrow> json_utf8 v \<Longrightarrow> json_parse (json_text v) = Some v"
  by (simp add: json_parse_def json_lit_text json_of_lits)


subsection \<open>The fuel is enough\<close>

lemma skip_ws_length: "skip_ws s = t \<Longrightarrow> length t \<le> length s"
  by (auto simp: skip_ws_def intro: length_dropWhile_le)

lemma skip_ws_Cons: "skip_ws s = c # t \<Longrightarrow> length t < length s"
  using skip_ws_length [of s "c # t"] by simp

lemma str_lit_step:
  assumes "str_lit (c # s) = Some (r, t)"
  shows "t = s \<or> (\<exists>s' r'. length s' \<le> length s \<and> str_lit s' = Some (r', t))"
proof (cases "c = dquote")
  case False
  show ?thesis
  proof (cases "c = backslash")
    case True
    then obtain d s' where s: "s = d # s'" using assms by (cases s) auto
    show ?thesis
    proof (cases "d \<in> set [CHR ''b'', CHR ''f'', CHR ''n'', CHR ''r'', CHR ''t'', backslash, CHR ''/'', dquote]")
      case True
      with \<open>c = backslash\<close> assms obtain r' where "str_lit s' = Some (r', t)"
        unfolding str_lit.simps(2) s by auto
      then show ?thesis using s by force
    next
      case no: False
      with \<open>c = backslash\<close> assms obtain h1 h2 h3 h4 s'' r' where
        "s' = h1 # h2 # h3 # h4 # s''" "str_lit s'' = Some (r', t)"
        unfolding str_lit.simps(2) s
        by (auto simp del: str_lit.simps split: list.splits if_splits)
      then show ?thesis using s by (intro disjI2 exI [of _ s''] exI [of _ r']) simp
    qed
  next
    case no: False
    with False assms show ?thesis by (auto split: if_splits)
  qed
qed (use assms in simp)

lemma str_lit_length: "str_lit s = Some (r, t) \<Longrightarrow> length t < length s"
proof (induction "length s" arbitrary: s r rule: less_induct)
  case less
  then obtain c s' where s: "s = c # s'" by (cases s) auto
  from str_lit_step [OF less.prems [unfolded s]] show ?case
  proof
    assume "\<exists>s'' r'. length s'' \<le> length s' \<and> str_lit s'' = Some (r', t)"
    then obtain s'' r' where "length s'' \<le> length s'" "str_lit s'' = Some (r', t)" by blast
    with less.hyps [of s'' r'] show ?thesis by (simp add: s)
  qed (simp add: s)
qed

lemma num_lit_length: "num_lit s = Some (r, t) \<Longrightarrow> length t < length s"
proof -
  assume num: "num_lit s = Some (r, t)"
  then have "num_ok r" "s = r @ t" by (auto simp: num_lit_def Let_def split: if_splits)
  moreover have "\<not> num_ok []" by (simp add: num_ok_def TrimPrefix_def HasPrefix_def Let_def)
  ultimately show ?thesis by (cases r) auto
qed


lemma jval_length_step:
  assumes "\<And>d r vs t. jelems n d r = Some (vs, t) \<Longrightarrow> length t < length r"
    and "\<And>d r kvs t. jmembers n d r = Some (kvs, t) \<Longrightarrow> length t < length r"
    and "jval (Suc n) d s = Some (v, t)"
  shows "length t < length s"
proof -
  obtain c r where s: "skip_ws s = c # r" using assms(3) by (auto split: list.splits)
  have "length t \<le> length r"
  proof (cases "c = dquote \<or> c = CHR ''{'' \<or> c = CHR ''[''")
    case True
    with assms(3) s show ?thesis
      using str_lit_length [of r _ t] assms(1) [of "d - 1" r _ t] assms(2) [of "d - 1" r _ t]
      by (fastforce split: list.splits if_splits dest: skip_ws_Cons)
  next
    case False
    with assms(3) s show ?thesis
      using num_lit_length [of "c # r" _ t] by (auto split: if_splits)
  qed
  with skip_ws_Cons [OF s] show ?thesis by simp
qed

lemma jval_length:
  "jval n d s = Some (v, t) \<Longrightarrow> length t < length s"
  "jelems n d s = Some (vs, t) \<Longrightarrow> length t < length s"
  "jmembers n d s = Some (kvs, t) \<Longrightarrow> length t < length s"
proof (induction n arbitrary: d s v vs kvs t)
  case (Suc n)
  {
    case 1
    then show ?case using jval_length_step [of n] Suc.IH(2,3) by blast
  next
    case 2
    then obtain v u c w where "jval n d s = Some (v, u)" "skip_ws u = c # w"
      "(\<exists>vs'. jelems n d w = Some (vs', t)) \<or> t = w"
      by (auto split: option.splits list.splits if_splits)
    with Suc.IH(1) [of d s v u] Suc.IH(2) [of d w _ t] skip_ws_Cons [of u c w] show ?case by fastforce
  next
    case 3
    then obtain q r k t1 c t2 v u e w where "skip_ws s = q # r" "str_lit r = Some (k, t1)"
      "skip_ws t1 = c # t2" "jval n d t2 = Some (v, u)" "skip_ws u = e # w"
      "(\<exists>kvs'. jmembers n d w = Some (kvs', t)) \<or> t = w"
      by (auto split: option.splits list.splits if_splits)
    with Suc.IH(1) [of d t2 v u] Suc.IH(3) [of d w _ t] skip_ws_Cons [of s q r] skip_ws_Cons [of t1 c t2]
      skip_ws_Cons [of u e w] str_lit_length [of r k t1]
    show ?case by fastforce
  }
qed simp_all


lemma jval_fuel:
  "2 * length s < n \<Longrightarrow> 2 * length s < m \<Longrightarrow> jval n d s = jval m d s"
  "2 * length s + 1 < n \<Longrightarrow> 2 * length s + 1 < m \<Longrightarrow> jelems n d s = jelems m d s"
  "2 * length s + 1 < n \<Longrightarrow> 2 * length s + 1 < m \<Longrightarrow> jmembers n d s = jmembers m d s"
proof (induction n arbitrary: m d s)
  case (Suc n)
  {
    case 1
    then obtain m' where m: "m = Suc m'" by (cases m) auto
    show ?case
    proof (cases "skip_ws s")
      case (Cons c r)
      then have "length r < length s" by (rule skip_ws_Cons)
      with 1 m have "jelems n (d - 1) r = jelems m' (d - 1) r" "jmembers n (d - 1) r = jmembers m' (d - 1) r"
        by (auto intro!: Suc.IH)
      then show ?thesis unfolding m jval.simps Cons list.case by (simp only:)
    qed (simp add: m)
  next
    case 2
    then obtain m' where m: "m = Suc m'" by (cases m) auto
    have v: "jval n d s = jval m' d s" using 2 m by (intro Suc.IH) simp_all
    show ?case
    proof (cases "jval m' d s")
      case (Some p)
      then obtain v t where p: "jval m' d s = Some (v, t)" by (cases p) auto
      have "jelems n d u = jelems m' d u" if "skip_ws t = c # u" for c u
        using 2 m skip_ws_Cons [OF that] jval_length(1) [OF p] by (intro Suc.IH) simp_all
      with p v show ?thesis by (simp add: m split: list.split)
    qed (simp add: m v)
  next
    case 3
    then obtain m' where m: "m = Suc m'" by (cases m) auto
    have v: "jval n d t' = jval m' d t'" if "length t' < length s" for t'
      using 3 m that by (intro Suc.IH) simp_all
    have k: "jmembers n d w = jmembers m' d w" if "length w < length s" for w
      using 3 m that by (intro Suc.IH) simp_all
    show ?case
    proof (cases "\<exists>q r k t c t'. skip_ws s = q # r \<and> str_lit r = Some (k, t) \<and> skip_ws t = c # t'")
      case True
      then obtain q r k t c t' where at: "skip_ws s = q # r" "str_lit r = Some (k, t)" "skip_ws t = c # t'"
        by blast
      then have t': "length t' < length s"
        using skip_ws_Cons [of s] str_lit_length [of r] skip_ws_Cons [of t] by fastforce
      have "jmembers n d w = jmembers m' d w" if "jval m' d t' = Some (x, u)" "skip_ws u = e # w" for x u e w
        using jval_length(1) [OF that(1)] skip_ws_Cons [OF that(2)] t' by (intro k) simp
      then show ?thesis
        unfolding m by (simp add: at v [OF t'] split: option.split list.split)
    next
      case False
      then show ?thesis unfolding m by (auto split: list.splits option.splits)
    qed
  }
qed simp_all

subsection \<open>Plain text and decimal numbers\<close>

lemma utf8_valid_ascii: "\<forall>c \<in> set s. of_char c < (128 :: nat) \<Longrightarrow> utf8_valid s"
  by (induction s) (simp_all add: utf8_valid.simps utf8_len_ascii)

text \<open>Printable ASCII text without quotes, backslashes and HTML characters.\<close>

definition json_safe :: "char \<Rightarrow> bool" where
  "json_safe c \<longleftrightarrow> (32 :: nat) \<le> of_char c \<and> of_char c < (128 :: nat) \<and>
     c \<notin> {backslash, dquote, CHR ''<'', CHR ''>'', CHR ''&''}"

lemma json_escape_safe: "\<forall>c \<in> set s. json_safe c \<Longrightarrow> json_escape s = s"
proof (induction s)
  case (Cons c s)
  then have "esc_byte c = [c]" by (auto simp: json_safe_def esc_byte_def Let_def)
  with Cons show ?case by (subst json_escape.simps) (simp add: utf8_len_ascii json_safe_def)
qed (simp add: json_escape.simps)

lemma json_safe_utf8: "\<forall>c \<in> set s. json_safe c \<Longrightarrow> utf8_valid s"
  by (intro utf8_valid_ascii) (auto simp: json_safe_def)

lemma json_safe_digit: "is_digit c \<Longrightarrow> json_safe c"
  by (auto simp: is_digit_def digit_val_def json_safe_def backslash_def dquote_def Let_def split: if_splits)

lemma nat_digits_digits: "c \<in> set (nat_digits n) \<Longrightarrow> is_digit c"
  using digits_val_set [OF digits_val_nat_digits] .

lemma nat_digits_hd: "n \<noteq> 0 \<Longrightarrow> hd (nat_digits n) \<noteq> CHR ''0''"
proof (induction n rule: nat_digits.induct)
  case (1 n)
  show ?case
  proof (cases "n < 10")
    case True
    with "1.prems" have "digit_val (digit_char n) \<noteq> Some 0" by (simp add: digit_val_digit_char)
    moreover have "digit_val CHR ''0'' = Some 0" by (simp add: digit_val_def)
    ultimately show ?thesis using True by (auto simp: nat_digits.simps [of n])
  next
    case False
    with 1 show ?thesis by (simp add: nat_digits.simps [of n])
  qed
qed

lemma takeWhile_digits: "takeWhile is_digit (nat_digits n) = nat_digits n"
  "dropWhile is_digit (nat_digits n) = []"
  by (auto simp: takeWhile_eq_all_conv dropWhile_eq_Nil_conv nat_digits_digits)

lemma num_literal_digits: "num_literal (nat_digits n)" "num_literal (CHR ''-'' # nat_digits n)"
proof -
  have no: "\<not> HasPrefix (nat_digits n) ''-''"
    using nat_digits_digits [of "CHR ''-''" n] by (auto simp: HasPrefix_iff is_digit_def digit_val_def)
  have "nat_digits n = ''0'' \<or> nat_digits n \<noteq> [] \<and> hd (nat_digits n) \<noteq> CHR ''0''"
    using nat_digits_hd [of n] by (cases "n = 0") (auto simp: nat_digits.simps [of 0] digit_char_def)
  moreover have "list_all num_char (nat_digits n)"
    by (auto simp: list_all_iff num_char_def nat_digits_digits)
  ultimately show "num_literal (nat_digits n)" "num_literal (CHR ''-'' # nat_digits n)"
    using no by (auto simp: num_literal_def num_ok_def Let_def TrimPrefix_def takeWhile_digits frac_ok_def
        HasPrefix_Cons) (simp_all add: num_char_def HasPrefix_def)
qed

lemma num_literal_Itoa: "num_literal (Itoa i)"
  by (simp add: Itoa_def num_literal_digits)

lemma ParseInt_Itoa:
  assumes "min_int64 \<le> n" "n \<le> max_int64"
  shows "ParseInt (Itoa n) = (n, False)"
proof (cases "n < 0")
  case True
  have "int (nat (- n)) \<le> 2 ^ 63" using assms(1) by (simp add: min_int64_def)
  with True show ?thesis by (simp add: ParseInt_def Itoa_def digits_val_nat_digits)
next
  case False
  obtain c cs where c: "nat_digits (nat n) = c # cs" by (cases "nat_digits (nat n)") simp_all
  then have "is_digit c" using nat_digits_digits [of c "nat n"] by simp
  then have "c \<noteq> CHR ''-''" "c \<noteq> CHR ''+''" by (auto simp: is_digit_def digit_val_def)
  moreover have "digits_val 0 (c # cs) = Some (nat n)" using digits_val_nat_digits [of "nat n"] by (simp add: c)
  ultimately show ?thesis using False assms(2) by (simp add: ParseInt_def Itoa_def c del: digits_val.simps)
qed

lemma length_esc_byte: "1 \<le> length (esc_byte c)"
  by (simp add: esc_byte_def Let_def u_escape_def)

lemma length_json_escape: "length s \<le> length (json_escape s)"
proof (induction s rule: json_escape.induct)
  case (1 s)
  show ?case
  proof (cases "s = [] \<or> utf8_len s = 0")
    case True
    with 1 show ?thesis by (subst json_escape.simps) (auto simp: u_escape_def)
  next
    case False
    then have "s \<noteq> []" "utf8_len s \<noteq> 0" by auto
    from this(2) show ?thesis
    proof (cases rule: utf8_len_cases)
      case (one a r)
      with 1 length_esc_byte [of a] show ?thesis by (subst json_escape.simps) simp
    next
      case (more x r)
      have "length x \<le> 6" if "line_separator x"
        using that by (auto simp: line_separator_def utf8_encode_def)
      with 1 more \<open>s \<noteq> []\<close> show ?thesis
        by (subst json_escape.simps) (auto simp: Let_def u_escape_def)
    qed
  qed
qed

lemma pad_digits: "c \<in> set (pad w (nat_digits n)) \<Longrightarrow> is_digit c"
  using digits_val_set [OF digits_val_pad] .

lemma fraction_chars: "c \<in> set (fraction n) \<Longrightarrow> is_digit c \<or> c = CHR ''.''"
  by (auto simp: fraction_def TrimRight_def dest!: set_dropWhileD pad_digits split: if_splits)

definition time_char :: "char \<Rightarrow> bool" where
  "time_char c \<longleftrightarrow> is_digit c \<or> c \<in> set ''-T:.+Z''"

lemma time_chars:
  "\<forall>c \<in> set (pad w (nat_digits n)). time_char c" "\<forall>c \<in> set (fraction n). time_char c"
  "\<forall>c \<in> set (format_year y). time_char c" "\<forall>c \<in> set (zone_suffix tz). time_char c"
  by (auto simp: time_char_def format_year_def zone_suffix_def dest: pad_digits fraction_chars split: if_splits)

lemma time_char_safe: "time_char c \<Longrightarrow> json_safe c"
  by (auto simp: time_char_def json_safe_digit) (simp_all add: json_safe_def backslash_def dquote_def)

lemma format_safe: "\<forall>c \<in> set (format_RFC3339Nano_in tz t). json_safe c"
proof -
  have "time_char CHR ''-''" "time_char CHR ''T''" "time_char CHR '':''" by (simp_all add: time_char_def)
  then have "list_all time_char (format_RFC3339Nano_in tz t)"
    using time_chars
    by (simp add: format_RFC3339Nano_in_def Let_def list_all_iff ball_Un case_prod_beta)
  then show ?thesis by (simp add: list_all_iff time_char_safe)
qed

subsection \<open>What the writer's text looks like\<close>

lemma u_escape_text: "\<forall>c \<in> set (u_escape n). (32 :: nat) \<le> of_char c" "length (u_escape n) = 6"
  by (auto simp: u_escape_def hex_char_def backslash_def)

lemma esc_byte_text: "length (esc_byte c) \<le> 6 \<and> (\<forall>x \<in> set (esc_byte c). (32 :: nat) \<le> of_char x)"
proof -
  have "(32 :: nat) \<le> of_char backslash" "(32 :: nat) \<le> of_char dquote"
    by (simp_all add: backslash_def dquote_def)
  then show ?thesis by (simp add: esc_byte_def Let_def u_escape_text)
qed

lemma json_escape_text: "length (json_escape s) \<le> 6 * length s \<and> (\<forall>c \<in> set (json_escape s). (32 :: nat) \<le> of_char c)"
proof (induction s rule: json_escape.induct)
  case (1 s)
  show ?case
  proof (cases "s = [] \<or> utf8_len s = 0")
    case True
    with 1 u_escape_text show ?thesis by (subst (1 2) json_escape.simps) (cases s; auto)
  next
    case False
    then have "s \<noteq> []" "utf8_len s \<noteq> 0" by auto
    from this(2) show ?thesis
    proof (cases rule: utf8_len_cases)
      case (one a r)
      with 1 esc_byte_text [of a] show ?thesis by (subst (1 2) json_escape.simps) auto
    next
      case (more x r)
      then have "\<forall>c \<in> set x. (32 :: nat) \<le> of_char c" by auto
      with 1 more \<open>s \<noteq> []\<close> u_escape_text show ?thesis
        by (subst (1 2) json_escape.simps) (auto simp: Let_def)
    qed
  qed
qed

lemma set_Join: "c \<in> set (Join xs sep) \<Longrightarrow> c \<in> set sep \<or> (\<exists>x \<in> set xs. c \<in> set x)"
  by (induction xs sep rule: Join.induct) auto

lemma num_char_text: "num_char c \<Longrightarrow> (32 :: nat) \<le> of_char c"
  by (auto simp: num_char_def is_digit_def digit_val_def Let_def split: if_splits)

lemma json_string_text: "c \<in> set (json_string s) \<Longrightarrow> (32 :: nat) \<le> of_char c"
  using json_escape_text [of s] by (auto simp: json_string_def dquote_def)

lemma json_text_clean:
  "json_wf d v \<Longrightarrow> c \<in> set (json_text v) \<Longrightarrow> (32 :: nat) \<le> of_char c"
proof (induction v arbitrary: d)
  case (JArr vs)
  from JArr.prems(2) have "c \<in> set ''[,]'' \<or> (\<exists>v \<in> set vs. c \<in> set (json_text v))"
    by (auto dest!: set_Join)
  with JArr.prems(1) JArr.IH [of _ "d - 1"] show ?case by auto
next
  case (JObj kvs)
  from JObj.prems(2) have "c \<in> set ''{,}'' \<or> (\<exists>p \<in> set kvs. c \<in> set (member_text p))"
    unfolding json_text_obj by (auto dest!: set_Join)
  then show ?case
  proof
    assume "\<exists>p \<in> set kvs. c \<in> set (member_text p)"
    then obtain p where "p \<in> set kvs" "c \<in> set (json_string (fst p)) \<or> c = CHR '':'' \<or> c \<in> set (json_text (snd p))"
      by (auto simp: member_text_def)
    with JObj.prems(1) JObj.IH [of p _ "d - 1"] show ?thesis by (cases p) (auto dest: json_string_text)
  qed auto
qed (auto simp: num_literal_def list_all_iff dest: num_char_text json_string_text split: if_splits)

end
