(* ===== verification/Go_Float.thy ===== *)
theory Go_Float
  imports Complex_Main Go_Strings "HOL-Library.Log_Nat"
begin

text \<open>
  Go's \<open>float64\<close>: finite values as the rationals they are, infinities and NaN. A computed value is
  the exact one rounded to 53 significant bits, ties to even (the sign of zero is not kept: no
  comparison or conversion of the code depends on it). A conversion to \<open>int\<close> truncates; out of
  range it yields the least \<open>int64\<close>, as on amd64.
\<close>

datatype float64 = Fin rat | Inf bool | NaN

definition pow2 :: "int \<Rightarrow> rat" where
  "pow2 e = (if e \<ge> 0 then 2 ^ nat e else 1 / 2 ^ nat (- e))"

definition round_half_even :: "rat \<Rightarrow> int" where
  "round_half_even x =
     (let f = \<lfloor>x\<rfloor>; r = x - of_int f
      in if r < 1 / 2 then f else if r > 1 / 2 then f + 1 else if even f then f else f + 1)"

definition to_float64 :: "rat \<Rightarrow> float64" where
  "to_float64 q =
     (if q = 0 then Fin 0
      else let (n, d) = quotient_of q; k = bitlen \<bar>n\<bar> - bitlen d - 53;
               e = max (-1074) (if \<bar>q\<bar> < pow2 (k + 53) then k else k + 1);
               r = of_int (round_half_even (q / pow2 e)) * pow2 e
           in if \<bar>r\<bar> \<ge> 2 ^ 1024 then Inf (q < 0) else Fin r)"

fun float_lt :: "float64 \<Rightarrow> float64 \<Rightarrow> bool" where
  "float_lt (Fin a) (Fin b) = (a < b)"
| "float_lt (Inf n) (Fin b) = n"
| "float_lt (Fin a) (Inf n) = (\<not> n)"
| "float_lt (Inf m) (Inf n) = (m \<and> \<not> n)"
| "float_lt _ _ = False"

fun float_le :: "float64 \<Rightarrow> float64 \<Rightarrow> bool" where
  "float_le (Fin a) (Fin b) = (a \<le> b)"
| "float_le (Inf n) (Fin b) = n"
| "float_le (Fin a) (Inf n) = (\<not> n)"
| "float_le (Inf m) (Inf n) = (m \<or> \<not> n)"
| "float_le _ _ = False"

fun float_neg :: "float64 \<Rightarrow> bool" where
  "float_neg (Fin a) = (a < 0)"
| "float_neg (Inf n) = n"
| "float_neg NaN = False"

fun float_mul :: "float64 \<Rightarrow> float64 \<Rightarrow> float64" where
  "float_mul (Fin a) (Fin b) = to_float64 (a * b)"
| "float_mul NaN _ = NaN"
| "float_mul _ NaN = NaN"
| "float_mul (Inf m) (Inf n) = Inf (m \<noteq> n)"
| "float_mul (Inf m) (Fin b) = (if b = 0 then NaN else Inf (m \<noteq> (b < 0)))"
| "float_mul (Fin a) (Inf n) = (if a = 0 then NaN else Inf (n \<noteq> (a < 0)))"

definition truncate_rat :: "rat \<Rightarrow> int" where
  "truncate_rat q = (if q \<ge> 0 then \<lfloor>q\<rfloor> else \<lceil>q\<rceil>)"

fun float_int :: "float64 \<Rightarrow> int" where
  "float_int (Fin q) =
     (let t = truncate_rat q in if min_int64 \<le> t \<and> t \<le> max_int64 then t else min_int64)"
| "float_int _ = min_int64"

text \<open>The value of a JSON number literal, and \<open>strconv.ParseFloat\<close> on it (\<^const>\<open>None\<close> on overflow).\<close>

definition digits_nat :: "string \<Rightarrow> nat" where
  "digits_nat s = (case digits_val 0 s of Some n \<Rightarrow> n | None \<Rightarrow> 0)"

definition pow10 :: "string \<Rightarrow> rat" where
  "pow10 s =
     (case s of
        [] \<Rightarrow> 1
      | c # t \<Rightarrow>
          if c = CHR ''-'' then 1 / 10 ^ digits_nat t
          else if c = CHR ''+'' then 10 ^ digits_nat t
          else 10 ^ digits_nat s)"

definition number_value :: "string \<Rightarrow> rat" where
  "number_value s =
     (let neg = HasPrefix s ''-''; body = TrimPrefix s ''-'';
          mant = takeWhile (\<lambda>c. c \<noteq> CHR ''e'' \<and> c \<noteq> CHR ''E'') body;
          ip = takeWhile (\<lambda>c. c \<noteq> CHR ''.'') mant; fp = drop (Suc (length ip)) mant;
          v = of_nat (digits_nat (ip @ fp)) / 10 ^ length fp * pow10 (drop (Suc (length mant)) body)
      in if neg then - v else v)"

definition ParseFloat :: "string \<Rightarrow> float64 option" where
  "ParseFloat s = (case to_float64 (number_value s) of Fin q \<Rightarrow> Some (Fin q) | _ \<Rightarrow> None)"

lemma float_int_range: "min_int64 \<le> float_int f \<and> float_int f \<le> max_int64"
  by (cases f) (auto simp: Let_def min_int64_def max_int64_def)

lemma float_le_lt: "f \<noteq> NaN \<Longrightarrow> g \<noteq> NaN \<Longrightarrow> float_le f g \<longleftrightarrow> \<not> float_lt g f"
  by (cases f; cases g) auto

end
