(* ===== verification/Go_Decode.thy ===== *)
theory Go_Decode
  imports Go_Json Go_Float
begin

text \<open>
  \<open>encoding/json\<close> decoding into Go structs. Fields match without regard to case (in Unicode's simple
  folding, where the long s and the Kelvin sign fold to ASCII letters), null leaves a field alone, a
  value of the wrong type is an error (\<^const>\<open>None\<close>), unknown fields are skipped.
\<close>

fun fold_name :: "string \<Rightarrow> string" where
  "fold_name [] = []"
| "fold_name (c # s) =
     (if HasPrefix (c # s) (utf8_encode 0x17F) then CHR ''S'' # fold_name (drop 1 s)
      else if HasPrefix (c # s) (utf8_encode 0x212A) then CHR ''K'' # fold_name (drop 2 s)
      else (if byte_in 97 122 c then char_of (of_char c - 32 :: nat) else c) # fold_name s)"

definition dec_uint64 :: "lit \<Rightarrow> nat \<Rightarrow> nat option" where
  "dec_uint64 v old =
     (case v of
        LNull \<Rightarrow> Some old
      | LNum l \<Rightarrow>
          (case digits_val 0 l of None \<Rightarrow> None | Some n \<Rightarrow> if n < 2 ^ 64 then Some n else None)
      | _ \<Rightarrow> None)"

definition dec_int64 :: "lit \<Rightarrow> int \<Rightarrow> int option" where
  "dec_int64 v old =
     (case v of
        LNull \<Rightarrow> Some old
      | LNum l \<Rightarrow> (case ParseInt l of (n, bad) \<Rightarrow> if bad then None else Some n)
      | _ \<Rightarrow> None)"

definition dec_str :: "lit \<Rightarrow> string \<Rightarrow> string option" where
  "dec_str v old = (case v of LNull \<Rightarrow> Some old | LStr raw \<Rightarrow> Some (unquote raw) | _ \<Rightarrow> None)"

definition dec_bool :: "lit \<Rightarrow> bool \<Rightarrow> bool option" where
  "dec_bool v old = (case v of LNull \<Rightarrow> Some old | LBool b \<Rightarrow> Some b | _ \<Rightarrow> None)"

definition dec_float :: "lit \<Rightarrow> float64 \<Rightarrow> float64 option" where
  "dec_float v old = (case v of LNull \<Rightarrow> Some old | LNum l \<Rightarrow> ParseFloat l | _ \<Rightarrow> None)"

definition dec_time :: "lit \<Rightarrow> instant \<Rightarrow> instant option" where
  "dec_time v old = (case v of LNull \<Rightarrow> Some old | LStr raw \<Rightarrow> parse_RFC3339 raw | _ \<Rightarrow> None)"

text \<open>
  A struct whose fields \<open>set_field\<close> sets one member at a time; the decoder goes on after a value of the
  wrong type and reports the first error at the end. A slice of such structs.
\<close>

fun dec_fields :: "(string \<Rightarrow> lit \<Rightarrow> 'a \<Rightarrow> 'a option) \<Rightarrow> (string \<times> lit) list \<Rightarrow> 'a \<Rightarrow> 'a \<times> bool" where
  "dec_fields set_field [] x = (x, True)"
| "dec_fields set_field (kv # kvs) x =
     (case set_field (fold_name (unquote (fst kv))) (snd kv) x of
        Some x' \<Rightarrow> dec_fields set_field kvs x'
      | None \<Rightarrow> (fst (dec_fields set_field kvs x), False))"

definition dec_struct :: "(string \<Rightarrow> lit \<Rightarrow> 'a \<Rightarrow> 'a option) \<Rightarrow> lit \<Rightarrow> 'a \<Rightarrow> 'a \<times> bool" where
  "dec_struct set_field v x =
     (case v of LNull \<Rightarrow> (x, True) | LObj kvs \<Rightarrow> dec_fields set_field kvs x | _ \<Rightarrow> (x, False))"

definition dec_slice :: "(lit \<Rightarrow> 'a \<times> bool) \<Rightarrow> lit \<Rightarrow> 'a list option" where
  "dec_slice dec v =
     (case v of
        LNull \<Rightarrow> Some []
      | LArr vs \<Rightarrow> if list_all (\<lambda>v. snd (dec v)) vs then Some (map (\<lambda>v. fst (dec v)) vs) else None
      | _ \<Rightarrow> None)"

text \<open>\<open>json.NewDecoder(r).Decode\<close> reads the first value and ignores what follows it.\<close>

definition first_value :: "string \<Rightarrow> lit option" where
  "first_value s = map_option fst (jval (Suc (2 * length s)) max_depth s)"

lemma fold_name_ascii:
  "of_char c < (128 :: nat) \<Longrightarrow>
     fold_name (c # s) = (if byte_in 97 122 c then char_of (of_char c - 32 :: nat) else c) # fold_name s"
  by (auto simp: HasPrefix_Cons utf8_encode_def)

lemma unquote_ascii: "\<forall>c \<in> set s. of_char c < (128 :: nat) \<Longrightarrow> unquote (json_escape s) = s"
  by (simp add: unquote_escape utf8_valid_ascii)

lemma first_value_text: "json_wf max_depth j \<Longrightarrow> first_value (json_text j) = Some (json_lits j)"
  using json_lit_text [of j] by (auto simp: json_lit_def first_value_def split: option.splits if_splits)

end
