(* ===== verification/Audit_Log.thy ===== *)
theory Audit_Log
  imports Go_Decode
begin

text \<open>
  The hash-chained audit log of \<open>src/shared/audit/audit.go\<close> and \<open>open_fallback.go\<close>. SHA-256 is the
  parameter \<open>sha\<close>. The disk is a map from paths to contents; what a write or sync does is an argument
  (\<open>disk\<close>) of the operation that performs it. The JSON lines are those of \<open>encoding/json\<close>, with the
  timestamp printed in the host's zone \<open>tz\<close> (minutes east of UTC). A nil log is \<^const>\<open>None\<close>. The copy
  of every entry that goes to journald is left out.
\<close>

record Entry =
  en_Seq :: nat
  en_Timestamp :: instant
  en_JobID :: string
  en_Command :: string
  en_Step :: string
  en_Exit :: int
  en_DurationMs :: int
  en_PrevHash :: string
  en_Hash :: string

record Log =
  lg_path :: string
  lg_open :: bool
  lg_head :: string
  lg_seq :: nat

type_synonym disk_state = "string \<rightharpoonup> bytes"

datatype disk = DiskOk | ShortWrite nat | SyncFails

datatype audit_error =
    AuNilLog
  | AuOpen string
  | AuScan
  | AuMarshal
  | AuWrite
  | AuSync
  | AuUnmarshal nat
  | AuTamper nat nat
  | AuBothFailed audit_error audit_error

type_synonym sha = "bytes \<Rightarrow> bytes"

subsection \<open>Hashing and the line format\<close>

definition hashed_text :: "Entry \<Rightarrow> string" where
  "hashed_text e =
     en_JobID e @ en_Command e @ en_Step e @ Itoa (en_Exit e) @ Itoa (en_DurationMs e)
       @ format_RFC3339Nano (en_Timestamp e)"

definition computeHashWithPrev :: "sha \<Rightarrow> string \<Rightarrow> Entry \<Rightarrow> string" where
  "computeHashWithPrev sha prevHash e = EncodeToString (sha (prevHash @ hashed_text e))"

definition computeHash :: "sha \<Rightarrow> Entry \<Rightarrow> string" where
  "computeHash sha e = computeHashWithPrev sha (en_PrevHash e) e"

definition entry_json :: "int \<Rightarrow> Entry \<Rightarrow> json" where
  "entry_json tz e =
     JObj [(''seq'', JNum (nat_digits (en_Seq e))),
           (''timestamp'', JStr (format_RFC3339Nano_in tz (en_Timestamp e))),
           (''jobId'', JStr (en_JobID e)), (''command'', JStr (en_Command e)),
           (''step'', JStr (en_Step e)), (''exit'', JNum (Itoa (en_Exit e))),
           (''durationMs'', JNum (Itoa (en_DurationMs e))),
           (''prevHash'', JStr (en_PrevHash e)), (''hash'', JStr (en_Hash e))]"

text \<open>\<open>json.Marshal\<close> of an entry fails only on a timestamp it cannot print.\<close>

definition MarshalEntry :: "int \<Rightarrow> Entry \<Rightarrow> string option" where
  "MarshalEntry tz e =
     (if printable_time tz (en_Timestamp e) then Some (json_text (entry_json tz e)) else None)"

definition zero_entry :: Entry where
  "zero_entry = \<lparr>en_Seq = 0, en_Timestamp = 0, en_JobID = [], en_Command = [], en_Step = [], en_Exit = 0,
     en_DurationMs = 0, en_PrevHash = [], en_Hash = []\<rparr>"

text \<open>\<open>json.Unmarshal\<close> into an entry.\<close>

definition set_entry_field :: "string \<times> lit \<Rightarrow> Entry \<Rightarrow> Entry option" where
  "set_entry_field kv e =
     (let k = fold_name (unquote (fst kv)); v = snd kv in
      if k = ''SEQ'' then map_option (\<lambda>x. e\<lparr>en_Seq := x\<rparr>) (dec_uint64 v (en_Seq e))
      else if k = ''TIMESTAMP'' then map_option (\<lambda>x. e\<lparr>en_Timestamp := x\<rparr>) (dec_time v (en_Timestamp e))
      else if k = ''JOBID'' then map_option (\<lambda>x. e\<lparr>en_JobID := x\<rparr>) (dec_str v (en_JobID e))
      else if k = ''COMMAND'' then map_option (\<lambda>x. e\<lparr>en_Command := x\<rparr>) (dec_str v (en_Command e))
      else if k = ''STEP'' then map_option (\<lambda>x. e\<lparr>en_Step := x\<rparr>) (dec_str v (en_Step e))
      else if k = ''EXIT'' then map_option (\<lambda>x. e\<lparr>en_Exit := x\<rparr>) (dec_int64 v (en_Exit e))
      else if k = ''DURATIONMS'' then map_option (\<lambda>x. e\<lparr>en_DurationMs := x\<rparr>) (dec_int64 v (en_DurationMs e))
      else if k = ''PREVHASH'' then map_option (\<lambda>x. e\<lparr>en_PrevHash := x\<rparr>) (dec_str v (en_PrevHash e))
      else if k = ''HASH'' then map_option (\<lambda>x. e\<lparr>en_Hash := x\<rparr>) (dec_str v (en_Hash e))
      else Some e)"

fun set_entry_fields :: "(string \<times> lit) list \<Rightarrow> Entry \<Rightarrow> Entry option" where
  "set_entry_fields [] e = Some e"
| "set_entry_fields (kv # kvs) e =
     (case set_entry_field kv e of None \<Rightarrow> None | Some e' \<Rightarrow> set_entry_fields kvs e')"

definition UnmarshalEntry :: "string \<Rightarrow> Entry option" where
  "UnmarshalEntry s =
     (case json_lit s of
        Some LNull \<Rightarrow> Some zero_entry
      | Some (LObj kvs) \<Rightarrow> set_entry_fields kvs zero_entry
      | _ \<Rightarrow> None)"

subsection \<open>Operations\<close>

text \<open>\<open>replay\<close> stops at the first line that does not parse; the last entry before it is the head.\<close>

fun replay_lines :: "string list \<Rightarrow> Entry option \<Rightarrow> Entry option \<times> bool" where
  "replay_lines [] last_entry = (last_entry, True)"
| "replay_lines (l # ls) last_entry =
     (case UnmarshalEntry l of
        None \<Rightarrow> (last_entry, False)
      | Some e \<Rightarrow> replay_lines ls (Some e))"

definition replay :: "bytes \<Rightarrow> Log \<Rightarrow> audit_error + Log" where
  "replay content l =
     (let sc = scan_lines content; (last_entry, complete) = replay_lines (tokens sc) None in
      if complete \<and> too_long sc then Inl AuScan
      else case last_entry of
          None \<Rightarrow> Inr l
        | Some e \<Rightarrow> Inr (l\<lparr>lg_head := en_Hash e, lg_seq := en_Seq e\<rparr>))"

definition OpenLog :: "(string \<Rightarrow> bool) \<Rightarrow> disk_state \<Rightarrow> string \<Rightarrow> (audit_error + Log) \<times> disk_state" where
  "OpenLog can_open fs path =
     (if \<not> can_open path then (Inl (AuOpen path), fs)
      else let fs' = (case fs path of None \<Rightarrow> fs(path \<mapsto> []) | Some _ \<Rightarrow> fs);
               l = \<lparr>lg_path = path, lg_open = True, lg_head = [], lg_seq = 0\<rparr>
           in (replay (the (fs' path)) l, fs'))"

definition OpenWithFallback ::
  "(string \<Rightarrow> bool) \<Rightarrow> disk_state \<Rightarrow> string \<Rightarrow> string \<Rightarrow> (audit_error + Log) \<times> disk_state" where
  "OpenWithFallback can_open fs primaryPath fallbackPath =
     (case OpenLog can_open fs primaryPath of
        (Inr l, fs1) \<Rightarrow> (Inr l, fs1)
      | (Inl primaryErr, fs1) \<Rightarrow>
          (case OpenLog can_open fs1 fallbackPath of
             (Inr l, fs2) \<Rightarrow> (Inr l, fs2)
           | (Inl err, fs2) \<Rightarrow> (Inl (AuBothFailed primaryErr err), fs2)))"

definition Head :: "Log option \<Rightarrow> string" where
  "Head l = (case l of None \<Rightarrow> [] | Some lg \<Rightarrow> lg_head lg)"

definition stamped :: "sha \<Rightarrow> instant \<Rightarrow> Log \<Rightarrow> Entry \<Rightarrow> Entry" where
  "stamped sha now l e =
     (let e1 = e\<lparr>en_Seq := (lg_seq l + 1) mod 2 ^ 64, en_PrevHash := lg_head l\<rparr>;
          e2 = (if IsZero (en_Timestamp e1) then e1\<lparr>en_Timestamp := now\<rparr> else e1)
      in e2\<lparr>en_Hash := computeHash sha e2\<rparr>)"

definition write_disk :: "disk \<Rightarrow> disk_state \<Rightarrow> string \<Rightarrow> bytes \<Rightarrow> disk_state" where
  "write_disk d fs path line =
     fs(path \<mapsto> (case fs path of None \<Rightarrow> [] | Some c \<Rightarrow> c) @
                 (case d of ShortWrite n \<Rightarrow> take n line | _ \<Rightarrow> line))"

definition Append ::
  "sha \<Rightarrow> disk \<Rightarrow> instant \<Rightarrow> int \<Rightarrow> Log option \<Rightarrow> disk_state \<Rightarrow> Entry \<Rightarrow>
   (audit_error + string) \<times> Log option \<times> disk_state" where
  "Append sha d now tz lg fs e =
     (case lg of
        None \<Rightarrow> (Inl AuNilLog, None, fs)
      | Some l \<Rightarrow>
          (let e' = stamped sha now l e in
           case MarshalEntry tz e' of
             None \<Rightarrow> (Inl AuMarshal, Some l, fs)
           | Some line \<Rightarrow>
               if \<not> lg_open l then (Inl AuWrite, Some l, fs)
               else let fs' = write_disk d fs (lg_path l) (line @ [newline]) in
                 case d of
                   ShortWrite _ \<Rightarrow> (Inl AuWrite, Some l, fs')
                 | SyncFails \<Rightarrow> (Inl AuSync, Some l, fs')
                 | DiskOk \<Rightarrow>
                     (Inr (en_Hash e'), Some (l\<lparr>lg_head := en_Hash e', lg_seq := en_Seq e'\<rparr>), fs')))"

text \<open>All entries the channel of \<open>Iter\<close> delivers.\<close>

definition Iter :: "Log option \<Rightarrow> disk_state \<Rightarrow> nat \<Rightarrow> audit_error + Entry list" where
  "Iter lg fs fromSeq =
     (case lg of
        None \<Rightarrow> Inl AuNilLog
      | Some l \<Rightarrow>
          Inr (case fs (lg_path l) of
                 None \<Rightarrow> []
               | Some content \<Rightarrow>
                   filter (\<lambda>e. en_Seq e \<ge> fromSeq)
                     (List.map_filter UnmarshalEntry (tokens (scan_lines content)))))"

definition CloseLog :: "Log option \<Rightarrow> Log option" where
  "CloseLog lg = map_option (\<lambda>l. l\<lparr>lg_open := False\<rparr>) lg"

fun verify_lines :: "sha \<Rightarrow> nat \<Rightarrow> string \<Rightarrow> string list \<Rightarrow> audit_error option" where
  "verify_lines sha lineNum prevHash [] = None"
| "verify_lines sha lineNum prevHash (l # ls) =
     (case UnmarshalEntry l of
        None \<Rightarrow> Some (AuUnmarshal (Suc lineNum))
      | Some e \<Rightarrow>
          if en_Hash e \<noteq> computeHashWithPrev sha prevHash e
          then Some (AuTamper (en_Seq e) (Suc lineNum))
          else verify_lines sha (Suc lineNum) (en_Hash e) ls)"

definition VerifyLog :: "sha \<Rightarrow> Log option \<Rightarrow> disk_state \<Rightarrow> audit_error option" where
  "VerifyLog sha lg fs =
     (case lg of
        None \<Rightarrow> Some AuNilLog
      | Some l \<Rightarrow>
          (case fs (lg_path l) of
             None \<Rightarrow> Some (AuOpen (lg_path l))
           | Some content \<Rightarrow>
               (let sc = scan_lines content in
                case verify_lines sha 0 [] (tokens sc) of
                  Some err \<Rightarrow> Some err
                | None \<Rightarrow> if too_long sc then Some AuScan else None)))"

subsection \<open>Lines are read back as written\<close>

lemma entry_keys:
  "fold_name (unquote (json_escape ''seq'')) = ''SEQ''"
  "fold_name (unquote (json_escape ''timestamp'')) = ''TIMESTAMP''"
  "fold_name (unquote (json_escape ''jobId'')) = ''JOBID''"
  "fold_name (unquote (json_escape ''command'')) = ''COMMAND''"
  "fold_name (unquote (json_escape ''step'')) = ''STEP''"
  "fold_name (unquote (json_escape ''exit'')) = ''EXIT''"
  "fold_name (unquote (json_escape ''durationMs'')) = ''DURATIONMS''"
  "fold_name (unquote (json_escape ''prevHash'')) = ''PREVHASH''"
  "fold_name (unquote (json_escape ''hash'')) = ''HASH''"
  by (simp_all add: unquote_ascii fold_name_ascii byte_in_def char_of_def bit_0 del: fold_name.simps(2))

text \<open>The range of the machine types, and text that JSON can represent.\<close>

definition entry_ok :: "Entry \<Rightarrow> bool" where
  "entry_ok e \<longleftrightarrow> en_Seq e < 2 ^ 64 \<and> min_int64 \<le> en_Exit e \<and> en_Exit e \<le> max_int64 \<and>
     min_int64 \<le> en_DurationMs e \<and> en_DurationMs e \<le> max_int64 \<and>
     utf8_valid (en_JobID e) \<and> utf8_valid (en_Command e) \<and> utf8_valid (en_Step e) \<and>
     utf8_valid (en_PrevHash e) \<and> utf8_valid (en_Hash e)"

lemma entry_json_wf: "json_wf max_depth (entry_json tz e)"
  by (simp add: entry_json_def max_depth_def num_literal_digits num_literal_Itoa)

lemma UnmarshalEntry_MarshalEntry:
  assumes "entry_ok e" and "MarshalEntry tz e = Some line"
  shows "UnmarshalEntry line = Some e"
proof -
  have t: "printable_time tz (en_Timestamp e)" and line: "line = json_text (entry_json tz e)"
    using assms(2) by (auto simp: MarshalEntry_def split: if_splits)
  have time: "parse_RFC3339 (json_escape (format_RFC3339Nano_in tz (en_Timestamp e))) = Some (en_Timestamp e)"
    using parse_format [OF t] by (simp add: json_escape_safe format_safe)
  have "json_lit line = Some (json_lits (entry_json tz e))"
    unfolding line by (rule json_lit_text [OF entry_json_wf])
  with assms(1) show ?thesis
    by (simp add: UnmarshalEntry_def entry_json_def set_entry_field_def entry_keys time dec_uint64_def
        dec_int64_def dec_str_def dec_time_def zero_entry_def digits_val_nat_digits ParseInt_Itoa
        unquote_escape entry_ok_def Let_def)
qed

subsection \<open>The file and the chain\<close>

lemma json_string_keys:
  "length (json_escape ''seq'') = 3" "length (json_escape ''timestamp'') = 9"
  "length (json_escape ''jobId'') = 5" "length (json_escape ''command'') = 7"
  "length (json_escape ''step'') = 4" "length (json_escape ''exit'') = 4"
  "length (json_escape ''durationMs'') = 10" "length (json_escape ''prevHash'') = 8"
  "length (json_escape ''hash'') = 4"
  by (simp_all add: json_escape_safe json_safe_def backslash_def dquote_def)

lemma length_entry_text:
  assumes "entry_ok e" and "printable_time tz (en_Timestamp e)"
  shows "length (json_text (entry_json tz e)) \<le>
    300 + 6 * (length (en_JobID e) + length (en_Command e) + length (en_Step e)
      + length (en_PrevHash e) + length (en_Hash e))"
proof -
  have "en_Seq e < 10 ^ 20" using assms(1) by (simp add: entry_ok_def)
  then have "length (nat_digits (en_Seq e)) \<le> 20" by (intro length_nat_digits) simp_all
  moreover have "length (Itoa (en_Exit e)) \<le> 20" "length (Itoa (en_DurationMs e)) \<le> 20"
    using assms(1) by (simp_all add: entry_ok_def length_Itoa)
  moreover have "length (json_escape (format_RFC3339Nano_in tz (en_Timestamp e))) \<le> 35"
    using length_format [OF assms(2)] by (simp add: json_escape_safe format_safe)
  ultimately show ?thesis
    using json_escape_text [of "en_JobID e"] json_escape_text [of "en_Command e"]
      json_escape_text [of "en_Step e"] json_escape_text [of "en_PrevHash e"]
      json_escape_text [of "en_Hash e"]
    by (simp add: entry_json_def json_string_def json_string_keys)
qed

text \<open>A line of the file that stands for an entry.\<close>

definition line_of :: "string \<Rightarrow> Entry \<Rightarrow> bool" where
  "line_of l e \<longleftrightarrow> UnmarshalEntry l = Some e \<and> newline \<notin> set l \<and> drop_cr l = l"

lemma entry_line:
  assumes "entry_ok e" and "MarshalEntry tz e = Some l"
  shows "line_of l e"
proof -
  have l: "l = json_text (entry_json tz e)" using assms(2) by (auto simp: MarshalEntry_def split: if_splits)
  have "\<forall>c \<in> set l. (32 :: nat) \<le> of_char c" unfolding l using json_text_clean [OF entry_json_wf] by blast
  moreover have "last l = CHR ''}''" by (simp add: l entry_json_def)
  ultimately show ?thesis
    using UnmarshalEntry_MarshalEntry [OF assms] by (auto simp: line_of_def newline_def drop_cr_def)
qed

text \<open>The lines \<open>ls\<close> hold the entries \<open>es\<close>.\<close>

definition lines_hold :: "string list \<Rightarrow> Entry list \<Rightarrow> bool" where
  "lines_hold ls es \<longleftrightarrow> list_all2 line_of ls es \<and> (\<forall>l \<in> set ls. length l < max_token)"

lemma lines_hold_append:
  "lines_hold ls es \<Longrightarrow> line_of l e \<Longrightarrow> length l < max_token \<Longrightarrow> lines_hold (ls @ [l]) (es @ [e])"
  by (auto simp: lines_hold_def list_all2_appendI)

lemma list_all2_line_clean: "list_all2 line_of ls es \<Longrightarrow> \<forall>l \<in> set ls. newline \<notin> set l \<and> drop_cr l = l"
  by (induction rule: list_all2_induct) (auto simp: line_of_def)

lemma scan_file: "lines_hold ls es \<Longrightarrow> scan_lines (file_of ls) = \<lparr>tokens = ls, too_long = False\<rparr>"
  using list_all2_line_clean by (intro scan_clean_file) (auto simp: lines_hold_def)

text \<open>The chain of hashes from \<open>prev\<close>, and the state the log keeps about it.\<close>

fun chained :: "sha \<Rightarrow> string \<Rightarrow> Entry list \<Rightarrow> bool" where
  "chained sha prev [] = True"
| "chained sha prev (e # es) =
     (en_Hash e = computeHashWithPrev sha prev e \<and> chained sha (en_Hash e) es)"

definition chain_head :: "string \<Rightarrow> Entry list \<Rightarrow> string" where
  "chain_head prev es = (if es = [] then prev else en_Hash (last es))"

lemma chained_append:
  "chained sha prev (es @ [e]) \<longleftrightarrow>
     chained sha prev es \<and> en_Hash e = computeHashWithPrev sha (chain_head prev es) e"
  by (induction es arbitrary: prev) (auto simp: chain_head_def)

lemma verify_lines_iff:
  "verify_lines sha n prev ls = None \<longleftrightarrow>
     (\<exists>es. map UnmarshalEntry ls = map Some es \<and> chained sha prev es)"
proof (induction ls arbitrary: n prev)
  case (Cons l ls)
  show ?case
  proof (cases "UnmarshalEntry l")
    case None
    then show ?thesis by auto
  next
    case (Some e)
    have "(\<exists>es. map UnmarshalEntry (l # ls) = map Some es \<and> chained sha prev es) \<longleftrightarrow>
        en_Hash e = computeHashWithPrev sha prev e \<and>
        (\<exists>es. map UnmarshalEntry ls = map Some es \<and> chained sha (en_Hash e) es)"
      using Some by (auto simp: map_eq_Cons_conv intro: exI [of _ "e # _"])
    with Some Cons.IH show ?thesis by simp
  qed
qed simp

lemma lines_hold_entries: "lines_hold ls es \<Longrightarrow> map UnmarshalEntry ls = map Some es"
proof -
  assume "lines_hold ls es"
  then have "list_all2 line_of ls es" by (simp add: lines_hold_def)
  then show ?thesis by (induction rule: list_all2_induct) (simp_all add: line_of_def)
qed

lemma replay_lines_all:
  "map UnmarshalEntry ls = map Some es \<Longrightarrow>
     replay_lines ls o1 = (if es = [] then o1 else Some (last es), True)"
  by (induction ls arbitrary: es o1) (auto simp: map_eq_Cons_conv)

lemma map_filter_all: "map f ls = map Some es \<Longrightarrow> List.map_filter f ls = es"
  by (induction ls arbitrary: es) (auto simp: map_eq_Cons_conv List.map_filter_simps)


lemma EncodeToString_utf8: "utf8_valid (EncodeToString b)"
  using EncodeToString_plain [of b] by (intro utf8_valid_ascii) (auto simp: plain_def list_all_iff plain_char_def)

lemma chain_head_hash:
  assumes "chained sha [] es" and "\<forall>x. length (sha x) = 32"
  shows "utf8_valid (chain_head [] es) \<and> length (chain_head [] es) \<le> 64"
proof (cases es rule: rev_cases)
  case Nil
  then show ?thesis by (simp add: chain_head_def utf8_valid.simps)
next
  case (snoc ys y)
  then have "en_Hash y = computeHashWithPrev sha (chain_head [] ys) y"
    using assms(1) by (simp add: chained_append)
  then show ?thesis
    using assms(2) snoc by (simp add: chain_head_def computeHashWithPrev_def EncodeToString_utf8)
qed

text \<open>The log in memory and on disk holds the entries \<open>es\<close>.\<close>

definition log_ok :: "sha \<Rightarrow> Log \<Rightarrow> disk_state \<Rightarrow> Entry list \<Rightarrow> bool" where
  "log_ok sha l fs es \<longleftrightarrow>
     lg_open l \<and> (\<exists>ls. fs (lg_path l) = Some (file_of ls) \<and> lines_hold ls es) \<and>
     chained sha [] es \<and> lg_head l = chain_head [] es \<and>
     map en_Seq es = [1..<Suc (length es)] \<and> lg_seq l = length es"

text \<open>Entries that JSON can carry and whose line stays below the scanner's limit.\<close>

definition appendable :: "instant \<times> int \<times> Entry \<Rightarrow> bool" where
  "appendable r \<longleftrightarrow> (case r of (now, tz, e) \<Rightarrow>
     utf8_valid (en_JobID e) \<and> utf8_valid (en_Command e) \<and> utf8_valid (en_Step e) \<and>
     min_int64 \<le> en_Exit e \<and> en_Exit e \<le> max_int64 \<and>
     min_int64 \<le> en_DurationMs e \<and> en_DurationMs e \<le> max_int64 \<and>
     printable_time tz (if IsZero (en_Timestamp e) then now else en_Timestamp e) \<and>
     length (en_JobID e) + length (en_Command e) + length (en_Step e) \<le> 10000)"

lemma stamped_fields:
  "en_Seq (stamped sha now l e) = (lg_seq l + 1) mod 2 ^ 64"
  "en_PrevHash (stamped sha now l e) = lg_head l"
  "en_JobID (stamped sha now l e) = en_JobID e" "en_Command (stamped sha now l e) = en_Command e"
  "en_Step (stamped sha now l e) = en_Step e" "en_Exit (stamped sha now l e) = en_Exit e"
  "en_DurationMs (stamped sha now l e) = en_DurationMs e"
  "en_Timestamp (stamped sha now l e) = (if IsZero (en_Timestamp e) then now else en_Timestamp e)"
  by (simp_all add: stamped_def Let_def)

lemma stamped_hash:
  "en_Hash (stamped sha now l e) = computeHashWithPrev sha (lg_head l) (stamped sha now l e)"
  by (simp add: stamped_def Let_def computeHash_def computeHashWithPrev_def hashed_text_def)

lemma Append_ok:
  assumes "log_ok sha l fs es" and "\<forall>x. length (sha x) = 32" and "appendable (now, tz, e)"
    and "Suc (length es) < 2 ^ 64"
  shows "\<exists>fs'. Append sha DiskOk now tz (Some l) fs e =
      (Inr (en_Hash (stamped sha now l e)),
       Some (l\<lparr>lg_head := en_Hash (stamped sha now l e), lg_seq := Suc (length es)\<rparr>), fs') \<and>
    log_ok sha (l\<lparr>lg_head := en_Hash (stamped sha now l e), lg_seq := Suc (length es)\<rparr>) fs'
      (es @ [stamped sha now l e])"
proof -
  define e' where "e' = stamped sha now l e"
  obtain ls where ls: "fs (lg_path l) = Some (file_of ls)" "lines_hold ls es"
    and log: "lg_open l" "chained sha [] es" "lg_head l = chain_head [] es" "lg_seq l = length es"
      "map en_Seq es = [1..<Suc (length es)]"
    using assms(1) by (auto simp: log_ok_def)
  have head: "utf8_valid (lg_head l)" "length (lg_head l) \<le> 64"
    using chain_head_hash [OF log(2) assms(2)] by (simp_all add: log(3))
  have hash: "utf8_valid (en_Hash e')" "length (en_Hash e') = 64"
    using assms(2) by (simp_all add: e'_def stamped_hash computeHashWithPrev_def EncodeToString_utf8)
  have ok: "entry_ok e'" "printable_time tz (en_Timestamp e')" and seq: "en_Seq e' = Suc (length es)"
    using assms(3,4) head hash log(4)
    by (simp_all add: entry_ok_def appendable_def e'_def stamped_fields split: if_splits)
  obtain line where line: "MarshalEntry tz e' = Some line" "line = json_text (entry_json tz e')"
    using ok(2) by (simp add: MarshalEntry_def)
  have "length line < max_token"
    using length_entry_text [OF ok] assms(3) head(2) hash(2)
    by (simp add: line(2) max_token_def appendable_def e'_def stamped_fields)
  then have hold: "lines_hold (ls @ [line]) (es @ [e'])"
    using ls(2) entry_line [OF ok(1) line(1)] by (simp add: lines_hold_append)
  define fs' where "fs' = fs(lg_path l \<mapsto> file_of (ls @ [line]))"
  have "Append sha DiskOk now tz (Some l) fs e =
      (Inr (en_Hash e'), Some (l\<lparr>lg_head := en_Hash e', lg_seq := Suc (length es)\<rparr>), fs')"
    using line(1) log(1) ls(1) seq
    by (simp add: Append_def Let_def e'_def [symmetric] write_disk_def fs'_def file_of_append)
  moreover have "log_ok sha (l\<lparr>lg_head := en_Hash e', lg_seq := Suc (length es)\<rparr>) fs' (es @ [e'])"
    using log hold seq stamped_hash [of sha now l e]
    by (auto simp: log_ok_def fs'_def chained_append chain_head_def e'_def)
  ultimately show ?thesis by (auto simp: e'_def)
qed

subsection \<open>Histories\<close>

text \<open>Successive calls of \<open>Append\<close>, each with its clock reading and zone, and what they record.\<close>

fun append_all ::
  "sha \<Rightarrow> (instant \<times> int \<times> Entry) list \<Rightarrow> Log option \<times> disk_state \<Rightarrow> Log option \<times> disk_state" where
  "append_all sha [] st = st"
| "append_all sha ((now, tz, e) # rs) (l, fs) = append_all sha rs (snd (Append sha DiskOk now tz l fs e))"

fun recorded :: "sha \<Rightarrow> Log \<Rightarrow> (instant \<times> int \<times> Entry) list \<Rightarrow> Entry list" where
  "recorded sha l [] = []"
| "recorded sha l ((now, tz, e) # rs) =
     (let e' = stamped sha now l e
      in e' # recorded sha (l\<lparr>lg_head := en_Hash e', lg_seq := en_Seq e'\<rparr>) rs)"

lemma append_all_ok:
  assumes "log_ok sha l fs es" and "\<forall>x. length (sha x) = 32" and "\<forall>r \<in> set rs. appendable r"
    and "length es + length rs < 2 ^ 64"
  shows "\<exists>l' fs'. append_all sha rs (Some l, fs) = (Some l', fs') \<and> lg_path l' = lg_path l \<and>
    log_ok sha l' fs' (es @ recorded sha l rs)"
  using assms
proof (induction rs arbitrary: l fs es)
  case (Cons r rs)
  obtain now tz e where r: "r = (now, tz, e)" by (cases r) auto
  let ?e = "stamped sha now l e"
  let ?l = "l\<lparr>lg_head := en_Hash ?e, lg_seq := Suc (length es)\<rparr>"
  obtain fs1 where app: "Append sha DiskOk now tz (Some l) fs e = (Inr (en_Hash ?e), Some ?l, fs1)"
    and ok: "log_ok sha ?l fs1 (es @ [?e])"
    using Append_ok [OF Cons.prems(1,2), of now tz e] Cons.prems(3,4) by (auto simp: r)
  have seq: "en_Seq ?e = Suc (length es)"
    using ok by (simp add: log_ok_def)
  have "\<exists>l' fs'. append_all sha rs (Some ?l, fs1) = (Some l', fs') \<and> lg_path l' = lg_path ?l \<and>
      log_ok sha l' fs' ((es @ [?e]) @ recorded sha ?l rs)"
    by (rule Cons.IH [OF ok Cons.prems(2)]) (use Cons.prems in auto)
  then show ?case by (simp add: r app seq Let_def)
qed simp

lemma OpenLog_fresh:
  "can_open path \<Longrightarrow> fs path = None \<Longrightarrow>
     OpenLog can_open fs path =
       (Inr \<lparr>lg_path = path, lg_open = True, lg_head = [], lg_seq = 0\<rparr>, fs(path \<mapsto> []))"
  by (simp add: OpenLog_def replay_def scan_lines_def)

lemma log_ok_fresh:
  "log_ok sha \<lparr>lg_path = path, lg_open = True, lg_head = [], lg_seq = 0\<rparr> (fs(path \<mapsto> [])) []"
  by (auto simp: log_ok_def lines_hold_def file_of_def chain_head_def intro!: exI [of _ "[]"])

lemma log_ok_results:
  assumes "log_ok sha l fs es"
  shows "VerifyLog sha (Some l) fs = None" and "Iter (Some l) fs n = Inr (filter (\<lambda>e. n \<le> en_Seq e) es)"
    and "can_open (lg_path l) \<Longrightarrow> OpenLog can_open fs (lg_path l) = (Inr l, fs)"
proof -
  obtain ls where ls: "fs (lg_path l) = Some (file_of ls)" "lines_hold ls es"
    and log: "lg_open l" "chained sha [] es" "lg_head l = chain_head [] es" "lg_seq l = length es"
      "map en_Seq es = [1..<Suc (length es)]"
    using assms by (auto simp: log_ok_def)
  note all = lines_hold_entries [OF ls(2)] and scan = scan_file [OF ls(2)]
  show "VerifyLog sha (Some l) fs = None"
    using ls(1) all log(2) verify_lines_iff [of sha 0 "[]" ls] by (auto simp: VerifyLog_def scan)
  show "Iter (Some l) fs n = Inr (filter (\<lambda>e. n \<le> en_Seq e) es)"
    using ls(1) map_filter_all [OF all] by (simp add: Iter_def scan)
  have last: "en_Seq (last es) = length es" if "es \<noteq> []"
    using that log(5) by (cases es rule: rev_cases) simp_all
  assume "can_open (lg_path l)"
  then show "OpenLog can_open fs (lg_path l) = (Inr l, fs)"
    using ls(1) log(1,3,4) last
    by (cases l) (auto simp: OpenLog_def replay_def scan replay_lines_all [OF all] chain_head_def)
qed

lemma VerifyLog_chained:
  assumes "VerifyLog sha (Some l) fs = None"
  obtains es where "Iter (Some l) fs 0 = Inr es" "chained sha [] es"
proof -
  obtain content where c: "fs (lg_path l) = Some content"
    "verify_lines sha 0 [] (tokens (scan_lines content)) = None"
    using assms by (auto simp: VerifyLog_def Let_def split: option.splits)
  then obtain es where "map UnmarshalEntry (tokens (scan_lines content)) = map Some es" "chained sha [] es"
    by (auto simp: verify_lines_iff)
  with c(1) map_filter_all [OF this(1)] show ?thesis by (intro that) (simp_all add: Iter_def)
qed

lemma chain_head_length:
  assumes "chained sha prev es" "\<forall>x. length (sha x) = 32" "es \<noteq> []"
  shows "length (chain_head prev es) = 64"
  using assms by (cases es rule: rev_cases) (auto simp: chained_append chain_head_def computeHashWithPrev_def)

text \<open>What is hashed for entry \<open>i\<close>.\<close>

definition preimage :: "Entry list \<Rightarrow> nat \<Rightarrow> string" where
  "preimage es i = chain_head [] (take i es) @ hashed_text (es ! i)"

lemma preimage_append:
  "i < length es \<Longrightarrow> preimage (es @ [e]) i = preimage es i"
  "preimage (es @ [e]) (length es) = chain_head [] es @ hashed_text e"
  by (simp_all add: preimage_def nth_append)

lemma chained_collision:
  assumes "chained sha [] es" "chained sha [] es'" "length es = length es'" "\<forall>x. length (sha x) = 32"
    and "chain_head [] es = chain_head [] es'"
    and "\<forall>i < length es. sha (preimage es i) = sha (preimage es' i) \<longrightarrow> preimage es i = preimage es' i"
  shows "map hashed_text es = map hashed_text es' \<and> map en_Hash es = map en_Hash es'"
  using assms
proof (induction es arbitrary: es' rule: rev_induct)
  case (snoc y ys)
  then obtain y' ys' where es': "es' = ys' @ [y']" by (cases es' rule: rev_cases) auto
  have hash: "en_Hash y = en_Hash y'" using snoc.prems(5) by (simp add: es' chain_head_def)
  have "sha (chain_head [] ys @ hashed_text y) = sha (chain_head [] ys' @ hashed_text y')"
    using snoc.prems(1,2) hash
    by (auto simp: es' chained_append computeHashWithPrev_def dest!: EncodeToString_inj)
  then have eq: "chain_head [] ys @ hashed_text y = chain_head [] ys' @ hashed_text y'"
    using snoc.prems(3) snoc.prems(6) [rule_format, of "length ys"] preimage_append(2) [of ys y]
      preimage_append(2) [of ys' y']
    by (simp add: es' del: preimage_append)
  have "length (chain_head [] ys) = length (chain_head [] ys')"
  proof (cases "ys = []")
    case True
    with snoc.prems(3) show ?thesis by (simp add: es' chain_head_def)
  next
    case False
    with snoc.prems(3) have "ys' \<noteq> []" by (auto simp: es')
    with False snoc.prems(1,2,4) show ?thesis
      using chain_head_length [of sha "[]" ys] chain_head_length [of sha "[]" ys']
      by (simp add: es' chained_append)
  qed
  with eq have parts: "chain_head [] ys = chain_head [] ys'" "hashed_text y = hashed_text y'" by simp_all
  have "map hashed_text ys = map hashed_text ys' \<and> map en_Hash ys = map en_Hash ys'"
  proof (rule snoc.IH)
    show "\<forall>i < length ys. sha (preimage ys i) = sha (preimage ys' i) \<longrightarrow> preimage ys i = preimage ys' i"
      using snoc.prems(3,6) by (auto simp: es' less_Suc_eq preimage_append)
  qed (use snoc.prems parts(1) in \<open>simp_all add: es' chained_append\<close>)
  with parts hash show ?case by (simp add: es')
qed simp

subsection \<open>Properties\<close>



definition sample_sha :: sha where
  "sample_sha x = replicate 32 (CHR ''s'')"

definition sample_entry :: Entry where
  "sample_entry = zero_entry\<lparr>en_JobID := ''j'', en_Command := ''core.drain'', en_Step := ''execute''\<rparr>"

lemma fst_format_date: "fst (format_date t) = fst (year_of_days (t div (24 * Hour)))"
  by (simp add: format_date_def case_prod_beta)

lemma sample_appendable: "appendable (1, 0, sample_entry)"
proof -
  have "printable_time 0 1"
    by (simp add: printable_time_def fst_format_date year_of_days_def duration_defs)
  moreover have "utf8_valid ''j''" "utf8_valid ''core.drain''" "utf8_valid ''execute''"
    by (rule utf8_valid_ascii; simp)+
  ultimately show ?thesis
    by (simp add: appendable_def sample_entry_def zero_entry_def min_int64_def max_int64_def IsZero_def)
qed


text \<open>
  C14: two files that both pass verification, hold equally many entries and end in the same hash
  have recorded the same text in every entry; where they differ, two different texts with the same
  SHA-256 hash can be read off the files. So whoever knows the chain head detects any change to
  what was recorded.
\<close>
theorem tampering_needs_collision:
  assumes "VerifyLog sha (Some l) fs = None" and "VerifyLog sha (Some l) fs' = None"
    and "Iter (Some l) fs 0 = Inr es" and "Iter (Some l) fs' 0 = Inr es'"
    and "length es = length es'" and "chain_head [] es = chain_head [] es'"
    and "\<forall>x. length (sha x) = 32"
  shows "map hashed_text es = map hashed_text es' \<and> map en_Hash es = map en_Hash es' \<or>
    (\<exists>i < length es. preimage es i \<noteq> preimage es' i \<and> sha (preimage es i) = sha (preimage es' i))"
proof -
  have "chained sha [] es" "chained sha [] es'"
    using assms(1-4) by (auto elim!: VerifyLog_chained)
  from chained_collision [OF this assms(5,7,6)] show ?thesis by blast
qed


theorem tampering_needs_collision_witness:
  "\<exists>l fs es. VerifyLog sample_sha (Some l) fs = None \<and> Iter (Some l) fs 0 = Inr es \<and> length es = 1 \<and>
     (map hashed_text es = map hashed_text es \<and> map en_Hash es = map en_Hash es \<or>
      (\<exists>i < length es. preimage es i \<noteq> preimage es i \<and>
         sample_sha (preimage es i) = sample_sha (preimage es i)))"
proof -
  have ok: "log_ok sample_sha \<lparr>lg_path = ''a'', lg_open = True, lg_head = [], lg_seq = 0\<rparr> [''a'' \<mapsto> []] []"
    using log_ok_fresh [of sample_sha "''a''" Map.empty] by simp
  obtain l fs where l: "log_ok sample_sha l fs
      (recorded sample_sha \<lparr>lg_path = ''a'', lg_open = True, lg_head = [], lg_seq = 0\<rparr> [(1, 0, sample_entry)])"
    using append_all_ok [OF ok, of "[(1, 0, sample_entry)]"] sample_appendable by (auto simp: sample_sha_def)
  define es where "es = recorded sample_sha \<lparr>lg_path = ''a'', lg_open = True, lg_head = [], lg_seq = 0\<rparr>
    [(1, 0, sample_entry)]"
  have it: "VerifyLog sample_sha (Some l) fs = None" "Iter (Some l) fs 0 = Inr es"
    using log_ok_results(1) [OF l] log_ok_results(2) [OF l, of 0] by (simp_all add: es_def)
  have "length es = 1" by (simp add: es_def Let_def)
  with it tampering_needs_collision [OF it(1,1) it(2,2) refl refl]
  show ?thesis by (intro exI [of _ l] exI [of _ fs] exI [of _ es]) (simp add: sample_sha_def)
qed

lemma raw_lines_glued:
  assumes "lines_hold ls es" and "newline \<notin> set l"
  shows "raw_lines (file_of ls @ l @ [newline]) = ls @ [l]"
proof -
  have "raw_lines (file_of ls) = ls"
    using assms(1) list_all2_line_clean by (intro raw_lines_file) (auto simp: lines_hold_def)
  then show ?thesis
    using assms(2) raw_lines_append_line [of l "[]"] by (simp add: raw_lines_complete [OF complete_file])
qed

lemma scan_glued:
  assumes "lines_hold ls es" and "newline \<notin> set l" and "drop_cr l = l"
  shows "scan_lines (file_of ls @ l @ [newline]) =
    (if length l < max_token then \<lparr>tokens = ls @ [l], too_long = False\<rparr>
     else \<lparr>tokens = ls, too_long = True\<rparr>)"
proof -
  have clean: "map drop_cr ls = ls" and short: "\<forall>l \<in> set ls. length l < max_token"
    using assms(1) list_all2_line_clean by (auto simp: lines_hold_def intro: map_idI)
  have "takeWhile (\<lambda>l. length l < max_token) (ls @ [l]) = (if length l < max_token then ls @ [l] else ls)"
    using short by (simp add: takeWhile_append takeWhile_eq_all_conv)
  moreover have "list_ex (\<lambda>l. \<not> length l < max_token) (ls @ [l]) = (\<not> length l < max_token)"
    using short by (auto simp: list_ex_iff)
  ultimately show ?thesis
    using assms(3) clean unfolding scan_lines_def raw_lines_glued [OF assms(1,2)] Let_def by simp
qed

lemma Append_DiskOk:
  assumes "lg_open l" and "fs (lg_path l) = Some content" and "MarshalEntry tz (stamped sha now l e) = Some line"
  shows "Append sha DiskOk now tz (Some l) fs e =
    (Inr (en_Hash (stamped sha now l e)),
     Some (l\<lparr>lg_head := en_Hash (stamped sha now l e), lg_seq := en_Seq (stamped sha now l e)\<rparr>),
     fs(lg_path l \<mapsto> content @ line @ [newline]))"
  using assms by (simp add: Append_def Let_def write_disk_def)

lemma verify_lines_append:
  "map UnmarshalEntry ls = map Some es \<Longrightarrow> chained sha prev es \<Longrightarrow>
     verify_lines sha n prev (ls @ ks) = verify_lines sha (n + length es) (chain_head prev es) ks"
  by (induction ls arbitrary: es n prev) (auto simp: map_eq_Cons_conv chain_head_def)

lemma replay_lines_append:
  "map UnmarshalEntry ls = map Some es \<Longrightarrow>
     replay_lines (ls @ ks) o1 = replay_lines ks (if es = [] then o1 else Some (last es))"
  by (induction ls arbitrary: es o1) (auto simp: map_eq_Cons_conv)

lemma log_ok_parts:
  assumes "log_ok sha l fs es"
  obtains ls where "fs (lg_path l) = Some (file_of ls)" "lines_hold ls es" "lg_open l" "chained sha [] es"
    "lg_head l = chain_head [] es" "lg_seq l = length es" "es \<noteq> [] \<Longrightarrow> en_Seq (last es) = length es"
proof -
  have "en_Seq (last es) = length es" if "es \<noteq> []" "map en_Seq es = [1..<Suc (length es)]"
    using that by (cases es rule: rev_cases) simp_all
  with assms that show ?thesis by (auto simp: log_ok_def)
qed

lemma json_line_end:
  assumes "MarshalEntry tz e = Some line"
  shows "drop_cr (x @ line) = x @ line" and "newline \<notin> set line" and "hd line = CHR ''{''" and "line \<noteq> []"
proof -
  have l: "line = json_text (entry_json tz e)" using assms by (auto simp: MarshalEntry_def split: if_splits)
  have "\<forall>c \<in> set line. (32 :: nat) \<le> of_char c" unfolding l using json_text_clean [OF entry_json_wf] by blast
  then show "newline \<notin> set line" by (auto simp: newline_def)
  show ne: "line \<noteq> []" and "hd line = CHR ''{''" by (simp_all add: l entry_json_def)
  have "last line = CHR ''}''" by (simp add: l entry_json_def)
  with ne show "drop_cr (x @ line) = x @ line" by (simp add: drop_cr_def)
qed

text \<open>
  C37: an interrupted write is not repaired. The fragment it leaves is not removed when the log is
  opened, so the next entry is glued to it on one line: appending reports success, but from then
  on verification fails at that line, and the next start restores the head from before it, so the
  entry is forgotten.
\<close>
theorem partial_line_loses_entries:
  assumes "log_ok sha l fs es" and "fs (lg_path l) = Some content" and "newline \<notin> set frag"
    and "MarshalEntry tz (stamped sha now l e) = Some line"
    and "UnmarshalEntry (frag @ line) = None" and "length (frag @ line) < max_token"
    and "can_open (lg_path l)"
    and "Append sha DiskOk now tz (Some l) (fs(lg_path l \<mapsto> content @ frag)) e = (r, l', fs')"
  shows "r = Inr (en_Hash (stamped sha now l e)) \<and>
    VerifyLog sha l' fs' = Some (AuUnmarshal (Suc (length es))) \<and>
    OpenLog can_open fs' (lg_path l) = (Inr l, fs')"
proof -
  obtain ls where ls: "fs (lg_path l) = Some (file_of ls)" "lines_hold ls es" and log: "lg_open l"
    "chained sha [] es" "lg_head l = chain_head [] es" "lg_seq l = length es"
    "es \<noteq> [] \<Longrightarrow> en_Seq (last es) = length es"
    using assms(1) by (rule log_ok_parts) blast
  note all = lines_hold_entries [OF ls(2)] and line = json_line_end [OF assms(4)]
  have scan: "scan_lines (file_of ls @ frag @ line @ [newline]) = \<lparr>tokens = ls @ [frag @ line], too_long = False\<rparr>"
    using scan_glued [OF ls(2), of "frag @ line"] assms(3,6) line(1,2) by simp
  have out: "r = Inr (en_Hash (stamped sha now l e))" and l': "l' = Some (l\<lparr>lg_head := en_Hash (stamped sha now l e),
      lg_seq := en_Seq (stamped sha now l e)\<rparr>)"
    and fs': "fs' (lg_path l) = Some (file_of ls @ frag @ line @ [newline])"
    using assms(2,4,8) ls(1) log(1)
      Append_DiskOk [of l "fs(lg_path l \<mapsto> content @ frag)" "content @ frag" tz sha now e line] by auto
  have "VerifyLog sha l' fs' = Some (AuUnmarshal (Suc (length es)))"
    using fs' assms(5) verify_lines_append [OF all log(2)] by (simp add: VerifyLog_def l' scan)
  moreover have "OpenLog can_open fs' (lg_path l) = (Inr l, fs')"
    using fs' assms(5,7) log replay_lines_append [OF all]
    by (cases l) (auto simp: OpenLog_def replay_def scan chain_head_def)
  ultimately show ?thesis using out by simp
qed


lemma UnmarshalEntry_brace: "hd s = CHR ''{'' \<Longrightarrow> s \<noteq> [] \<Longrightarrow> UnmarshalEntry (CHR ''{'' # s) = None"
proof -
  assume s: "hd s = CHR ''{''" "s \<noteq> []"
  then obtain t where t: "s = CHR ''{'' # t" by (cases s) auto
  have "jmembers n d (CHR ''{'' # t) = None" for n d
    by (cases n) (simp_all add: skip_ws_id dquote_def)
  then show ?thesis by (simp add: UnmarshalEntry_def json_lit_def t skip_ws_id dquote_def)
qed

theorem partial_line_loses_entries_witness:
  "\<exists>l fs' h. Append sample_sha DiskOk 1 0 (Some \<lparr>lg_path = ''a'', lg_open = True, lg_head = [], lg_seq = 0\<rparr>)
      [''a'' \<mapsto> ''{''] sample_entry = (Inr h, l, fs') \<and>
    VerifyLog sample_sha l fs' = Some (AuUnmarshal 1) \<and>
    OpenLog (\<lambda>_. True) fs' ''a'' = (Inr \<lparr>lg_path = ''a'', lg_open = True, lg_head = [], lg_seq = 0\<rparr>, fs')"
proof -
  let ?l = "\<lparr>lg_path = ''a'', lg_open = True, lg_head = [], lg_seq = 0\<rparr>" and ?fs = "[''a'' \<mapsto> []]"
  let ?e = "stamped sample_sha 1 ?l sample_entry"
  have ok: "log_ok sample_sha ?l ?fs []" using log_ok_fresh [of sample_sha "''a''" Map.empty] by simp
  have fields: "printable_time 0 (en_Timestamp ?e)" "entry_ok ?e" "length (en_Hash ?e) = 64"
    using sample_appendable EncodeToString_utf8
    by (simp_all add: entry_ok_def appendable_def stamped_fields IsZero_def sample_entry_def zero_entry_def
        stamped_hash computeHashWithPrev_def sample_sha_def utf8_valid.simps [of "[]"])
  then obtain line where line: "MarshalEntry 0 ?e = Some line" "line = json_text (entry_json 0 ?e)"
    by (simp add: MarshalEntry_def)
  have len: "length (''{'' @ line) < max_token"
    using length_entry_text [OF fields(2,1)] fields(3)
    by (simp add: line(2) max_token_def stamped_fields sample_entry_def zero_entry_def)
  have bad: "UnmarshalEntry (''{'' @ line) = None"
    using UnmarshalEntry_brace [of line] json_line_end [OF line(1)] by simp
  obtain r l' fs' where app: "Append sample_sha DiskOk 1 0 (Some ?l) (?fs(lg_path ?l \<mapsto> [] @ ''{'')) sample_entry = (r, l', fs')"
    by (metis prod_cases3)
  show ?thesis
    using partial_line_loses_entries [OF ok _ _ line(1) bad len _ app, of "\<lambda>_. True"] app
    by (auto simp: newline_def)
qed

text \<open>
  An entry whose line reaches 64 KiB bricks the log. It is appended with success, but then
  verification fails and the log cannot be opened any more, because the reader's buffer is limited
  to lines that are shorter.
\<close>
lemma long_entry_blocks_reopening:
  assumes "log_ok sha l fs es" and "MarshalEntry tz (stamped sha now l e) = Some line"
    and "max_token \<le> length (en_JobID e)" and "can_open (lg_path l)"
    and "Append sha DiskOk now tz (Some l) fs e = (r, l', fs')"
  shows "r = Inr (en_Hash (stamped sha now l e)) \<and> VerifyLog sha l' fs' = Some AuScan \<and>
    OpenLog can_open fs' (lg_path l) = (Inl AuScan, fs')"
proof -
  obtain ls where ls: "fs (lg_path l) = Some (file_of ls)" "lines_hold ls es" and log: "lg_open l"
    "chained sha [] es"
    using assms(1) by (rule log_ok_parts) blast
  note all = lines_hold_entries [OF ls(2)] and line = json_line_end [OF assms(2)]
  have shape: "line = json_text (entry_json tz (stamped sha now l e))"
    using assms(2) by (auto simp: MarshalEntry_def split: if_splits)
  have "length (en_JobID e) \<le> length line"
    using length_json_escape [of "en_JobID e"]
    by (simp add: shape entry_json_def json_string_def stamped_fields)
  with assms(3) have scan: "scan_lines (file_of ls @ line @ [newline]) = \<lparr>tokens = ls, too_long = True\<rparr>"
    using scan_glued [OF ls(2) line(2)] line(1) [of "[]"] by simp
  have out: "r = Inr (en_Hash (stamped sha now l e))" and l': "l' = Some (l\<lparr>lg_head := en_Hash (stamped sha now l e),
      lg_seq := en_Seq (stamped sha now l e)\<rparr>)"
    and fs': "fs' (lg_path l) = Some (file_of ls @ line @ [newline])"
    using assms(2,5) ls(1) log(1) Append_DiskOk [of l fs "file_of ls" tz sha now e line] by auto
  have "VerifyLog sha l' fs' = Some AuScan"
    using fs' verify_lines_append [OF all log(2), of 0 "[]"] by (simp add: VerifyLog_def l' scan)
  moreover have "OpenLog can_open fs' (lg_path l) = (Inl AuScan, fs')"
    using fs' assms(4) replay_lines_all [OF all] by (simp add: OpenLog_def replay_def scan)
  ultimately show ?thesis using out by simp
qed


lemma long_entry_blocks_reopening_witness:
  "\<exists>l fs' h. Append sample_sha DiskOk 1 0 (Some \<lparr>lg_path = ''a'', lg_open = True, lg_head = [], lg_seq = 0\<rparr>)
      [''a'' \<mapsto> []] (sample_entry\<lparr>en_JobID := replicate max_token (CHR ''a'')\<rparr>) = (Inr h, l, fs') \<and>
    OpenLog (\<lambda>_. True) fs' ''a'' = (Inl AuScan, fs')"
proof -
  let ?l = "\<lparr>lg_path = ''a'', lg_open = True, lg_head = [], lg_seq = 0\<rparr>" and ?fs = "[''a'' \<mapsto> []]"
  let ?e = "sample_entry\<lparr>en_JobID := replicate max_token (CHR ''a'')\<rparr>"
  have ok: "log_ok sample_sha ?l ?fs []" using log_ok_fresh [of sample_sha "''a''" Map.empty] by simp
  have "printable_time 0 (en_Timestamp (stamped sample_sha 1 ?l ?e))"
    using sample_appendable by (simp add: stamped_fields appendable_def sample_entry_def zero_entry_def IsZero_def)
  then obtain line where line: "MarshalEntry 0 (stamped sample_sha 1 ?l ?e) = Some line"
    by (simp add: MarshalEntry_def)
  obtain r l' fs' where app: "Append sample_sha DiskOk 1 0 (Some ?l) ?fs ?e = (r, l', fs')"
    by (metis prod_cases3)
  show ?thesis
    using long_entry_blocks_reopening [OF ok line _ _ app, of "\<lambda>_. True"] app by auto
qed


end
