(* ===== verification/Tables.thy ===== *)
theory Tables
  imports Go_Prelude
begin

text \<open>
  The contract the agents' registration tables share: a table starts empty, adding under a fresh
  name succeeds (a rejected addition is a panic, \<^const>\<open>None\<close>), and a lookup after an addition finds
  what was added and everything else unchanged. The command router and the capability registry
  are two instances.
\<close>

locale name_table =
  fixes empty_table :: 't
    and add :: "'v \<Rightarrow> 't \<Rightarrow> 't option"
    and name_of :: "'v \<Rightarrow> string"
    and find_name :: "'t \<Rightarrow> string \<Rightarrow> 'v option"
  assumes find_empty: "find_name empty_table k = None"
    and add_fresh: "find_name t (name_of v) = None \<Longrightarrow> add v t \<noteq> None"
    and find_add: "add v t = Some t' \<Longrightarrow> find_name t' = (find_name t)(name_of v \<mapsto> v)"
begin

fun add_all :: "'v list \<Rightarrow> 't \<Rightarrow> 't option" where
  "add_all [] t = Some t"
| "add_all (v # vs) t = Option.bind (add v t) (add_all vs)"

lemma add_all_find:
  "add_all vs t = Some t' \<Longrightarrow> find_name t' = find_name t ++ map_of (rev (map (\<lambda>v. (name_of v, v)) vs))"
proof (induction vs arbitrary: t)
  case (Cons v vs)
  then obtain u where u: "add v t = Some u" "add_all vs u = Some t'"
    by (auto simp: bind_eq_Some_conv)
  with Cons.IH [OF u(2)] find_add [OF u(1)] show ?case by (simp add: map_add_def fun_eq_iff split: option.split)
qed simp

lemma add_all_distinct:
  assumes "distinct (map name_of vs)" and "\<forall>v \<in> set vs. find_name t (name_of v) = None"
  shows "\<exists>t'. add_all vs t = Some t'"
  using assms
proof (induction vs arbitrary: t)
  case (Cons v vs)
  then obtain u where u: "add v t = Some u" using add_fresh by fastforce
  have "\<exists>t'. add_all vs u = Some t'"
    using Cons.prems find_add [OF u] by (intro Cons.IH) (auto simp: rev_image_eqI)
  with u show ?case by simp
qed simp

lemma add_all_empty:
  assumes "distinct (map name_of vs)"
  obtains t where "add_all vs empty_table = Some t"
    and "\<And>k. find_name t k = map_of (map (\<lambda>v. (name_of v, v)) vs) k"
proof -
  obtain t where t: "add_all vs empty_table = Some t"
    using add_all_distinct [OF assms] find_empty by blast
  have "distinct (map fst (map (\<lambda>v. (name_of v, v)) vs))" using assms by (simp add: o_def)
  then have "map_of (rev (map (\<lambda>v. (name_of v, v)) vs)) = map_of (map (\<lambda>v. (name_of v, v)) vs)"
    by (rule map_of_rev_distinct)
  with add_all_find [OF t] t show ?thesis
    by (intro that) (auto simp: map_add_def find_empty split: option.split)
qed

end

end
