(* ===== verification/Capability_Registry.thy ===== *)
theory Capability_Registry
  imports Tables "HOL-Library.Multiset"
begin

text \<open>
  The registry of commands of \<open>src/shared/capability/capability.go\<close>. The order in which Go iterates
  over the map is an argument of \<open>List\<close>; a panic is \<^const>\<open>None\<close>. The package-level \<open>Global\<close>, \<open>Declare\<close>
  and \<open>List\<close> are these operations on one registry.
\<close>

record Capability =
  cap_Command :: string
  cap_Version :: int
  cap_Stability :: string
  cap_AgentClass :: string

type_synonym registry = "string \<rightharpoonup> Capability"

definition NewRegistry :: registry where
  "NewRegistry = Map.empty"

definition DeclareCap :: "Capability \<Rightarrow> registry \<Rightarrow> registry option" where
  "DeclareCap c r =
     (case r (cap_Command c) of
        None \<Rightarrow> Some (r(cap_Command c \<mapsto> c))
      | Some existing \<Rightarrow>
          if cap_AgentClass existing \<noteq> cap_AgentClass c then None
          else Some (r(cap_Command c \<mapsto> c)))"

definition ListCaps :: "registry \<Rightarrow> string list \<Rightarrow> Capability list" where
  "ListCaps r iteration = sort_key cap_Command (map (\<lambda>k. the (r k)) iteration)"

definition HasCap :: "registry \<Rightarrow> string \<Rightarrow> bool" where
  "HasCap r command = (r command \<noteq> None)"

definition HasFrom :: "registry \<Rightarrow> string \<Rightarrow> string \<Rightarrow> bool" where
  "HasFrom r agentClass command =
     (case r command of None \<Rightarrow> False | Some c \<Rightarrow> cap_AgentClass c = agentClass)"

text \<open>Registries built by declarations that did not panic.\<close>

inductive declared :: "registry \<Rightarrow> bool" where
  declared_new: "declared NewRegistry"
| declared_add: "declared r \<Longrightarrow> DeclareCap c r = Some r' \<Longrightarrow> declared r'"

lemma DeclareCap_update: "DeclareCap c r = Some r' \<Longrightarrow> r' = r(cap_Command c \<mapsto> c)"
  by (auto simp: DeclareCap_def split: option.splits if_splits)

lemma declared_keys: "declared r \<Longrightarrow> r k = Some c \<Longrightarrow> cap_Command c = k"
  by (induction arbitrary: k c rule: declared.induct)
    (auto simp: NewRegistry_def dest!: DeclareCap_update split: if_splits)

interpretation caps: name_table NewRegistry DeclareCap cap_Command "\<lambda>r k. r k"
  by unfold_locales
    (auto simp: NewRegistry_def DeclareCap_def dest: DeclareCap_update split: option.splits if_splits)

text \<open>Any order Go may iterate in: every key once.\<close>

definition iteration_of :: "registry \<Rightarrow> string list \<Rightarrow> bool" where
  "iteration_of r ks \<longleftrightarrow> distinct ks \<and> set ks = dom r"

lemma map_keys:
  assumes "declared r" "set ks \<subseteq> dom r"
  shows "map cap_Command (map (\<lambda>k. the (r k)) ks) = ks"
  using assms(2)
proof (induction ks)
  case (Cons k ks)
  then obtain c where "r k = Some c" by auto
  with declared_keys [OF assms(1)] Cons show ?case by simp
qed simp

lemma ListCaps_facts:
  assumes "declared r" "iteration_of r ks"
  shows "sorted (map cap_Command (ListCaps r ks))" "distinct (map cap_Command (ListCaps r ks))"
    and "set (ListCaps r ks) = ran r"
proof -
  have keys: "map cap_Command (map (\<lambda>k. the (r k)) ks) = ks"
    using map_keys [OF assms(1)] assms(2) by (simp add: iteration_of_def)
  show "sorted (map cap_Command (ListCaps r ks))" by (simp add: ListCaps_def)
  have "mset (map cap_Command (ListCaps r ks)) = mset ks"
    using arg_cong [OF keys, of mset] by (simp add: ListCaps_def image_mset.compositionality o_def)
  with assms(2) show "distinct (map cap_Command (ListCaps r ks))"
    by (metis iteration_of_def mset_eq_imp_distinct_iff)
  show "set (ListCaps r ks) = ran r"
    using assms(2) by (force simp: ListCaps_def iteration_of_def ran_def dom_def image_iff)
qed

subsection \<open>Properties\<close>

text \<open>
  The list of capabilities does not depend on Go's random map iteration order: it is the
  strictly sorted list of exactly the declared capabilities, one per command.
\<close>
lemma capability_list_deterministic:
  assumes "declared r" and "iteration_of r ks" and "iteration_of r ks'"
  shows "ListCaps r ks = ListCaps r ks' \<and> sorted (map cap_Command (ListCaps r ks)) \<and>
    distinct (map cap_Command (ListCaps r ks)) \<and> set (ListCaps r ks) = ran r"
proof -
  note f = ListCaps_facts [OF assms(1,2)] and f' = ListCaps_facts [OF assms(1,3)]
  have "inj_on cap_Command (ran r)"
    using declared_keys [OF assms(1)] by (force simp: inj_on_def ran_def)
  then have "ListCaps r ks = ListCaps r ks'"
    using f f' map_sorted_distinct_set_unique [of cap_Command "ListCaps r ks" "ListCaps r ks'"] by simp
  with f show ?thesis by simp
qed

definition sample_cap :: "string \<Rightarrow> Capability" where
  "sample_cap k = \<lparr>cap_Command = k, cap_Version = 1, cap_Stability = ''stable'', cap_AgentClass = ''pmx-core''\<rparr>"

definition sample_registry :: registry where
  "sample_registry = (NewRegistry(''b'' \<mapsto> sample_cap ''b''))(''a'' \<mapsto> sample_cap ''a'')"

lemma capability_list_deterministic_witness:
  "ListCaps sample_registry [''b'', ''a''] = ListCaps sample_registry [''a'', ''b'']"
proof -
  have c: "cap_Command (sample_cap k) = k" for k by (simp add: sample_cap_def)
  have "DeclareCap (sample_cap ''b'') NewRegistry = Some (NewRegistry(''b'' \<mapsto> sample_cap ''b''))"
    by (simp add: DeclareCap_def NewRegistry_def c)
  then have "declared (NewRegistry(''b'' \<mapsto> sample_cap ''b''))"
    by (rule declared_add [OF declared_new])
  moreover have "DeclareCap (sample_cap ''a'') (NewRegistry(''b'' \<mapsto> sample_cap ''b'')) = Some sample_registry"
    by (simp add: DeclareCap_def NewRegistry_def c sample_registry_def)
  ultimately have "declared sample_registry" by (rule declared_add)
  moreover have "iteration_of sample_registry [''b'', ''a'']" "iteration_of sample_registry [''a'', ''b'']"
    by (auto simp: iteration_of_def sample_registry_def NewRegistry_def)
  ultimately show ?thesis using capability_list_deterministic by blast
qed

end
