(* ===== verification/Go_Values.thy ===== *)
theory Go_Values
  imports Go_Decode
begin

text \<open>
  Dynamically typed values. \<open>any\<close> is what the envelope decoder stores in a \<open>map[string]interface{}\<close>
  (CBOR unsigned integers arrive as \<open>uint64\<close>, negative ones as \<open>int64\<close>). A later duplicate key of a
  JSON object overrides an earlier one.
\<close>

datatype any =
    ANil
  | ABool bool
  | AInt int
  | AUint int
  | AFloat float64
  | AStr string
  | ABytes bytes
  | AArr "any list"
  | AMap "(string \<times> any) list"

type_synonym params = "string \<rightharpoonup> any"

definition obj_get :: "(string \<times> json) list \<Rightarrow> string \<Rightarrow> json option" where
  "obj_get kvs k = map_of (rev kvs) k"

text \<open>The type assertion \<open>v, _ := params[key].(string)\<close>: the zero value on a miss.\<close>

definition str_param :: "params \<Rightarrow> string \<Rightarrow> string" where
  "str_param ps k = (case ps k of Some (AStr s) \<Rightarrow> s | _ \<Rightarrow> [])"

end
