(* ===== verification/Host_World.thy ===== *)
theory Host_World
  imports Go_Values
begin

text \<open>
  What the agents do to their host: a list of the commands they have executed, oldest first, and the
  files they keep. How a command ends is up to the host: \<open>host n argv\<close> is the output of the \<open>n\<close>-th
  command and whether it failed, so the answer to the same command may change over time.
\<close>

record world =
  w_calls :: "string list list"
  w_files :: "string \<rightharpoonup> bytes"

type_synonym host = "nat \<Rightarrow> string list \<Rightarrow> bytes \<times> bool"

definition run_cmd :: "host \<Rightarrow> world \<Rightarrow> string list \<Rightarrow> (bytes \<times> bool) \<times> world" where
  "run_cmd host w argv = (host (length (w_calls w)) argv, w\<lparr>w_calls := w_calls w @ [argv]\<rparr>)"

lemma run_cmd_calls [simp]: "w_calls (snd (run_cmd host w argv)) = w_calls w @ [argv]"
  and run_cmd_files [simp]: "w_files (snd (run_cmd host w argv)) = w_files w"
  by (simp_all add: run_cmd_def)

text \<open>\<open>json.Marshal\<close> of a \<open>map[string]string\<close>: the keys come out sorted.\<close>

definition marshal_strings :: "(string \<times> string) list \<Rightarrow> bytes" where
  "marshal_strings kvs = json_text (JObj (map (\<lambda>(k, v). (k, JStr v)) (sort_key fst kvs)))"

end
