(* ===== verification/Key_Set.thy ===== *)
theory Key_Set
  imports Go_Time
begin

text \<open>
  The set of Ed25519 public keys of \<open>src/shared/envelope/keyset.go\<close>: its file format, signature
  verification against the keys that have not expired, and the atomic replacement of the set.
  \<open>ed25519.Verify\<close> is the parameter \<open>ed_verify\<close>; files are a function from paths to contents. An
  operation that reads the clock once per key takes its readings as a function of the key's index.
\<close>

record keyEntry =
  ke_pub :: bytes
  ke_notAfter :: instant

type_synonym KeySet = "keyEntry list"
type_synonym ed25519 = "bytes \<Rightarrow> bytes \<Rightarrow> bytes \<Rightarrow> bool"

datatype keyset_error =
    KsOpen string
  | KsFields nat nat
  | KsHex nat
  | KsKeySize nat nat
  | KsNotAfter nat string
  | KsScan
  | KsNoKeys
  | KsNilSet
  | KsNoActive

definition PublicKeySize :: nat where "PublicKeySize = 32"

definition isActive :: "keyEntry \<Rightarrow> instant \<Rightarrow> bool" where
  "isActive k now = (if IsZero (ke_notAfter k) then True else Before now (ke_notAfter k))"

text \<open>One line of the file: \<^const>\<open>None\<close> for a blank or comment line.\<close>

definition strip_comment :: "string \<Rightarrow> string" where
  "strip_comment ln =
     (let raw = TrimSpace ln
      in case Index raw ''#'' of None \<Rightarrow> raw | Some idx \<Rightarrow> TrimSpace (take idx raw))"

definition keyset_line :: "nat \<Rightarrow> string \<Rightarrow> keyset_error + keyEntry option" where
  "keyset_line line ln =
     (let raw = strip_comment ln in
      if raw = [] then Inr None
      else let parts = Fields raw in
        if length parts < 1 \<or> length parts > 2 then Inl (KsFields line (length parts))
        else case DecodeString (parts ! 0) of
            None \<Rightarrow> Inl (KsHex line)
          | Some pubBytes \<Rightarrow>
              if length pubBytes \<noteq> PublicKeySize then Inl (KsKeySize line (length pubBytes))
              else if length parts = 2
              then (case parse_RFC3339 (parts ! 1) of
                      None \<Rightarrow> Inl (KsNotAfter line (parts ! 1))
                    | Some t \<Rightarrow> Inr (Some \<lparr>ke_pub = pubBytes, ke_notAfter = t\<rparr>))
              else Inr (Some \<lparr>ke_pub = pubBytes, ke_notAfter = 0\<rparr>))"

fun keyset_lines :: "nat \<Rightarrow> string list \<Rightarrow> KeySet \<Rightarrow> keyset_error + KeySet" where
  "keyset_lines line [] entries = Inr entries"
| "keyset_lines line (ln # lns) entries =
     (case keyset_line line ln of
        Inl e \<Rightarrow> Inl e
      | Inr None \<Rightarrow> keyset_lines (Suc line) lns entries
      | Inr (Some entry) \<Rightarrow> keyset_lines (Suc line) lns (entries @ [entry]))"

definition LoadKeySet :: "(string \<Rightarrow> bytes option) \<Rightarrow> string \<Rightarrow> keyset_error + KeySet" where
  "LoadKeySet fs path =
     (case fs path of
        None \<Rightarrow> Inl (KsOpen path)
      | Some content \<Rightarrow>
          (let sc = scan_lines content in
           bind_result (keyset_lines 1 (tokens sc) []) (\<lambda>entries.
             if too_long sc then Inl KsScan
             else if entries = [] then Inl KsNoKeys
             else Inr entries)))"

definition ParseKeySet :: "string \<Rightarrow> keyset_error + KeySet" where
  "ParseKeySet content =
     bind_result (keyset_lines 1 (tokens (scan_lines content)) []) (\<lambda>entries.
       if entries = [] then Inl KsNoKeys else Inr entries)"

fun verify_from :: "ed25519 \<Rightarrow> (nat \<Rightarrow> instant) \<Rightarrow> nat \<Rightarrow> KeySet \<Rightarrow> bytes \<Rightarrow> bytes \<Rightarrow> bool" where
  "verify_from ed_verify nows i [] message signature = False"
| "verify_from ed_verify nows i (entry # entries) message signature =
     (if \<not> isActive entry (nows i) then verify_from ed_verify nows (Suc i) entries message signature
      else if ed_verify (ke_pub entry) message signature then True
      else verify_from ed_verify nows (Suc i) entries message signature)"

definition VerifyKeySet :: "ed25519 \<Rightarrow> (nat \<Rightarrow> instant) \<Rightarrow> KeySet \<Rightarrow> bytes \<Rightarrow> bytes \<Rightarrow> bool" where
  "VerifyKeySet ed_verify nows k message signature =
     verify_from ed_verify nows 0 k message signature"

fun active_from :: "(nat \<Rightarrow> instant) \<Rightarrow> nat \<Rightarrow> KeySet \<Rightarrow> KeySet" where
  "active_from nows i [] = []"
| "active_from nows i (e # es) =
     (if isActive e (nows i) then e # active_from nows (Suc i) es else active_from nows (Suc i) es)"

text \<open>\<open>Update\<close> replaces the receiver's entries; on an error the receiver keeps its own.\<close>

definition UpdateKeySet :: "KeySet option \<Rightarrow> (nat \<Rightarrow> instant) \<Rightarrow> keyset_error + KeySet" where
  "UpdateKeySet newSet nows =
     (case newSet of
        None \<Rightarrow> Inl KsNilSet
      | Some ks \<Rightarrow>
          (let active = active_from nows 0 ks
           in if active = [] then Inl KsNoActive else Inr active))"

definition LenKeySet :: "KeySet \<Rightarrow> nat" where
  "LenKeySet k = length k"

subsection \<open>Facts about the file format\<close>

definition keyset_ok :: "KeySet \<Rightarrow> bool" where
  "keyset_ok ks \<longleftrightarrow> (\<forall>e \<in> set ks. length (ke_pub e) = PublicKeySize)"

lemma keyset_line_ok:
  "keyset_line n ln = Inr (Some e) \<Longrightarrow> length (ke_pub e) = PublicKeySize"
  by (auto simp: keyset_line_def Let_def split: if_splits option.splits)

lemma keyset_step:
  assumes "keyset_lines n (ln # lns) es = Inr ks"
  obtains "keyset_line n ln = Inr None" "keyset_lines (Suc n) lns es = Inr ks"
  | e where "keyset_line n ln = Inr (Some e)" "keyset_lines (Suc n) lns (es @ [e]) = Inr ks"
proof (cases "keyset_line n ln")
  case (Inr r)
  with assms that show ?thesis by (cases r) simp_all
qed (use assms in simp)

lemma keyset_lines_ok:
  "keyset_lines n lns es = Inr ks \<Longrightarrow> keyset_ok es \<Longrightarrow> keyset_ok ks"
proof (induction lns arbitrary: n es)
  case (Cons ln lns)
  from Cons.prems show ?case
  proof (cases rule: keyset_step)
    case (2 e)
    with Cons.prems(2) have "keyset_ok (es @ [e])"
      by (auto simp: keyset_ok_def dest: keyset_line_ok)
    with 2 show ?thesis by (blast intro: Cons.IH)
  qed (use Cons.IH Cons.prems(2) in blast)
qed simp

lemma keyset_lines_length:
  "keyset_lines n lns es = Inr ks \<Longrightarrow> length es \<le> length ks \<and> length ks \<le> length es + length lns"
proof (induction lns arbitrary: n es)
  case (Cons ln lns)
  from Cons.prems show ?case
    by (cases rule: keyset_step) (auto dest: Cons.IH)
qed simp

lemma keyset_lines_append:
  "keyset_lines n (xs @ ys) es =
     bind_result (keyset_lines n xs es) (keyset_lines (n + length xs) ys)"
  by (induction n xs es rule: keyset_lines.induct) (auto split: sum.split option.split)

text \<open>The file a backend writes for keys without an expiry: one hexadecimal key per line.\<close>

definition key_file :: "bytes list \<Rightarrow> string" where
  "key_file pubs = concat (map (\<lambda>p. EncodeToString p @ [newline]) pubs)"

lemma strip_comment_hex: "strip_comment (EncodeToString p) = EncodeToString p"
  using EncodeToString_plain [of p]
  by (simp add: strip_comment_def TrimSpace_plain Index_char_None)

lemma keyset_line_hex:
  assumes "length p = PublicKeySize"
  shows "keyset_line n (EncodeToString p) = Inr (Some \<lparr>ke_pub = p, ke_notAfter = 0\<rparr>)"
proof -
  have "EncodeToString p \<noteq> []" using assms by (cases p) (simp_all add: PublicKeySize_def)
  then show ?thesis
    using EncodeToString_plain [of p] assms
    by (simp add: keyset_line_def strip_comment_hex Fields_plain)
qed

lemma keyset_lines_hex:
  assumes "\<forall>p \<in> set pubs. length p = PublicKeySize"
  shows "keyset_lines n (map EncodeToString pubs) es =
    Inr (es @ map (\<lambda>p. \<lparr>ke_pub = p, ke_notAfter = 0\<rparr>) pubs)"
  using assms by (induction pubs arbitrary: n es) (auto simp: keyset_line_hex)

lemma raw_lines_key_file: "raw_lines (key_file pubs) = map EncodeToString pubs"
proof (induction pubs)
  case (Cons p pubs)
  have "newline \<notin> set (EncodeToString p)"
    using EncodeToString_plain [of p] plain_no_newline by blast
  with Cons show ?case by (simp add: key_file_def raw_lines_append_line)
qed (simp add: key_file_def)

lemma drop_cr_hex: "drop_cr (EncodeToString p) = EncodeToString p"
proof -
  have "CHR 0x0D \<notin> set (EncodeToString p)"
    using EncodeToString_plain [of p] plain_no_newline by blast
  then have "EncodeToString p = [] \<or> last (EncodeToString p) \<noteq> CHR 0x0D"
    using last_in_set by metis
  then show ?thesis by (auto simp: drop_cr_def)
qed

lemma scan_key_file:
  assumes "\<forall>p \<in> set pubs. length p = PublicKeySize"
  shows "scan_lines (key_file pubs) = \<lparr>tokens = map EncodeToString pubs, too_long = False\<rparr>"
proof -
  have short: "\<forall>l \<in> set (map EncodeToString pubs). length l < max_token"
    using assms by (auto simp: max_token_def PublicKeySize_def)
  then have "takeWhile (\<lambda>l. length l < max_token) (map EncodeToString pubs) = map EncodeToString pubs"
    by (simp add: takeWhile_all_iff)
  moreover have "\<not> list_ex (\<lambda>l. \<not> length l < max_token) (map EncodeToString pubs)"
    using short by (auto simp: list_ex_iff)
  moreover have "map drop_cr (map EncodeToString pubs) = map EncodeToString pubs"
    by (simp add: drop_cr_hex)
  ultimately show ?thesis
    by (simp only: scan_lines_def raw_lines_key_file Let_def)
qed

subsection \<open>Facts about verification and replacement\<close>

lemma verify_from_iff:
  "verify_from ed nows i es m s \<longleftrightarrow>
     (\<exists>k < length es. isActive (es ! k) (nows (i + k)) \<and> ed (ke_pub (es ! k)) m s)"
proof (induction es arbitrary: i)
  case (Cons e es)
  show ?case
    by (auto simp: Cons less_Suc_eq_0_disj)
qed simp

lemma active_from_nth:
  "e \<in> set (active_from nows i es) \<longleftrightarrow> (\<exists>k < length es. es ! k = e \<and> isActive e (nows (i + k)))"
proof (induction es arbitrary: i)
  case (Cons x es)
  show ?case by (auto simp: Cons less_Suc_eq_0_disj)
qed simp

lemma active_from_const: "active_from (\<lambda>_. now) i es = filter (\<lambda>e. isActive e now) es"
  by (induction es arbitrary: i) auto

lemma isActive_mono: "isActive e now \<Longrightarrow> t \<le> now \<Longrightarrow> isActive e t"
  by (auto simp: isActive_def go_time split: if_splits)

lemma ParseKeySet_ok: "ParseKeySet content = Inr ks \<Longrightarrow> ks \<noteq> [] \<and> keyset_ok ks"
  by (auto simp: ParseKeySet_def go_result keyset_ok_def [of "[]"] dest: keyset_lines_ok)

lemma LoadKeySet_Inr:
  "LoadKeySet fs path = Inr ks \<longleftrightarrow>
     (\<exists>content. fs path = Some content \<and> \<not> too_long (scan_lines content) \<and> ParseKeySet content = Inr ks)"
  by (auto simp: LoadKeySet_def ParseKeySet_def Let_def go_result split: option.splits)

lemma VerifyKeySet_iff:
  "VerifyKeySet ed nows ks m s \<longleftrightarrow>
     (\<exists>i < length ks. isActive (ks ! i) (nows i) \<and> ed (ke_pub (ks ! i)) m s)"
  by (simp add: VerifyKeySet_def verify_from_iff)

lemma VerifyKeySet_const:
  "VerifyKeySet ed (\<lambda>_. now) ks m s \<longleftrightarrow> (\<exists>e \<in> set ks. isActive e now \<and> ed (ke_pub e) m s)"
  unfolding VerifyKeySet_iff by (metis in_set_conv_nth)

lemma scan_key_file_long:
  assumes "\<forall>p \<in> set pubs. length p = PublicKeySize" and "max_token \<le> length l" and "newline \<notin> set l"
  shows "scan_lines (key_file pubs @ l @ newline # rest) =
    \<lparr>tokens = map EncodeToString pubs, too_long = True\<rparr>"
proof -
  have "complete_text (key_file pubs)"
    by (cases pubs rule: rev_cases) (simp_all add: key_file_def complete_text_def)
  then have raw: "raw_lines (key_file pubs @ l @ newline # rest) =
      map EncodeToString pubs @ l # raw_lines rest"
    by (simp add: raw_lines_complete raw_lines_key_file raw_lines_append_line assms(3))
  have short: "\<forall>k \<in> set (map EncodeToString pubs). length k < max_token"
    using assms(1) by (auto simp: max_token_def PublicKeySize_def)
  have "takeWhile (\<lambda>k. length k < max_token) (map EncodeToString pubs @ l # raw_lines rest) =
      map EncodeToString pubs"
    using takeWhile_append2 [of "map EncodeToString pubs" "\<lambda>k. length k < max_token"] short assms(2)
    by (auto simp del: length_EncodeToString)
  then show ?thesis
    using assms(2) by (simp add: scan_lines_def raw drop_cr_hex)
qed

lemma UpdateKeySet_Inr:
  "UpdateKeySet new nows = Inr es \<longleftrightarrow>
     (\<exists>ks. new = Some ks \<and> es = active_from nows 0 ks \<and> es \<noteq> [])"
  by (auto simp: UpdateKeySet_def Let_def split: option.splits)

subsection \<open>Properties\<close>

text \<open>
  C30: whatever bytes a key file or a rotation payload holds, a key set that is accepted is not empty
  and every key in it has exactly 32 bytes, so \<open>ed25519.Verify\<close>, which panics on any other length,
  is never called with a key of another length.
\<close>
theorem accepted_keyset_well_formed:
  assumes "ParseKeySet content = Inr ks \<or> LoadKeySet fs path = Inr ks"
  shows "0 < LenKeySet ks \<and> (\<forall>e \<in> set ks. length (ke_pub e) = PublicKeySize)"
proof -
  have "\<exists>content. ParseKeySet content = Inr ks" using assms by (auto simp: LoadKeySet_Inr)
  then show ?thesis using ParseKeySet_ok by (auto simp: LenKeySet_def keyset_ok_def)
qed

theorem accepted_keyset_well_formed_witness:
  "\<exists>ks. ParseKeySet (key_file [replicate 32 CHR ''k'']) = Inr ks \<and> LenKeySet ks > 0 \<and>
     (\<forall>e \<in> set ks. length (ke_pub e) = PublicKeySize)"
proof -
  let ?p = "replicate 32 CHR ''k''"
  have ok: "\<forall>p \<in> set [?p]. length p = PublicKeySize" by (simp add: PublicKeySize_def)
  have "ParseKeySet (key_file [?p]) = Inr [\<lparr>ke_pub = ?p, ke_notAfter = 0\<rparr>]"
    unfolding ParseKeySet_def scan_key_file [OF ok] scan_result.simps keyset_lines_hex [OF ok]
    by simp
  then show ?thesis
    using accepted_keyset_well_formed [of "key_file [?p]" "[\<lparr>ke_pub = ?p, ke_notAfter = 0\<rparr>]"] by blast
qed

text \<open>
  A file with one hexadecimal 32-byte key per line is read back as exactly those keys, in order,
  none with an expiry, both from disk and from a rotation payload.
\<close>
lemma key_file_roundtrip:
  assumes "\<forall>p \<in> set pubs. length p = PublicKeySize" and "pubs \<noteq> []"
    and "fs path = Some (key_file pubs)"
  shows "LoadKeySet fs path = Inr (map (\<lambda>p. \<lparr>ke_pub = p, ke_notAfter = 0\<rparr>) pubs) \<and>
    ParseKeySet (key_file pubs) = Inr (map (\<lambda>p. \<lparr>ke_pub = p, ke_notAfter = 0\<rparr>) pubs)"
  using assms
  by (simp add: LoadKeySet_def ParseKeySet_def scan_key_file keyset_lines_hex)

lemma key_file_roundtrip_witness:
  "LoadKeySet [''/etc/pmx/keys.pub'' \<mapsto> key_file [replicate 32 CHR ''k'', replicate 32 CHR ''m'']]
     ''/etc/pmx/keys.pub'' =
   Inr [\<lparr>ke_pub = replicate 32 CHR ''k'', ke_notAfter = 0\<rparr>,
        \<lparr>ke_pub = replicate 32 CHR ''m'', ke_notAfter = 0\<rparr>]"
  using key_file_roundtrip
    [of "[replicate 32 CHR ''k'', replicate 32 CHR ''m'']"
        "[''/etc/pmx/keys.pub'' \<mapsto> key_file [replicate 32 CHR ''k'', replicate 32 CHR ''m'']]"
        "''/etc/pmx/keys.pub''"]
  by (simp add: PublicKeySize_def)

text \<open>
  Loading a file and parsing its text agree except on one point: a line of 64 KiB or more makes
  the loader fail, while the parser, which never looks at the scanner's error, silently ignores
  that line and everything after it.
\<close>
lemma load_is_parse_without_long_lines:
  "LoadKeySet fs path = Inr ks \<longleftrightarrow>
     (\<exists>content. fs path = Some content \<and> ParseKeySet content = Inr ks \<and>
        (\<forall>l \<in> set (raw_lines content). length l < max_token))"
  by (auto simp: LoadKeySet_Inr scan_lines_def Let_def list_ex_iff)

lemma load_is_parse_without_long_lines_witness:
  "\<exists>ks. LoadKeySet [''k'' \<mapsto> key_file [replicate 32 CHR ''k'']] ''k'' = Inr ks \<and> LenKeySet ks = 1"
proof -
  let ?p = "replicate 32 CHR ''k''"
  have ok: "\<forall>p \<in> set [?p]. length p = PublicKeySize" by (simp add: PublicKeySize_def)
  have "ParseKeySet (key_file [?p]) = Inr [\<lparr>ke_pub = ?p, ke_notAfter = 0\<rparr>]"
    unfolding ParseKeySet_def scan_key_file [OF ok] scan_result.simps keyset_lines_hex [OF ok]
    by simp
  moreover have "\<forall>l \<in> set (raw_lines (key_file [?p])). length l < max_token"
    by (simp add: raw_lines_key_file max_token_def)
  ultimately have "LoadKeySet [''k'' \<mapsto> key_file [?p]] ''k'' = Inr [\<lparr>ke_pub = ?p, ke_notAfter = 0\<rparr>]"
    using load_is_parse_without_long_lines [of "[''k'' \<mapsto> key_file [?p]]" "''k''"] by simp
  then show ?thesis by (simp add: LenKeySet_def)
qed

text \<open>
  A rotation payload whose keys are followed by an over-long line is accepted with the keys
  before that line only, and the very same text is refused when it is read back as a file.
\<close>
lemma parser_ignores_text_after_long_line:
  assumes "\<forall>p \<in> set pubs. length p = PublicKeySize" and "pubs \<noteq> []"
    and "max_token \<le> length l" and "newline \<notin> set l"
    and "fs path = Some (key_file pubs @ l @ newline # rest)"
  shows "ParseKeySet (key_file pubs @ l @ newline # rest) =
      Inr (map (\<lambda>p. \<lparr>ke_pub = p, ke_notAfter = 0\<rparr>) pubs) \<and>
    LoadKeySet fs path = Inl KsScan"
  using assms
  by (simp add: ParseKeySet_def LoadKeySet_def scan_key_file_long keyset_lines_hex)

lemma parser_ignores_text_after_long_line_witness:
  "LoadKeySet [''k'' \<mapsto> key_file [replicate 32 CHR ''k''] @ replicate max_token CHR ''#'' @ newline # []]
     ''k'' = Inl KsScan"
  using parser_ignores_text_after_long_line
    [of "[replicate 32 CHR ''k'']" "replicate max_token CHR ''#''"
        "[''k'' \<mapsto> key_file [replicate 32 CHR ''k''] @ replicate max_token CHR ''#'' @ newline # []]"
        "''k''" "[]"]
  by (auto simp: PublicKeySize_def newline_def)

text \<open>
  Verification succeeds iff some key that has not expired at the moment it is tried verifies
  the message, and a key with an expiry counts only strictly before it.
\<close>
lemma VerifyKeySet_correct:
  "VerifyKeySet ed_verify nows ks m s \<longleftrightarrow>
     (\<exists>i < length ks. ed_verify (ke_pub (ks ! i)) m s \<and>
        (ke_notAfter (ks ! i) = 0 \<or> nows i < ke_notAfter (ks ! i)))"
  by (auto simp: VerifyKeySet_iff isActive_def go_time)

text \<open>
  A successful \<open>Update\<close> installs exactly the keys that were active when it looked at them, never
  an empty set, and forgetting the expired ones is unobservable: from then on the new set verifies
  exactly the messages the complete set would have verified.
\<close>
lemma UpdateKeySet_transparent:
  assumes "UpdateKeySet (Some ks) nows = Inr es" and "\<forall>i. nows i \<le> later"
  shows "es \<noteq> [] \<and> set es \<subseteq> set ks \<and>
    VerifyKeySet ed_verify (\<lambda>_. later) es m s = VerifyKeySet ed_verify (\<lambda>_. later) ks m s"
proof -
  have es: "es = active_from nows 0 ks" "es \<noteq> []" using assms(1) by (auto simp: UpdateKeySet_Inr)
  then have "set es \<subseteq> set ks" by (auto simp: active_from_nth)
  moreover have "e \<in> set es" if "e \<in> set ks" "isActive e later" for e
  proof -
    from that(1) obtain i where "i < length ks" "ks ! i = e" by (auto simp: in_set_conv_nth)
    moreover have "isActive e (nows i)" using that(2) assms(2) isActive_mono by blast
    ultimately show ?thesis by (auto simp: es(1) active_from_nth)
  qed
  ultimately show ?thesis using es(2) unfolding VerifyKeySet_const by blast
qed

lemma UpdateKeySet_transparent_witness:
  "VerifyKeySet (\<lambda>p m s. p = s) (\<lambda>_. 50) [\<lparr>ke_pub = ''b'', ke_notAfter = 60\<rparr>] ''m'' ''a'' =
   VerifyKeySet (\<lambda>p m s. p = s) (\<lambda>_. 50)
     [\<lparr>ke_pub = ''a'', ke_notAfter = 10\<rparr>, \<lparr>ke_pub = ''b'', ke_notAfter = 60\<rparr>] ''m'' ''a''"
proof -
  have "UpdateKeySet (Some [\<lparr>ke_pub = ''a'', ke_notAfter = 10\<rparr>, \<lparr>ke_pub = ''b'', ke_notAfter = 60\<rparr>])
      (\<lambda>_. 20) = Inr [\<lparr>ke_pub = ''b'', ke_notAfter = 60\<rparr>]"
    by (simp add: UpdateKeySet_def isActive_def go_time)
  from UpdateKeySet_transparent [OF this] show ?thesis by auto
qed

end
