(* ===== verification/Replay_Cache.thy ===== *)
theory Replay_Cache
  imports Go_Time
begin

text \<open>
  The replay cache of \<open>src/shared/envelope/replay.go\<close>: a hash map from job ids to elements of a
  doubly linked list kept oldest-first, guarded by one mutex (so each operation is atomic), and a
  background loop that purges expired entries. The linked list is modelled with its element
  identities: \<open>rc_order\<close> lists element handles, \<open>rc_elem\<close> is what each element's \<open>Value\<close> points to,
  \<open>rc_index\<close> is the map. The abstract view is the list of (job id, observation time) pairs,
  oldest first; every operation is shown to refine its counterpart on that list.
\<close>

record replayEntry =
  re_jobID :: string
  re_observedAt :: instant

record ReplayCache =
  rc_capacity :: int
  rc_ttl :: duration
  rc_index :: "string \<rightharpoonup> nat"
  rc_order :: "nat list"
  rc_elem :: "nat \<Rightarrow> replayEntry"
  rc_next :: nat
  rc_stopped :: bool
  rc_looping :: bool

definition NewReplayCache :: "int \<Rightarrow> duration \<Rightarrow> ReplayCache" where
  "NewReplayCache capacity ttl =
     \<lparr>rc_capacity = capacity, rc_ttl = ttl, rc_index = Map.empty, rc_order = [],
      rc_elem = (\<lambda>_. \<lparr>re_jobID = [], re_observedAt = 0\<rparr>), rc_next = 0,
      rc_stopped = False, rc_looping = True\<rparr>"

definition Seen :: "ReplayCache \<Rightarrow> instant \<Rightarrow> string \<Rightarrow> bool" where
  "Seen c now jobID =
     (case rc_index c jobID of
        None \<Rightarrow> False
      | Some el \<Rightarrow> Sub now (re_observedAt (rc_elem c el)) < rc_ttl c)"

definition move_to_back :: "nat \<Rightarrow> nat list \<Rightarrow> nat list" where
  "move_to_back el order = (if el \<in> set order then remove1 el order @ [el] else order)"

definition evict_oldest :: "ReplayCache \<Rightarrow> ReplayCache" where
  "evict_oldest c =
     (if rc_capacity c \<le> int (length (rc_order c))
      then (case rc_order c of
              [] \<Rightarrow> c
            | oldest # rest \<Rightarrow>
                c\<lparr>rc_index := (rc_index c)(re_jobID (rc_elem c oldest) := None),
                  rc_order := rest\<rparr>)
      else c)"

definition push_back :: "ReplayCache \<Rightarrow> instant \<Rightarrow> string \<Rightarrow> ReplayCache" where
  "push_back c now jobID =
     c\<lparr>rc_elem := (rc_elem c)(rc_next c := \<lparr>re_jobID = jobID, re_observedAt = now\<rparr>),
       rc_order := rc_order c @ [rc_next c],
       rc_index := (rc_index c)(jobID \<mapsto> rc_next c),
       rc_next := Suc (rc_next c)\<rparr>"

definition Remember :: "ReplayCache \<Rightarrow> instant \<Rightarrow> string \<Rightarrow> ReplayCache" where
  "Remember c now jobID =
     (case rc_index c jobID of
        Some el \<Rightarrow>
          c\<lparr>rc_elem := (rc_elem c)(el := (rc_elem c el)\<lparr>re_observedAt := now\<rparr>),
            rc_order := move_to_back el (rc_order c)\<rparr>
      | None \<Rightarrow> push_back (evict_oldest c) now jobID)"

definition CloseCache :: "ReplayCache \<Rightarrow> ReplayCache" where
  "CloseCache c = c\<lparr>rc_stopped := True\<rparr>"

definition CacheLen :: "ReplayCache \<Rightarrow> nat" where
  "CacheLen c = length (rc_order c)"

fun purge_front ::
  "instant \<Rightarrow> (nat \<Rightarrow> replayEntry) \<Rightarrow> nat list \<Rightarrow> (string \<rightharpoonup> nat) \<Rightarrow> nat list \<times> (string \<rightharpoonup> nat)" where
  "purge_front cutoff elem [] index = ([], index)"
| "purge_front cutoff elem (front # rest) index =
     (if After (re_observedAt (elem front)) cutoff then (front # rest, index)
      else purge_front cutoff elem rest (index(re_jobID (elem front) := None)))"

definition purge :: "ReplayCache \<Rightarrow> instant \<Rightarrow> ReplayCache" where
  "purge c now =
     (let (order, index) =
            purge_front (Add now (- rc_ttl c)) (rc_elem c) (rc_order c) (rc_index c)
      in c\<lparr>rc_order := order, rc_index := index\<rparr>)"

text \<open>
  The cache as a state machine. The purge loop chooses between the stop channel and the ticker as
  long as it runs; a tick may still be taken after \<open>Close\<close> when both are ready.
\<close>

inductive rc_step :: "instant \<Rightarrow> ReplayCache \<Rightarrow> ReplayCache \<Rightarrow> bool" where
  rc_remember: "rc_step now c (Remember c now jobID)"
| rc_tick: "rc_looping c \<Longrightarrow> rc_step now c (purge c now)"
| rc_close: "rc_step now c (CloseCache c)"
| rc_exit: "rc_looping c \<Longrightarrow> rc_stopped c \<Longrightarrow> rc_step now c (c\<lparr>rc_looping := False\<rparr>)"

text \<open>States reachable from a fresh cache with a clock that does not go backwards.\<close>

inductive rc_reach :: "int \<Rightarrow> duration \<Rightarrow> instant \<Rightarrow> ReplayCache \<Rightarrow> bool" for capacity ttl where
  rc_start: "rc_reach capacity ttl t (NewReplayCache capacity ttl)"
| rc_next_step:
    "rc_reach capacity ttl t c \<Longrightarrow> t \<le> now \<Longrightarrow> rc_step now c c' \<Longrightarrow> rc_reach capacity ttl now c'"

subsection \<open>The abstract view\<close>

type_synonym replay_log = "(string \<times> instant) list"

definition entry_pair :: "replayEntry \<Rightarrow> string \<times> instant" where
  "entry_pair e = (re_jobID e, re_observedAt e)"

definition rc_abs :: "ReplayCache \<Rightarrow> replay_log" where
  "rc_abs c = map (\<lambda>el. entry_pair (rc_elem c el)) (rc_order c)"

definition log_seen :: "duration \<Rightarrow> replay_log \<Rightarrow> instant \<Rightarrow> string \<Rightarrow> bool" where
  "log_seen ttl log now j = (case map_of log j of None \<Rightarrow> False | Some t \<Rightarrow> Sub now t < ttl)"

definition log_remember :: "int \<Rightarrow> replay_log \<Rightarrow> instant \<Rightarrow> string \<Rightarrow> replay_log" where
  "log_remember cap log now j =
     (if j \<in> fst ` set log then filter (\<lambda>p. fst p \<noteq> j) log @ [(j, now)]
      else (if cap \<le> int (length log) then tl log else log) @ [(j, now)])"

definition log_purge :: "duration \<Rightarrow> replay_log \<Rightarrow> instant \<Rightarrow> replay_log" where
  "log_purge ttl log now = dropWhile (\<lambda>p. snd p \<le> now - ttl) log"

text \<open>What ties the hash map, the list and its elements together.\<close>

definition rc_inv :: "ReplayCache \<Rightarrow> bool" where
  "rc_inv c \<longleftrightarrow>
     distinct (rc_order c) \<and> (\<forall>el \<in> set (rc_order c). el < rc_next c) \<and>
     distinct (map fst (rc_abs c)) \<and>
     (\<forall>j el. rc_index c j = Some el \<longleftrightarrow> el \<in> set (rc_order c) \<and> re_jobID (rc_elem c el) = j)"

lemma rc_invI:
  assumes "distinct (rc_order c)" "\<And>el. el \<in> set (rc_order c) \<Longrightarrow> el < rc_next c"
    "distinct (map fst (rc_abs c))"
    "\<And>j el. rc_index c j = Some el \<longleftrightarrow> el \<in> set (rc_order c) \<and> re_jobID (rc_elem c el) = j"
  shows "rc_inv c"
  using assms by (auto simp: rc_inv_def)

lemma rc_inv_distinct: "rc_inv c \<Longrightarrow> distinct (rc_order c)"
  and rc_inv_keys: "rc_inv c \<Longrightarrow> distinct (map fst (rc_abs c))"
  and rc_inv_next: "rc_inv c \<Longrightarrow> el \<in> set (rc_order c) \<Longrightarrow> el < rc_next c"
  by (auto simp: rc_inv_def)

lemma rc_inv_index:
  "rc_inv c \<Longrightarrow>
     rc_index c j = Some el \<longleftrightarrow> el \<in> set (rc_order c) \<and> re_jobID (rc_elem c el) = j"
  by (simp add: rc_inv_def)

lemma rc_inv_index_None:
  "rc_inv c \<Longrightarrow> rc_index c j = None \<longleftrightarrow> j \<notin> fst ` set (rc_abs c)"
proof -
  assume "rc_inv c"
  then have "rc_index c j \<noteq> None \<longleftrightarrow> (\<exists>el \<in> set (rc_order c). re_jobID (rc_elem c el) = j)"
    using rc_inv_index [of c j] by auto
  then show ?thesis by (force simp: rc_abs_def entry_pair_def)
qed

lemma rc_inv_new: "rc_inv (NewReplayCache capacity ttl)"
  by (simp add: rc_inv_def NewReplayCache_def rc_abs_def)

lemma map_of_rc_abs:
  assumes "rc_inv c"
  shows "map_of (rc_abs c) j = map_option (\<lambda>el. re_observedAt (rc_elem c el)) (rc_index c j)"
proof (cases "rc_index c j")
  case None
  with assms have "j \<notin> fst ` set (rc_abs c)" by (simp add: rc_inv_index_None)
  then have "map_of (rc_abs c) j = None" by (simp add: map_of_eq_None_iff)
  with None show ?thesis by simp
next
  case (Some el)
  with assms have "el \<in> set (rc_order c)" "re_jobID (rc_elem c el) = j"
    by (simp_all add: rc_inv_index)
  then have "(j, re_observedAt (rc_elem c el)) \<in> set (rc_abs c)"
    by (force simp: rc_abs_def entry_pair_def)
  with rc_inv_keys [OF assms] Some show ?thesis by simp
qed

lemma Seen_refines: "rc_inv c \<Longrightarrow> Seen c now j = log_seen (rc_ttl c) (rc_abs c) now j"
  by (simp add: Seen_def log_seen_def map_of_rc_abs split: option.split)

subsection \<open>Remembering refines the abstract update\<close>

lemma evict_refines:
  "rc_inv c \<Longrightarrow> rc_abs (evict_oldest c) =
     (if rc_capacity c \<le> int (length (rc_abs c)) then tl (rc_abs c) else rc_abs c)"
  by (auto simp: evict_oldest_def rc_abs_def split: list.split)

lemma evict_inv:
  assumes "rc_inv c"
  shows "rc_inv (evict_oldest c)"
proof (cases "rc_order c")
  case Nil
  then have "evict_oldest c = c" by (simp add: evict_oldest_def)
  with assms show ?thesis by simp
next
  case (Cons e es)
  with assms have keys: "re_jobID (rc_elem c el) \<noteq> re_jobID (rc_elem c e)" if "el \<in> set es" for el
    using that by (auto simp: rc_inv_def rc_abs_def entry_pair_def image_iff)
  with assms Cons show ?thesis
    by (auto simp: evict_oldest_def rc_inv_def rc_abs_def entry_pair_def)
qed

lemma evict_index_None: "rc_index c j = None \<Longrightarrow> rc_index (evict_oldest c) j = None"
  by (auto simp: evict_oldest_def split: list.split)

lemma push_refines:
  "rc_inv c \<Longrightarrow> rc_abs (push_back c now j) = rc_abs c @ [(j, now)]"
  by (auto simp: push_back_def rc_abs_def rc_inv_def entry_pair_def)

lemma push_inv:
  assumes inv: "rc_inv c" and new: "rc_index c j = None"
  shows "rc_inv (push_back c now j)"
proof (rule rc_invI)
  have fresh: "rc_next c \<notin> set (rc_order c)" using rc_inv_next [OF inv] by blast
  then show "distinct (rc_order (push_back c now j))"
    using rc_inv_distinct [OF inv] by (simp add: push_back_def)
  show "el < rc_next (push_back c now j)" if "el \<in> set (rc_order (push_back c now j))" for el
    using that rc_inv_next [OF inv] by (fastforce simp: push_back_def)
  have "j \<notin> fst ` set (rc_abs c)" using inv new by (simp add: rc_inv_index_None)
  then show "distinct (map fst (rc_abs (push_back c now j)))"
    using rc_inv_keys [OF inv] by (simp add: push_refines inv)
  show "rc_index (push_back c now j) j' = Some el \<longleftrightarrow>
        el \<in> set (rc_order (push_back c now j)) \<and>
        re_jobID (rc_elem (push_back c now j) el) = j'" for j' el
  proof (cases "el = rc_next c")
    case True
    with fresh rc_inv_index [OF inv, of j' el] show ?thesis by (auto simp: push_back_def)
  next
    case False
    with new rc_inv_index [OF inv, of j' el] show ?thesis by (auto simp: push_back_def)
  qed
qed

lemma Remember_known:
  assumes inv: "rc_inv c" and known: "rc_index c j = Some el"
  shows "rc_order (Remember c now j) = filter (\<lambda>x. x \<noteq> el) (rc_order c) @ [el]"
    and "rc_elem (Remember c now j) = (rc_elem c)(el := (rc_elem c el)\<lparr>re_observedAt := now\<rparr>)"
    and "rc_index (Remember c now j) = rc_index c"
    and "rc_next (Remember c now j) = rc_next c"
proof -
  have "el \<in> set (rc_order c)" using known by (simp add: rc_inv_index [OF inv])
  moreover have "remove1 el (rc_order c) = filter (\<lambda>x. x \<noteq> el) (rc_order c)"
    using rc_inv_distinct [OF inv]
    by (simp add: distinct_remove1_removeAll removeAll_filter_not_eq eq_commute)
  ultimately show "rc_order (Remember c now j) = filter (\<lambda>x. x \<noteq> el) (rc_order c) @ [el]"
    using known by (simp add: Remember_def move_to_back_def)
qed (use known in \<open>simp_all add: Remember_def\<close>)

lemma known_refines:
  assumes inv: "rc_inv c" and known: "rc_index c j = Some el"
  shows "rc_abs (Remember c now j) = filter (\<lambda>p. fst p \<noteq> j) (rc_abs c) @ [(j, now)]"
proof -
  have el: "re_jobID (rc_elem c el) = j" using known by (simp add: rc_inv_index [OF inv])
  have "re_jobID (rc_elem c x) \<noteq> j" if "x \<in> set (rc_order c)" "x \<noteq> el" for x
    using that known rc_inv_index [OF inv, of j x] by auto
  then have "filter (\<lambda>x. re_jobID (rc_elem c x) \<noteq> j) (rc_order c) = filter (\<lambda>x. x \<noteq> el) (rc_order c)"
    by (intro filter_cong) (use el in auto)
  with el show ?thesis
    by (simp add: Remember_known [OF inv known] rc_abs_def entry_pair_def filter_map o_def)
qed

lemma known_inv:
  assumes inv: "rc_inv c" and known: "rc_index c j = Some el"
  shows "rc_inv (Remember c now j)"
proof (rule rc_invI)
  have el: "el \<in> set (rc_order c)" using known by (simp add: rc_inv_index [OF inv])
  then have same: "set (rc_order (Remember c now j)) = set (rc_order c)"
    by (auto simp: Remember_known [OF inv known])
  show "distinct (rc_order (Remember c now j))"
    using rc_inv_distinct [OF inv] by (simp add: Remember_known [OF inv known])
  show "x < rc_next (Remember c now j)" if "x \<in> set (rc_order (Remember c now j))" for x
    using that rc_inv_next [OF inv] by (simp add: same Remember_known(4) [OF inv known])
  show "distinct (map fst (rc_abs (Remember c now j)))"
    using rc_inv_keys [OF inv]
    by (auto simp: known_refines [OF inv known] distinct_fst_filter)
  show "rc_index (Remember c now j) j' = Some x \<longleftrightarrow>
        x \<in> set (rc_order (Remember c now j)) \<and> re_jobID (rc_elem (Remember c now j) x) = j'" for j' x
    using rc_inv_index [OF inv, of j' x]
    by (simp add: same Remember_known(2,3) [OF inv known])
qed

lemma Remember_inv: "rc_inv c \<Longrightarrow> rc_inv (Remember c now j)"
proof (cases "rc_index c j")
  case None
  assume "rc_inv c"
  with None show ?thesis
    by (simp add: Remember_def push_inv evict_inv evict_index_None)
qed (simp add: known_inv)

lemma Remember_refines:
  assumes "rc_inv c"
  shows "rc_abs (Remember c now j) = log_remember (rc_capacity c) (rc_abs c) now j"
proof (cases "rc_index c j")
  case None
  with assms have "j \<notin> fst ` set (rc_abs c)" using rc_inv_index_None [of c j] by auto
  with assms None show ?thesis
    by (simp add: Remember_def log_remember_def push_refines evict_inv evict_refines)
next
  case (Some el)
  with assms have "j \<in> fst ` set (rc_abs c)" using rc_inv_index_None [of c j] by auto
  with assms Some show ?thesis by (simp add: log_remember_def known_refines)
qed

subsection \<open>Purging refines the abstract purge\<close>

lemma purge_front_order:
  "fst (purge_front cutoff elem order index) =
     dropWhile (\<lambda>el. re_observedAt (elem el) \<le> cutoff) order"
  by (induction order arbitrary: index) (auto simp: go_time)

lemma purge_front_index:
  "snd (purge_front cutoff elem order index) j =
     (if \<exists>el \<in> set (takeWhile (\<lambda>el. re_observedAt (elem el) \<le> cutoff) order). re_jobID (elem el) = j
      then None else index j)"
  by (induction order arbitrary: index) (auto simp: go_time)

lemma purge_simps [simp]:
  "rc_order (purge c now) =
     dropWhile (\<lambda>el. re_observedAt (rc_elem c el) \<le> now - rc_ttl c) (rc_order c)"
  "rc_elem (purge c now) = rc_elem c"
  "rc_next (purge c now) = rc_next c"
  "rc_ttl (purge c now) = rc_ttl c"
  "rc_capacity (purge c now) = rc_capacity c"
  "rc_looping (purge c now) = rc_looping c"
  by (simp_all add: purge_def Let_def case_prod_beta purge_front_order Add_def)

lemma purge_index:
  "rc_index (purge c now) j =
     (if \<exists>el \<in> set (takeWhile (\<lambda>el. re_observedAt (rc_elem c el) \<le> now - rc_ttl c) (rc_order c)).
           re_jobID (rc_elem c el) = j
      then None else rc_index c j)"
  by (simp add: purge_def Let_def case_prod_beta purge_front_index Add_def)

lemma purge_refines: "rc_abs (purge c now) = log_purge (rc_ttl c) (rc_abs c) now"
  by (simp add: rc_abs_def log_purge_def dropWhile_map o_def entry_pair_def)

lemma purge_inv:
  assumes inv: "rc_inv c"
  shows "rc_inv (purge c now)"
proof -
  let ?old = "\<lambda>el. re_observedAt (rc_elem c el) \<le> now - rc_ttl c"
  define T D where T: "T = takeWhile ?old (rc_order c)" and D: "D = dropWhile ?old (rc_order c)"
  have TD: "rc_order c = T @ D" unfolding T D by simp
  have idx: "rc_index c j = Some el \<longleftrightarrow> el \<in> set T \<union> set D \<and> re_jobID (rc_elem c el) = j" for j el
    using rc_inv_index [OF inv] by (simp add: TD)
  have disj: "set T \<inter> set D = {}" and "distinct D"
    using rc_inv_distinct [OF inv] by (simp_all add: TD)
  have new: "rc_index (purge c now) j =
      (if \<exists>el \<in> set T. re_jobID (rc_elem c el) = j then None else rc_index c j)" for j
    by (simp add: purge_index T)
  have order: "rc_order (purge c now) = D" by (simp add: D)
  show ?thesis
  proof (rule rc_invI)
    show "distinct (rc_order (purge c now))" using \<open>distinct D\<close> by (simp only: order)
    show "el < rc_next (purge c now)" if "el \<in> set (rc_order (purge c now))" for el
      using that rc_inv_next [OF inv, of el] unfolding order by (simp add: TD)
    have abs: "rc_abs (purge c now) = map (\<lambda>el. entry_pair (rc_elem c el)) D"
      unfolding rc_abs_def order by simp
    show "distinct (map fst (rc_abs (purge c now)))"
      using rc_inv_keys [OF inv] by (simp add: abs rc_abs_def [of c] TD)
    show "rc_index (purge c now) j = Some el \<longleftrightarrow>
        el \<in> set (rc_order (purge c now)) \<and> re_jobID (rc_elem (purge c now) el) = j" for j el
    proof (cases "\<exists>e \<in> set T. re_jobID (rc_elem c e) = j")
      case True
      then obtain e where e: "e \<in> set T" "rc_index c j = Some e" by (auto simp: idx)
      then have "\<not> (el \<in> set D \<and> re_jobID (rc_elem c el) = j)"
        using disj idx [of j el] by auto
      with True show ?thesis unfolding order by (simp only: new purge_simps) simp
    next
      case False
      with idx [of j el] show ?thesis unfolding order by (simp only: new purge_simps) auto
    qed
  qed
qed

subsection \<open>Reachable caches\<close>

lemma Remember_frame [simp]:
  "rc_capacity (Remember c now j) = rc_capacity c"
  "rc_ttl (Remember c now j) = rc_ttl c"
  "rc_looping (Remember c now j) = rc_looping c"
  by (auto simp: Remember_def push_back_def evict_oldest_def split: option.split list.split)

lemma log_remember_sorted:
  assumes "sorted (map snd log)" and "\<forall>p \<in> set log. snd p \<le> now"
  shows "sorted (map snd (log_remember cap log now j))"
    and "\<forall>p \<in> set (log_remember cap log now j). snd p \<le> now"
  using assms
  by (auto simp: log_remember_def sorted_append sorted_filter sorted_map_tl dest: in_set_tlD)

lemma log_remember_length:
  assumes "int (length log) \<le> max 1 cap"
  shows "int (length (log_remember cap log now j)) \<le> max 1 cap"
proof (cases "j \<in> fst ` set log")
  case True
  then have "length (filter (\<lambda>p. fst p \<noteq> j) log) < length log"
    by (auto intro: length_filter_less)
  with assms True show ?thesis by (simp add: log_remember_def)
qed (use assms in \<open>auto simp: log_remember_def\<close>)

definition rc_good :: "int \<Rightarrow> duration \<Rightarrow> instant \<Rightarrow> ReplayCache \<Rightarrow> bool" where
  "rc_good capacity ttl t c \<longleftrightarrow>
     rc_inv c \<and> rc_capacity c = capacity \<and> rc_ttl c = ttl \<and> sorted (map snd (rc_abs c)) \<and>
     (\<forall>p \<in> set (rc_abs c). snd p \<le> t) \<and> int (CacheLen c) \<le> max 1 capacity"

lemma CacheLen_abs: "CacheLen c = length (rc_abs c)"
  by (simp add: CacheLen_def rc_abs_def)

lemma rc_good_later: "rc_good capacity ttl t c \<Longrightarrow> t \<le> now \<Longrightarrow> rc_good capacity ttl now c"
  by (force simp: rc_good_def)

lemma rc_good_remember:
  "rc_good capacity ttl now c \<Longrightarrow> rc_good capacity ttl now (Remember c now j)"
  using log_remember_sorted [of "rc_abs c" now capacity j]
  by (simp add: rc_good_def Remember_inv Remember_refines CacheLen_abs log_remember_length)

lemma rc_good_purge: "rc_good capacity ttl now c \<Longrightarrow> rc_good capacity ttl now (purge c t)"
  by (auto simp: rc_good_def purge_inv purge_refines log_purge_def CacheLen_abs
      sorted_map_dropWhile dest: set_dropWhileD
      intro: order_trans [OF of_nat_mono [OF length_dropWhile_le]])

lemma rc_good_flags:
  "rc_good capacity ttl now c \<Longrightarrow> rc_good capacity ttl now (CloseCache c)"
  "rc_good capacity ttl now c \<Longrightarrow> rc_good capacity ttl now (c\<lparr>rc_looping := b\<rparr>)"
  by (simp_all add: rc_good_def rc_inv_def rc_abs_def CloseCache_def CacheLen_def)

lemma rc_reach_good: "rc_reach capacity ttl t c \<Longrightarrow> rc_good capacity ttl t c"
proof (induction rule: rc_reach.induct)
  case (rc_start t)
  show ?case
    by (simp add: rc_good_def rc_inv_new CacheLen_def) (simp add: NewReplayCache_def rc_abs_def)
next
  case (rc_next_step t c now c')
  from rc_next_step.IH rc_next_step.hyps(2) have good: "rc_good capacity ttl now c"
    by (rule rc_good_later)
  from rc_next_step.hyps(3) good show ?case
    by cases (simp_all add: rc_good_remember rc_good_purge rc_good_flags)
qed

lemma purge_exact:
  assumes "rc_good capacity ttl t c"
  shows "rc_abs (purge c now) = filter (\<lambda>p. now - snd p < ttl) (rc_abs c)"
proof -
  have "filter (\<lambda>p. \<not> snd p \<le> now - ttl) (rc_abs c) = filter (\<lambda>p. now - snd p < ttl) (rc_abs c)"
    by (rule filter_cong) auto
  with assms show ?thesis
    by (simp add: rc_good_def purge_refines log_purge_def dropWhile_sorted_filter)
qed

subsection \<open>What a client of the cache may rely on\<close>

text \<open>
  The interface of a replay guard: \<open>keeps c j t n\<close> says that \<open>j\<close> was remembered at \<open>t\<close> or later and
  survives \<open>n\<close> more calls of \<open>remember\<close>. The laws are what the envelope verifier needs; the
  lemmas of the locale hold for every guard that satisfies them.
\<close>

datatype guard_event = Accepted instant string | Tidied instant

fun event_time :: "guard_event \<Rightarrow> instant" where
  "event_time (Accepted t j) = t"
| "event_time (Tidied t) = t"

fun is_accepted :: "guard_event \<Rightarrow> bool" where
  "is_accepted (Accepted t j) = True"
| "is_accepted (Tidied t) = False"

fun guard_run ::
  "('c \<Rightarrow> instant \<Rightarrow> string \<Rightarrow> 'c) \<Rightarrow> ('c \<Rightarrow> instant \<Rightarrow> 'c) \<Rightarrow> 'c \<Rightarrow> guard_event list \<Rightarrow> 'c" where
  "guard_run remember tidy c [] = c"
| "guard_run remember tidy c (Accepted t j # es) = guard_run remember tidy (remember c t j) es"
| "guard_run remember tidy c (Tidied t # es) = guard_run remember tidy (tidy c t) es"

locale replay_guard =
  fixes seen :: "'c \<Rightarrow> instant \<Rightarrow> string \<Rightarrow> bool"
    and remember :: "'c \<Rightarrow> instant \<Rightarrow> string \<Rightarrow> 'c"
    and tidy :: "'c \<Rightarrow> instant \<Rightarrow> 'c"
    and ok :: "'c \<Rightarrow> bool"
    and keeps :: "'c \<Rightarrow> string \<Rightarrow> instant \<Rightarrow> nat \<Rightarrow> bool"
    and ttl :: "'c \<Rightarrow> duration"
    and room :: "'c \<Rightarrow> nat"
  assumes ok_remember: "ok c \<Longrightarrow> ok (remember c t j)"
    and ok_tidy: "ok c \<Longrightarrow> ok (tidy c t)"
    and ttl_remember: "ttl (remember c t j) = ttl c"
    and ttl_tidy: "ttl (tidy c t) = ttl c"
    and keeps_remember: "ok c \<Longrightarrow> keeps (remember c t j) j t (room c)"
    and keeps_other: "ok c \<Longrightarrow> keeps c j t (Suc n) \<Longrightarrow> t \<le> t' \<Longrightarrow> keeps (remember c t' j') j t n"
    and keeps_tidy: "ok c \<Longrightarrow> keeps c j t n \<Longrightarrow> now - t < ttl c \<Longrightarrow> keeps (tidy c now) j t n"
    and keeps_seen: "ok c \<Longrightarrow> keeps c j t n \<Longrightarrow> t \<le> now \<Longrightarrow> now - t < ttl c \<Longrightarrow> seen c now j"
begin

abbreviation run :: "'c \<Rightarrow> guard_event list \<Rightarrow> 'c" where
  "run \<equiv> guard_run remember tidy"

lemma run_frame: "ok c \<Longrightarrow> ok (run c es) \<and> ttl (run c es) = ttl c"
proof (induction es arbitrary: c)
  case (Cons e es)
  then show ?case
    by (cases e) (simp_all add: ok_remember ok_tidy ttl_remember ttl_tidy)
qed simp

lemma run_keeps:
  assumes "ok c" and "keeps c j t (length (filter is_accepted es) + n)"
    and "\<forall>e \<in> set es. t \<le> event_time e \<and> event_time e - t < ttl c"
  shows "keeps (run c es) j t n"
  using assms
proof (induction es arbitrary: c)
  case (Cons e es)
  show ?case
  proof (cases e)
    case (Accepted t' j')
    with Cons.prems show ?thesis
      by (simp add: Cons.IH ok_remember ttl_remember keeps_other)
  next
    case (Tidied t')
    with Cons.prems show ?thesis
      by (simp add: Cons.IH ok_tidy ttl_tidy keeps_tidy)
  qed
qed simp

text \<open>An id that was remembered is reported as seen for the whole window, whatever else happens.\<close>

lemma remembered_stays_seen:
  assumes "ok c" and "length (filter is_accepted es) \<le> room c"
    and "\<forall>e \<in> set es. t \<le> event_time e \<and> event_time e \<le> now"
    and "t \<le> now" and "now - t < ttl c"
  shows "seen (run (remember c t j) es) now j"
proof -
  from assms(2) obtain n where n: "room c = length (filter is_accepted es) + n"
    using le_Suc_ex by blast
  have ok: "ok (remember c t j)" using assms(1) by (rule ok_remember)
  have "\<forall>e \<in> set es. t \<le> event_time e \<and> event_time e - t < ttl (remember c t j)"
    using assms(3,5) by (fastforce simp: ttl_remember)
  then have "keeps (run (remember c t j) es) j t n"
    using keeps_remember [OF assms(1), of t j] run_keeps [OF ok] by (simp add: n)
  with run_frame [OF ok, of es] assms(4,5) show ?thesis
    by (simp add: keeps_seen ttl_remember)
qed

end

subsection \<open>The cache is a replay guard\<close>

text \<open>How many entries are newer than the entry of \<open>j\<close>.\<close>

definition newer :: "replay_log \<Rightarrow> string \<Rightarrow> nat" where
  "newer log j = length (takeWhile (\<lambda>p. fst p \<noteq> j) (rev log))"

definition rc_ok :: "ReplayCache \<Rightarrow> bool" where
  "rc_ok c \<longleftrightarrow> rc_inv c \<and> 1 \<le> rc_capacity c \<and> 0 < rc_ttl c \<and> rc_ttl c \<le> max_int64"

definition rc_keeps :: "ReplayCache \<Rightarrow> string \<Rightarrow> instant \<Rightarrow> nat \<Rightarrow> bool" where
  "rc_keeps c j t n \<longleftrightarrow>
     (\<exists>t'. map_of (rc_abs c) j = Some t' \<and> t \<le> t' \<and> int (newer (rc_abs c) j + n) < rc_capacity c)"

definition rc_room :: "ReplayCache \<Rightarrow> nat" where
  "rc_room c = nat (rc_capacity c - 1)"

lemma newer_split: "j \<notin> fst ` set ys \<Longrightarrow> newer (xs @ (j, t) # ys) j = length ys"
proof -
  assume "j \<notin> fst ` set ys"
  then have "takeWhile (\<lambda>p. fst p \<noteq> j) (rev ys @ (j, t) # rev xs) =
      rev ys @ takeWhile (\<lambda>p. fst p \<noteq> j) ((j, t) # rev xs)"
    by (intro takeWhile_append2) auto
  then show ?thesis by (simp add: newer_def)
qed

lemma log_split:
  assumes "map_of log j = Some t" and "distinct (map fst log)"
  obtains xs ys where "log = xs @ (j, t) # ys" "j \<notin> fst ` set xs" "j \<notin> fst ` set ys"
proof -
  from assms(1) have "(j, t) \<in> set log" by (rule map_of_SomeD)
  then obtain xs ys where log: "log = xs @ (j, t) # ys" by (auto simp: in_set_conv_decomp)
  with assms(2) have "j \<notin> fst ` set xs" "j \<notin> fst ` set ys" by simp_all
  with log show ?thesis by (rule that)
qed

lemma map_of_split: "j \<notin> fst ` set xs \<Longrightarrow> (m(j \<mapsto> t) ++ map_of xs) j = Some t"
  by (simp add: map_add_def map_of_eq_None_iff [THEN iffD2])

lemma log_remember_self:
  "map_of (log_remember cap log now j) j = Some now \<and> newer (log_remember cap log now j) j = 0"
proof -
  have "\<exists>xs. log_remember cap log now j = xs @ [(j, now)] \<and> j \<notin> fst ` set xs"
  proof (cases "j \<in> fst ` set log")
    case True
    then show ?thesis by (auto simp: log_remember_def)
  next
    case False
    then have "j \<notin> fst ` set (if cap \<le> int (length log) then tl log else log)"
      by (auto dest: in_set_tlD)
    with False show ?thesis by (simp add: log_remember_def)
  qed
  then obtain xs where xs: "log_remember cap log now j = xs @ [(j, now)]" "j \<notin> fst ` set xs"
    by blast
  then show ?thesis using newer_split [of j "[]" xs now] by (simp add: map_of_split)
qed

lemma log_remember_other:
  assumes "map_of log j = Some t" "distinct (map fst log)" "j' \<noteq> j"
    and "int (newer log j) + 1 < cap"
  shows "map_of (log_remember cap log now j') j = Some t \<and>
         newer (log_remember cap log now j') j \<le> newer log j + 1"
proof -
  from assms(1,2) obtain xs ys where log: "log = xs @ (j, t) # ys"
    and out: "j \<notin> fst ` set xs" "j \<notin> fst ` set ys" by (rule log_split)
  have n: "newer log j = length ys" using out(2) by (simp add: log newer_split)
  have shape: "\<exists>xs' ys'. log_remember cap log now j' = xs' @ (j, t) # ys' \<and>
      j \<notin> fst ` set xs' \<and> j \<notin> fst ` set ys' \<and> length ys' \<le> length ys + 1"
  proof (cases "j' \<in> fst ` set log")
    case True
    let ?f = "filter (\<lambda>p. fst p \<noteq> j')"
    have "log_remember cap log now j' = ?f xs @ (j, t) # (?f ys @ [(j', now)])"
      using True assms(3) by (simp add: log_remember_def log)
    moreover have "j \<notin> fst ` set (?f xs)" "j \<notin> fst ` set (?f ys @ [(j', now)])"
      using out assms(3) by auto
    moreover have "length (?f ys @ [(j', now)]) \<le> length ys + 1" by simp
    ultimately show ?thesis by blast
  next
    case False
    have "\<exists>xs'. (if cap \<le> int (length log) then tl log else log) = xs' @ (j, t) # ys \<and>
        set xs' \<subseteq> set xs"
    proof (cases "cap \<le> int (length log)")
      case True
      with assms(4) n have "xs \<noteq> []" by (auto simp: log)
      with True show ?thesis by (cases xs) (auto simp: log)
    qed (auto simp: log)
    then obtain xs' where "log_remember cap log now j' = xs' @ (j, t) # (ys @ [(j', now)])"
      "set xs' \<subseteq> set xs"
      using False by (auto simp: log_remember_def)
    moreover from this(2) out(1) have "j \<notin> fst ` set xs'" by blast
    moreover have "j \<notin> fst ` set (ys @ [(j', now)])" using out assms(3) by auto
    moreover have "length (ys @ [(j', now)]) \<le> length ys + 1" by simp
    ultimately show ?thesis by blast
  qed
  then show ?thesis using n by (auto simp: map_of_split newer_split)
qed

lemma log_purge_keeps:
  assumes "map_of log j = Some t" "distinct (map fst log)" "now - t < ttl"
  shows "map_of (log_purge ttl log now) j = Some t \<and> newer (log_purge ttl log now) j = newer log j"
proof -
  from assms(1,2) obtain xs ys where log: "log = xs @ (j, t) # ys"
    and out: "j \<notin> fst ` set xs" "j \<notin> fst ` set ys" by (rule log_split)
  let ?P = "\<lambda>p. snd p \<le> now - ttl"
  have "\<exists>xs'. log_purge ttl log now = xs' @ (j, t) # ys \<and> set xs' \<subseteq> set xs"
  proof (cases "\<forall>p \<in> set xs. ?P p")
    case True
    then have "log_purge ttl log now = dropWhile ?P ((j, t) # ys)"
      by (simp add: log_purge_def log dropWhile_append2)
    also have "\<dots> = [] @ (j, t) # ys" using assms(3) by simp
    finally show ?thesis by (intro exI [of _ "[]"]) simp
  next
    case False
    then obtain p where "p \<in> set xs" "\<not> ?P p" by blast
    then have "log_purge ttl log now = dropWhile ?P xs @ (j, t) # ys"
      by (simp add: log_purge_def log dropWhile_append1)
    then show ?thesis by (intro exI [of _ "dropWhile ?P xs"]) (auto dest: set_dropWhileD)
  qed
  then obtain xs' where "log_purge ttl log now = xs' @ (j, t) # ys" "set xs' \<subseteq> set xs" by blast
  moreover from this out have "j \<notin> fst ` set xs'" by blast
  ultimately show ?thesis using out by (simp add: map_of_split newer_split log)
qed

interpretation cache: replay_guard Seen Remember purge rc_ok rc_keeps rc_ttl rc_room
proof (unfold_locales, goal_cases)
  case (1 c t j)
  then show ?case by (simp add: rc_ok_def Remember_inv)
next
  case (2 c t)
  then show ?case by (simp add: rc_ok_def purge_inv)
next
  case (5 c t j)
  then show ?case
    using log_remember_self [of "rc_capacity c" "rc_abs c" t j]
    by (simp add: rc_keeps_def rc_ok_def rc_room_def Remember_refines)
next
  case (6 c j t n t' j')
  then obtain u where u: "map_of (rc_abs c) j = Some u" "t \<le> u"
    "int (newer (rc_abs c) j + Suc n) < rc_capacity c" and inv: "rc_inv c"
    by (auto simp: rc_keeps_def rc_ok_def)
  show ?case
  proof (cases "j' = j")
    case True
    with 6 u inv show ?thesis
      using log_remember_self [of "rc_capacity c" "rc_abs c" t' j]
      by (simp add: rc_keeps_def Remember_refines)
  next
    case False
    with u inv show ?thesis
      using log_remember_other [of "rc_abs c" j u j' "rc_capacity c" t'] rc_inv_keys [OF inv]
      by (auto simp: rc_keeps_def Remember_refines)
  qed
next
  case (7 c j t n now)
  then obtain u where u: "map_of (rc_abs c) j = Some u" "t \<le> u"
    "int (newer (rc_abs c) j + n) < rc_capacity c" and inv: "rc_inv c"
    by (auto simp: rc_keeps_def rc_ok_def)
  with 7 have "now - u < rc_ttl c" by simp
  with log_purge_keeps [OF u(1) rc_inv_keys [OF inv]] u show ?case
    by (simp add: rc_keeps_def purge_refines)
next
  case (8 c j t n now)
  then obtain u where u: "map_of (rc_abs c) j = Some u" "t \<le> u" and inv: "rc_inv c"
    and ttl: "0 < rc_ttl c" "rc_ttl c \<le> max_int64"
    by (auto simp: rc_keeps_def rc_ok_def)
  have "min_int64 < rc_ttl c" using ttl by (simp add: min_int64_def)
  with 8 u ttl inv show ?case by (simp add: Seen_refines log_seen_def Sub_less_iff)
qed simp_all

subsection \<open>Properties\<close>

lemma map_of_filter_snd:
  "distinct (map fst log) \<Longrightarrow>
     map_of (filter (\<lambda>p. P (snd p)) log) j =
       (case map_of log j of None \<Rightarrow> None | Some t \<Rightarrow> if P t then Some t else None)"
proof (induction log)
  case (Cons p log)
  then have "fst p = j \<Longrightarrow> map_of log j = None" by (auto simp: map_of_eq_None_iff)
  with Cons show ?case by (cases p) (auto split: option.split)
qed simp

lemma log_seen_purged:
  assumes "distinct (map fst log)" "now \<le> later" "min_int64 < ttl" "ttl \<le> max_int64"
  shows "log_seen ttl (filter (\<lambda>p. now - snd p < ttl) log) later j = log_seen ttl log later j"
  using assms map_of_filter_snd [OF assms(1), of "\<lambda>t. now - t < ttl" j]
  by (auto simp: log_seen_def Sub_less_iff split: option.split)

text \<open>
  C21: every operation of a reachable cache does to the ordered list of (job id, time) pairs exactly
  what the abstract log prescribes: lookup compares the age of the id's entry with the TTL,
  remembering moves a known id to the end with the new time or drops the oldest entry of a full
  cache and appends, and purging drops the expired front.
\<close>
theorem cache_refines_log:
  assumes "rc_reach capacity ttl t c"
  shows "Seen c now j = log_seen ttl (rc_abs c) now j \<and>
    rc_abs (Remember c now j) = log_remember capacity (rc_abs c) now j \<and>
    rc_abs (purge c now) = log_purge ttl (rc_abs c) now \<and>
    rc_abs (CloseCache c) = rc_abs c"
  using rc_reach_good [OF assms]
  by (simp add: rc_good_def Seen_refines Remember_refines purge_refines)
    (simp add: CloseCache_def rc_abs_def)

lemma reach_example:
  "rc_reach 1 100 7 (Remember (Remember (NewReplayCache 1 100) 5 ''a'') 7 ''b'')"
  by (rule rc_next_step [OF rc_next_step [OF rc_start [of 1 100 5]]]) (auto intro: rc_remember)

theorem cache_refines_log_witness:
  "rc_abs (Remember (Remember (NewReplayCache 1 100) 5 ''a'') 7 ''b'') = [(''b'', 7)] \<and>
   \<not> Seen (Remember (Remember (NewReplayCache 1 100) 5 ''a'') 7 ''b'') 9 ''a'' \<and>
   Seen (Remember (Remember (NewReplayCache 1 100) 5 ''a'') 7 ''b'') 9 ''b''"
proof -
  have abs: "rc_abs (Remember (Remember (NewReplayCache 1 100) 5 ''a'') 7 ''b'') = [(''b'', 7)]"
    by (simp add: NewReplayCache_def Remember_def push_back_def evict_oldest_def rc_abs_def
        entry_pair_def)
  show ?thesis
    using cache_refines_log [OF reach_example, of 9 "''a''"]
      cache_refines_log [OF reach_example, of 9 "''b''"]
    by (simp add: abs log_seen_def Sub_less_iff min_int64_def max_int64_def)
qed

text \<open>
  C32: in every reachable cache the hash map and the linked list describe the same entries (one per
  job id, every index entry pointing at its element), the list is ordered by observation time, no
  observation lies in the future of the last operation, and the cache holds at most
  \<open>max 1 capacity\<close> entries.
\<close>
theorem cache_invariant:
  assumes "rc_reach capacity ttl t c"
  shows "(\<forall>j el. rc_index c j = Some el \<longleftrightarrow> el \<in> set (rc_order c) \<and> re_jobID (rc_elem c el) = j) \<and>
    distinct (rc_order c) \<and> distinct (map fst (rc_abs c)) \<and> sorted (map snd (rc_abs c)) \<and>
    (\<forall>p \<in> set (rc_abs c). snd p \<le> t) \<and> int (CacheLen c) \<le> max 1 capacity"
  using rc_reach_good [OF assms] unfolding rc_good_def rc_inv_def by blast

theorem cache_invariant_witness:
  "int (CacheLen (Remember (Remember (NewReplayCache 1 100) 5 ''a'') 7 ''b'')) \<le> 1"
  using cache_invariant [OF reach_example] by simp

text \<open>
  A tick of the purge loop at time \<open>now\<close> removes exactly the entries that are at least one TTL
  old, and no lookup at that time or later can tell that it ran.
\<close>
lemma purge_exact_and_transparent:
  assumes "rc_reach capacity ttl t c" and "now \<le> later" and "min_int64 < ttl" and "ttl \<le> max_int64"
  shows "rc_abs (purge c now) = filter (\<lambda>p. now - snd p < ttl) (rc_abs c) \<and>
    Seen (purge c now) later j = Seen c later j"
proof -
  have good: "rc_good capacity ttl t c" using assms(1) by (rule rc_reach_good)
  then have inv: "rc_inv c" "rc_ttl c = ttl" by (simp_all add: rc_good_def)
  show ?thesis
    using purge_exact [OF good, of now] log_seen_purged [OF rc_inv_keys [OF inv(1)] assms(2-4)]
    by (simp add: Seen_refines purge_inv inv)
qed

lemma purge_exact_and_transparent_witness:
  "rc_abs (purge (Remember (Remember (NewReplayCache 1 100) 5 ''a'') 7 ''b'') 107) = [] \<and>
   \<not> Seen (Remember (Remember (NewReplayCache 1 100) 5 ''a'') 7 ''b'') 107 ''b''"
proof -
  have abs: "rc_abs (Remember (Remember (NewReplayCache 1 100) 5 ''a'') 7 ''b'') = [(''b'', 7)]"
    by (simp add: NewReplayCache_def Remember_def push_back_def evict_oldest_def rc_abs_def
        entry_pair_def)
  have no: "\<not> Seen (purge (Remember (Remember (NewReplayCache 1 100) 5 ''a'') 7 ''b'') 107) 107 ''b''"
    by (simp add: NewReplayCache_def Remember_def push_back_def evict_oldest_def purge_def Add_def
        After_def Seen_def)
  show ?thesis
    using purge_exact_and_transparent [OF reach_example, of 107 107 "''b''"] no
    by (simp add: abs min_int64_def max_int64_def)
qed

text \<open>
  Once an id is remembered it is reported as seen throughout the TTL, whatever purges and
  further remembered ids (fewer than the capacity) come in between.
\<close>
lemma remembered_id_stays_seen:
  assumes "rc_reach capacity ttl t0 c" and "0 < ttl" and "ttl \<le> max_int64"
    and "int (length (filter is_accepted es)) < capacity"
    and "\<forall>e \<in> set es. t \<le> event_time e \<and> event_time e \<le> now"
    and "t \<le> now" and "now - t < ttl"
  shows "Seen (guard_run Remember purge (Remember c t j) es) now j"
proof -
  have "rc_inv c" "rc_capacity c = capacity" "rc_ttl c = ttl"
    using rc_reach_good [OF assms(1)] by (simp_all add: rc_good_def)
  with assms show ?thesis
    by (intro cache.remembered_stays_seen) (auto simp: rc_ok_def rc_room_def)
qed

lemma remembered_id_stays_seen_witness:
  "Seen (guard_run Remember purge (Remember (NewReplayCache 2 100) 5 ''a'')
     [Accepted 20 ''b'', Tidied 60]) 104 ''a''"
  using remembered_id_stays_seen [OF rc_start [of 2 100 0], of "[Accepted 20 ''b'', Tidied 60]" 5 104]
  by (simp add: max_int64_def)

end
