(* ===== verification/Envelope_Verify.thy ===== *)
theory Envelope_Verify
  imports Key_Set Replay_Cache Go_Values
begin

text \<open>
  The signed job envelope of \<open>src/shared/envelope/envelope.go\<close> and \<open>errors.go\<close>: its canonical bytes,
  signing, and the verification an agent runs on every envelope it receives. The CBOR codec is the
  parameter \<open>cbor\<close> (the deterministic encoding of the signed fields; its wire codec for complete
  envelopes is \<open>cbor_wire\<close> and \<open>cbor_read\<close>), Ed25519 the parameters \<open>ed_sign\<close> and \<open>ed_verify\<close>.
  Instants carry no time zone: \<open>CanonicalBytes\<close> converts both timestamps to UTC, and nothing else
  depends on the zone.
\<close>

definition SupportedVersion :: string where "SupportedVersion = ''pmx-agent-v1''"
definition MaxLifetime :: duration where "MaxLifetime = Hour"
definition NTPSkewTolerance :: duration where "NTPSkewTolerance = 30 * Second"

text \<open>A nil \<open>Params\<close> map is \<^const>\<open>None\<close>: it encodes differently from an empty one.\<close>

record Envelope =
  Version :: string
  JobID :: string
  IssuedAt :: instant
  ExpiresAt :: instant
  Issuer :: string
  Audience :: string
  Host :: string
  Command :: string
  Params :: "params option"
  Signature :: string

record sigPayload =
  sp_Version :: string
  sp_JobID :: string
  sp_IssuedAt :: instant
  sp_ExpiresAt :: instant
  sp_Issuer :: string
  sp_Audience :: string
  sp_Host :: string
  sp_Command :: string
  sp_Params :: "params option"

datatype envelope_error =
    ErrVersionUnsupported string
  | ErrExpired instant
  | ErrTooLongLived duration
  | ErrAudienceMismatch string string
  | ErrHostMismatch string string
  | ErrCanonical string
  | ErrBadSignature
  | ErrReplay string
  | ErrUnmarshal string
  | ErrMarshal string

type_synonym cbor_codec = "sigPayload \<Rightarrow> string + bytes"

definition sig_payload :: "Envelope \<Rightarrow> sigPayload" where
  "sig_payload e =
     \<lparr>sp_Version = Version e, sp_JobID = JobID e, sp_IssuedAt = IssuedAt e,
      sp_ExpiresAt = ExpiresAt e, sp_Issuer = Issuer e, sp_Audience = Audience e,
      sp_Host = Host e, sp_Command = Command e, sp_Params = Params e\<rparr>"

definition CanonicalBytes :: "cbor_codec \<Rightarrow> Envelope \<Rightarrow> string + bytes" where
  "CanonicalBytes cbor e = cbor (sig_payload e)"

text \<open>The clock readings of one verification, in the order the code takes them.\<close>

record verify_clock =
  vc_now :: instant
  vc_keys :: "nat \<Rightarrow> instant"
  vc_seen :: instant
  vc_remember :: instant

definition VerifyEnvelope ::
  "cbor_codec \<Rightarrow> ed25519 \<Rightarrow> verify_clock \<Rightarrow> Envelope \<Rightarrow> KeySet \<Rightarrow> string \<Rightarrow> string \<Rightarrow> ReplayCache \<Rightarrow>
   envelope_error option \<times> ReplayCache" where
  "VerifyEnvelope cbor ed_verify clk e keyset thisAgentClass thisHostFingerprint cache =
     (if Version e \<noteq> SupportedVersion then (Some (ErrVersionUnsupported (Version e)), cache)
      else let now = vc_now clk in
      if Before (ExpiresAt e) (Add now (- NTPSkewTolerance)) then (Some (ErrExpired (ExpiresAt e)), cache)
      else if Sub (ExpiresAt e) (IssuedAt e) > MaxLifetime
      then (Some (ErrTooLongLived (Sub (ExpiresAt e) (IssuedAt e))), cache)
      else if Audience e \<noteq> thisAgentClass
      then (Some (ErrAudienceMismatch thisAgentClass (Audience e)), cache)
      else if Host e \<noteq> thisHostFingerprint
      then (Some (ErrHostMismatch thisHostFingerprint (Host e)), cache)
      else case CanonicalBytes cbor e of
        Inl err \<Rightarrow> (Some (ErrCanonical err), cache)
      | Inr canonical \<Rightarrow>
          (case DecodeString (Signature e) of
             None \<Rightarrow> (Some ErrBadSignature, cache)
           | Some sigBytes \<Rightarrow>
               if \<not> VerifyKeySet ed_verify (vc_keys clk) keyset canonical sigBytes
               then (Some ErrBadSignature, cache)
               else if Seen cache (vc_seen clk) (JobID e) then (Some (ErrReplay (JobID e)), cache)
               else (None, Remember cache (vc_remember clk) (JobID e))))"

definition SignEnvelope ::
  "cbor_codec \<Rightarrow> ('priv \<Rightarrow> bytes \<Rightarrow> bytes) \<Rightarrow> Envelope \<Rightarrow> 'priv \<Rightarrow> envelope_error + Envelope" where
  "SignEnvelope cbor ed_sign e priv =
     (case CanonicalBytes cbor e of
        Inl err \<Rightarrow> Inl (ErrCanonical err)
      | Inr canonical \<Rightarrow> Inr (e\<lparr>Signature := EncodeToString (ed_sign priv canonical)\<rparr>))"

definition UnmarshalEnvelope ::
  "(bytes \<Rightarrow> string + Envelope) \<Rightarrow> bytes \<Rightarrow> envelope_error + Envelope" where
  "UnmarshalEnvelope cbor_read data =
     (case cbor_read data of Inl err \<Rightarrow> Inl (ErrUnmarshal err) | Inr e \<Rightarrow> Inr e)"

definition MarshalEnvelope ::
  "(Envelope \<Rightarrow> string + bytes) \<Rightarrow> Envelope \<Rightarrow> envelope_error + bytes" where
  "MarshalEnvelope cbor_wire e =
     (case cbor_wire e of Inl err \<Rightarrow> Inl (ErrMarshal err) | Inr b \<Rightarrow> Inr b)"

text \<open>
  A stretch of an agent's life as its replay cache sees it: envelopes are delivered (each verified
  against the key set that is current at that moment) and the purge loop ticks.
\<close>

datatype delivery = Deliver verify_clock KeySet Envelope | Tick instant

fun delivery_time :: "delivery \<Rightarrow> instant" where
  "delivery_time (Deliver clk ks e) = vc_remember clk"
| "delivery_time (Tick t) = t"

fun agent_run ::
  "cbor_codec \<Rightarrow> ed25519 \<Rightarrow> string \<Rightarrow> string \<Rightarrow> ReplayCache \<Rightarrow> delivery list \<Rightarrow> ReplayCache" where
  "agent_run cbor ed_verify cls host c [] = c"
| "agent_run cbor ed_verify cls host c (Deliver clk ks e # ds) =
     agent_run cbor ed_verify cls host (snd (VerifyEnvelope cbor ed_verify clk e ks cls host c)) ds"
| "agent_run cbor ed_verify cls host c (Tick t # ds) =
     agent_run cbor ed_verify cls host (purge c t) ds"

fun accepted_events ::
  "cbor_codec \<Rightarrow> ed25519 \<Rightarrow> string \<Rightarrow> string \<Rightarrow> ReplayCache \<Rightarrow> delivery list \<Rightarrow> guard_event list" where
  "accepted_events cbor ed_verify cls host c [] = []"
| "accepted_events cbor ed_verify cls host c (Deliver clk ks e # ds) =
     (case VerifyEnvelope cbor ed_verify clk e ks cls host c of
        (None, c') \<Rightarrow>
          Accepted (vc_remember clk) (JobID e) # accepted_events cbor ed_verify cls host c' ds
      | (Some err, c') \<Rightarrow> accepted_events cbor ed_verify cls host c' ds)"
| "accepted_events cbor ed_verify cls host c (Tick t # ds) =
     Tidied t # accepted_events cbor ed_verify cls host (purge c t) ds"

subsection \<open>The checks that do not depend on the cache\<close>

text \<open>The documented rejections 1 to 6 in their order; the first that applies is reported.\<close>

definition rejections ::
  "cbor_codec \<Rightarrow> ed25519 \<Rightarrow> verify_clock \<Rightarrow> Envelope \<Rightarrow> KeySet \<Rightarrow> string \<Rightarrow> string \<Rightarrow>
   (bool \<times> envelope_error) list" where
  "rejections cbor ed_verify clk e ks cls host =
     [(Version e \<noteq> SupportedVersion, ErrVersionUnsupported (Version e)),
      (ExpiresAt e < vc_now clk - NTPSkewTolerance, ErrExpired (ExpiresAt e)),
      (ExpiresAt e - IssuedAt e > MaxLifetime, ErrTooLongLived (Sub (ExpiresAt e) (IssuedAt e))),
      (Audience e \<noteq> cls, ErrAudienceMismatch cls (Audience e)),
      (Host e \<noteq> host, ErrHostMismatch host (Host e)),
      (\<exists>err. CanonicalBytes cbor e = Inl err, ErrCanonical (projl (CanonicalBytes cbor e))),
      (\<not> (\<exists>m s. CanonicalBytes cbor e = Inr m \<and> DecodeString (Signature e) = Some s \<and>
             VerifyKeySet ed_verify (vc_keys clk) ks m s), ErrBadSignature)]"

definition first_rejection ::
  "cbor_codec \<Rightarrow> ed25519 \<Rightarrow> verify_clock \<Rightarrow> Envelope \<Rightarrow> KeySet \<Rightarrow> string \<Rightarrow> string \<Rightarrow>
   envelope_error option" where
  "first_rejection cbor ed_verify clk e ks cls host =
     map_option snd (find fst (rejections cbor ed_verify clk e ks cls host))"

lemma lifetime_check: "Sub t u > MaxLifetime \<longleftrightarrow> t - u > MaxLifetime"
  by (intro Sub_greater_iff) (simp_all add: MaxLifetime_def duration_defs min_int64_def max_int64_def)

lemma VerifyEnvelope_first_rejection:
  "VerifyEnvelope cbor ed_verify clk e ks cls host c =
     (case first_rejection cbor ed_verify clk e ks cls host of
        Some err \<Rightarrow> (Some err, c)
      | None \<Rightarrow>
          if Seen c (vc_seen clk) (JobID e) then (Some (ErrReplay (JobID e)), c)
          else (None, Remember c (vc_remember clk) (JobID e)))"
  by (simp add: VerifyEnvelope_def first_rejection_def rejections_def Let_def lifetime_check
      Before_def Add_def split: sum.split option.split)

lemma first_rejection_None:
  "first_rejection cbor ed_verify clk e ks cls host = None \<longleftrightarrow>
     Version e = SupportedVersion \<and> vc_now clk \<le> ExpiresAt e + NTPSkewTolerance \<and>
     ExpiresAt e \<le> IssuedAt e + MaxLifetime \<and> Audience e = cls \<and> Host e = host \<and>
     (\<exists>m s. CanonicalBytes cbor e = Inr m \<and> DecodeString (Signature e) = Some s \<and>
        VerifyKeySet ed_verify (vc_keys clk) ks m s)"
  by (auto simp: first_rejection_def rejections_def find_None_iff)

lemma VerifyEnvelope_accepts:
  "fst (VerifyEnvelope cbor ed_verify clk e ks cls host c) = None \<longleftrightarrow>
     first_rejection cbor ed_verify clk e ks cls host = None \<and> \<not> Seen c (vc_seen clk) (JobID e)"
  by (simp add: VerifyEnvelope_first_rejection split: option.split)

lemma VerifyEnvelope_cache:
  "snd (VerifyEnvelope cbor ed_verify clk e ks cls host c) =
     (if fst (VerifyEnvelope cbor ed_verify clk e ks cls host c) = None
      then Remember c (vc_remember clk) (JobID e) else c)"
  by (simp add: VerifyEnvelope_first_rejection split: option.split)

subsection \<open>Runs of an agent\<close>

lemma agent_run_guard:
  "agent_run cbor ed_verify cls host c ds =
     guard_run Remember purge c (accepted_events cbor ed_verify cls host c ds)"
proof (induction ds arbitrary: c)
  case (Cons d ds)
  show ?case
  proof (cases d)
    case (Deliver clk ks e)
    obtain r c' where v: "VerifyEnvelope cbor ed_verify clk e ks cls host c = (r, c')" by fastforce
    then have "c' = (if r = None then Remember c (vc_remember clk) (JobID e) else c)"
      using VerifyEnvelope_cache [of cbor ed_verify clk e ks cls host c] by simp
    with v Deliver Cons.IH show ?thesis by (cases r) simp_all
  qed (simp add: Cons.IH)
qed simp

lemma accepted_events_times:
  "ev \<in> set (accepted_events cbor ed_verify cls host c ds) \<Longrightarrow> event_time ev \<in> delivery_time ` set ds"
proof (induction ds arbitrary: c)
  case (Cons d ds)
  show ?case
  proof (cases d)
    case (Deliver clk ks e)
    obtain r c' where v: "VerifyEnvelope cbor ed_verify clk e ks cls host c = (r, c')" by fastforce
    with Deliver Cons show ?thesis by (cases r) auto
  qed (use Cons in auto)
qed simp

text \<open>What is relied on of Ed25519: a signature verifies under the signer's public key.\<close>

definition ed25519_correct :: "('priv \<Rightarrow> bytes) \<Rightarrow> ('priv \<Rightarrow> bytes \<Rightarrow> bytes) \<Rightarrow> ed25519 \<Rightarrow> bool" where
  "ed25519_correct pub_of ed_sign ed_verify \<longleftrightarrow> (\<forall>priv m. ed_verify (pub_of priv) m (ed_sign priv m))"

lemma sig_payload_Signature [simp]: "sig_payload (e\<lparr>Signature := s\<rparr>) = sig_payload e"
  by (simp add: sig_payload_def)

lemma signed_envelope_passes:
  assumes "ed25519_correct pub_of ed_sign ed_verify"
    and "SignEnvelope cbor ed_sign e priv = Inr e'"
    and "i < length ks" and "ke_pub (ks ! i) = pub_of priv" and "isActive (ks ! i) (vc_keys clk i)"
    and "Version e = SupportedVersion" and "Audience e = cls" and "Host e = host"
    and "vc_now clk \<le> ExpiresAt e + NTPSkewTolerance" and "ExpiresAt e - IssuedAt e \<le> MaxLifetime"
  shows "first_rejection cbor ed_verify clk e' ks cls host = None"
proof -
  from assms(2) obtain m where m: "CanonicalBytes cbor e = Inr m"
    and e': "e' = e\<lparr>Signature := EncodeToString (ed_sign priv m)\<rparr>"
    by (auto simp: SignEnvelope_def split: sum.splits)
  have "VerifyKeySet ed_verify (vc_keys clk) ks m (ed_sign priv m)"
    using assms(1,3-5) by (auto simp: VerifyKeySet_iff ed25519_correct_def)
  with assms(6-10) m show ?thesis
    by (simp add: first_rejection_None e' CanonicalBytes_def)
qed

text \<open>A job id that was accepted is refused while the cache remembers it or the envelope has expired.\<close>

lemma second_acceptance_refused:
  assumes "rc_reach capacity ttl t0 c" and "ttl \<le> max_int64"
    and "VerifyEnvelope cbor ed_verify clk1 e1 ks1 cls host c = (None, c1)"
    and "JobID e2 = JobID e1" and "IssuedAt e2 \<le> vc_remember clk1"
    and "\<forall>d \<in> set ds. vc_remember clk1 \<le> delivery_time d \<and> delivery_time d \<le> vc_seen clk2"
    and "int (length (filter is_accepted (accepted_events cbor ed_verify cls host c1 ds))) < capacity"
    and "vc_remember clk1 \<le> vc_seen clk2" and "vc_now clk2 \<le> vc_seen clk2"
    and "MaxLifetime + NTPSkewTolerance + (vc_seen clk2 - vc_now clk2) < ttl"
  shows "\<exists>err. VerifyEnvelope cbor ed_verify clk2 e2 ks2 cls host
      (agent_run cbor ed_verify cls host c1 ds) =
    (Some err, agent_run cbor ed_verify cls host c1 ds)"
proof (cases "first_rejection cbor ed_verify clk2 e2 ks2 cls host")
  case None
  let ?es = "accepted_events cbor ed_verify cls host c1 ds"
  have c1: "c1 = Remember c (vc_remember clk1) (JobID e1)"
    using VerifyEnvelope_cache [of cbor ed_verify clk1 e1 ks1 cls host c] assms(3) by simp
  have "vc_now clk2 \<le> ExpiresAt e2 + NTPSkewTolerance" "ExpiresAt e2 \<le> IssuedAt e2 + MaxLifetime"
    using None by (simp_all add: first_rejection_None)
  with assms(5,10) have "vc_seen clk2 - vc_remember clk1 < ttl" by linarith
  moreover have "\<forall>ev \<in> set ?es. vc_remember clk1 \<le> event_time ev \<and> event_time ev \<le> vc_seen clk2"
    using assms(6) accepted_events_times by fastforce
  moreover have "rc_ok c \<and> rc_ttl c = ttl \<and> int (rc_room c) = capacity - 1"
    using rc_reach_good [OF assms(1)] assms(2,7,9,10)
    by (auto simp: rc_good_def rc_ok_def rc_room_def MaxLifetime_def NTPSkewTolerance_def duration_defs)
  ultimately have "Seen (guard_run Remember purge c1 ?es) (vc_seen clk2) (JobID e1)"
    unfolding c1 using assms(7,8) by (intro cache.remembered_stays_seen) (simp_all add: c1)
  with None assms(4) show ?thesis
    by (simp add: VerifyEnvelope_first_rejection agent_run_guard)
qed (simp add: VerifyEnvelope_first_rejection)

subsection \<open>A sample codec, key and envelope\<close>

text \<open>Concrete instances of the external functions, on which the witnesses evaluate.\<close>

definition sample_cbor :: cbor_codec where
  "sample_cbor p = Inr (sp_JobID p @ sp_Command p)"

definition sample_sign :: "bytes \<Rightarrow> bytes \<Rightarrow> bytes" where
  "sample_sign priv m = priv @ m"

definition sample_verify :: ed25519 where
  "sample_verify pub m s \<longleftrightarrow> s = pub @ m"

definition sample_keys :: KeySet where
  "sample_keys = [\<lparr>ke_pub = ''K'', ke_notAfter = 0\<rparr>]"

definition sample_envelope :: "instant \<Rightarrow> Envelope" where
  "sample_envelope issued =
     \<lparr>Version = SupportedVersion, JobID = ''j1'', IssuedAt = issued, ExpiresAt = issued + Minute,
      Issuer = ''backend'', Audience = ''pmx-core'', Host = ''h'', Command = ''core.drain'',
      Params = None, Signature = EncodeToString ''Kj1core.drain''\<rparr>"

definition instant_clock :: "instant \<Rightarrow> verify_clock" where
  "instant_clock t = \<lparr>vc_now = t, vc_keys = (\<lambda>_. t), vc_seen = t, vc_remember = t\<rparr>"

lemmas sample_defs = sample_cbor_def sample_sign_def sample_verify_def sample_keys_def
  sample_envelope_def instant_clock_def

lemma sample_accepted:
  assumes "t \<le> issued + Minute + NTPSkewTolerance"
  shows "first_rejection sample_cbor sample_verify (instant_clock t) (sample_envelope issued)
    sample_keys ''pmx-core'' ''h'' = None"
  using assms
  by (simp add: first_rejection_None sample_defs CanonicalBytes_def sig_payload_def
      VerifyKeySet_def isActive_def IsZero_def MaxLifetime_def duration_defs del: EncodeToString.simps)

subsection \<open>Properties\<close>


text \<open>
  C6: an accepted envelope is current and authentic: it names this agent class and this host, it is
  at most 30 seconds past its expiry, its lifetime is at most one hour, its job id was not in the
  cache, and its signature bytes verify under some key of the set that had not expired.
\<close>
theorem accepted_envelope_is_authentic:
  assumes "fst (VerifyEnvelope cbor ed_verify clk e ks cls host c) = None"
  shows "Version e = SupportedVersion \<and> Audience e = cls \<and> Host e = host \<and>
    vc_now clk \<le> ExpiresAt e + NTPSkewTolerance \<and> ExpiresAt e - IssuedAt e \<le> MaxLifetime \<and>
    \<not> Seen c (vc_seen clk) (JobID e) \<and>
    (\<exists>m s i. cbor (sig_payload e) = Inr m \<and> DecodeString (Signature e) = Some s \<and> i < length ks \<and>
       isActive (ks ! i) (vc_keys clk i) \<and> ed_verify (ke_pub (ks ! i)) m s)"
  using assms
  by (auto simp: VerifyEnvelope_accepts first_rejection_None CanonicalBytes_def VerifyKeySet_iff)

theorem accepted_envelope_is_authentic_witness:
  "\<not> Seen (NewReplayCache 10 Hour) 5 (JobID (sample_envelope 0)) \<and>
   ExpiresAt (sample_envelope 0) \<le> MaxLifetime"
proof -
  have "fst (VerifyEnvelope sample_cbor sample_verify (instant_clock 5) (sample_envelope 0)
      sample_keys ''pmx-core'' ''h'' (NewReplayCache 10 Hour)) = None"
    unfolding VerifyEnvelope_accepts
    by (simp add: sample_accepted NTPSkewTolerance_def duration_defs)
      (simp add: Seen_def NewReplayCache_def)
  from accepted_envelope_is_authentic [OF this] show ?thesis
    by (simp add: instant_clock_def) (simp add: sample_envelope_def)
qed

text \<open>
  C1: no envelope is executed twice. After an envelope was accepted, no envelope with the same job
  id that was issued before that moment is accepted again, whatever else is delivered in between,
  provided fewer than \<open>capacity\<close> other envelopes are accepted meanwhile and the TTL of the cache
  exceeds lifetime plus skew plus the duration of the check itself (the agents use 100000 entries
  and 24 hours). The rejection leaves the cache unchanged.
\<close>
theorem no_double_acceptance:
  assumes "rc_reach capacity ttl t0 c" and "ttl \<le> max_int64"
    and "VerifyEnvelope cbor ed_verify clk1 e1 ks1 cls host c = (None, c1)"
    and "JobID e2 = JobID e1" and "IssuedAt e2 \<le> vc_remember clk1"
    and "\<forall>d \<in> set ds. vc_remember clk1 \<le> delivery_time d \<and> delivery_time d \<le> vc_seen clk2"
    and "int (length (filter is_accepted (accepted_events cbor ed_verify cls host c1 ds))) < capacity"
    and "vc_remember clk1 \<le> vc_seen clk2" and "vc_now clk2 \<le> vc_seen clk2"
    and "MaxLifetime + NTPSkewTolerance + (vc_seen clk2 - vc_now clk2) < ttl"
  shows "\<exists>err. VerifyEnvelope cbor ed_verify clk2 e2 ks2 cls host
      (agent_run cbor ed_verify cls host c1 ds) =
    (Some err, agent_run cbor ed_verify cls host c1 ds)"
  by (rule second_acceptance_refused [OF assms])

theorem no_double_acceptance_witness:
  "fst (VerifyEnvelope sample_cbor sample_verify (instant_clock 70) (sample_envelope 0) sample_keys
     ''pmx-core'' ''h''
     (agent_run sample_cbor sample_verify ''pmx-core'' ''h''
        (Remember (NewReplayCache 100000 (24 * Hour)) 5 ''j1'') [Tick 60])) \<noteq> None"
proof -
  have "VerifyEnvelope sample_cbor sample_verify (instant_clock 5) (sample_envelope 0) sample_keys
      ''pmx-core'' ''h'' (NewReplayCache 100000 (24 * Hour)) =
    (None, Remember (NewReplayCache 100000 (24 * Hour)) 5 ''j1'')"
    unfolding VerifyEnvelope_first_rejection
    by (simp add: sample_accepted NTPSkewTolerance_def duration_defs)
      (simp add: Seen_def NewReplayCache_def instant_clock_def sample_envelope_def)
  from no_double_acceptance [OF rc_start [of 100000 "24 * Hour" 0] _ this,
      of "sample_envelope 0" "[Tick 60]" "instant_clock 70" sample_keys]
  show ?thesis
    by (auto simp: instant_clock_def sample_envelope_def max_int64_def duration_defs
        MaxLifetime_def NTPSkewTolerance_def)
qed

text \<open>
  C27: what the backend signs, the agent accepts: an envelope for this agent and host with a lifetime
  of at most one hour, signed with the private key of a key in the set that is active, is accepted
  while it has not expired and its job id is new.
\<close>
theorem signed_envelope_accepted:
  assumes "ed25519_correct pub_of ed_sign ed_verify"
    and "SignEnvelope cbor ed_sign e priv = Inr e'"
    and "i < length ks" and "ke_pub (ks ! i) = pub_of priv" and "isActive (ks ! i) (vc_keys clk i)"
    and "Version e = SupportedVersion" and "Audience e = cls" and "Host e = host"
    and "vc_now clk \<le> ExpiresAt e + NTPSkewTolerance" and "ExpiresAt e - IssuedAt e \<le> MaxLifetime"
    and "\<not> Seen c (vc_seen clk) (JobID e)"
  shows "VerifyEnvelope cbor ed_verify clk e' ks cls host c =
    (None, Remember c (vc_remember clk) (JobID e))"
proof -
  have "JobID e' = JobID e" using assms(2) by (auto simp: SignEnvelope_def split: sum.splits)
  with signed_envelope_passes [OF assms(1-10)] assms(11) show ?thesis
    by (simp add: VerifyEnvelope_first_rejection)
qed

theorem signed_envelope_accepted_witness:
  "\<exists>e'. SignEnvelope sample_cbor sample_sign (sample_envelope 0) ''K'' = Inr e' \<and>
     VerifyEnvelope sample_cbor sample_verify (instant_clock 5) e' sample_keys ''pmx-core'' ''h''
       (NewReplayCache 10 Hour) = (None, Remember (NewReplayCache 10 Hour) 5 ''j1'')"
proof -
  obtain e' where e': "SignEnvelope sample_cbor sample_sign (sample_envelope 0) ''K'' = Inr e'"
    by (simp add: SignEnvelope_def CanonicalBytes_def sample_cbor_def)
  have "ed25519_correct (\<lambda>k. k) sample_sign sample_verify"
    by (simp add: ed25519_correct_def sample_sign_def sample_verify_def)
  from signed_envelope_accepted [OF this e', of 0 sample_keys "instant_clock 5" "''pmx-core''" "''h''"
      "NewReplayCache 10 Hour"] e'
  show ?thesis
    by (auto simp: sample_defs isActive_def IsZero_def duration_defs NTPSkewTolerance_def
        MaxLifetime_def Seen_def NewReplayCache_def)
qed

text \<open>
  C39: there is no lower bound on when an envelope may be used. An envelope whose issue time lies
  far enough in the future passes every check now and again once the replay cache has forgotten its
  job id, so a lifetime of one hour does not keep it from being executed twice.
\<close>
theorem future_envelope_accepted_twice:
  assumes "first_rejection cbor ed_verify (instant_clock late) e ks cls host = None"
    and "first_rejection cbor ed_verify (instant_clock early) e ks cls host = None"
    and "rc_reach capacity ttl early c" and "\<not> Seen c early (JobID e)"
    and "0 < ttl" and "ttl \<le> max_int64" and "early + ttl \<le> late"
  shows "fst (VerifyEnvelope cbor ed_verify (instant_clock early) e ks cls host c) = None \<and>
    fst (VerifyEnvelope cbor ed_verify (instant_clock late) e ks cls host
      (snd (VerifyEnvelope cbor ed_verify (instant_clock early) e ks cls host c))) = None"
proof -
  have first: "VerifyEnvelope cbor ed_verify (instant_clock early) e ks cls host c =
      (None, Remember c early (JobID e))"
    using assms(2,4) by (simp add: VerifyEnvelope_first_rejection instant_clock_def)
  have inv: "rc_inv c" "rc_ttl c = ttl"
    using rc_reach_good [OF assms(3)] by (simp_all add: rc_good_def)
  have "\<not> Seen (Remember c early (JobID e)) late (JobID e)"
    using log_remember_self [of "rc_capacity c" "rc_abs c" early "JobID e"] assms(5-7) inv
    by (simp add: Seen_refines Remember_inv Remember_refines log_seen_def Sub_less_iff
        min_int64_def)
  with first assms(1) show ?thesis
    by (simp add: VerifyEnvelope_first_rejection instant_clock_def)
qed

theorem future_envelope_accepted_twice_witness:
  "fst (VerifyEnvelope sample_cbor sample_verify (instant_clock 0) (sample_envelope (48 * Hour))
     sample_keys ''pmx-core'' ''h'' (NewReplayCache 100000 (24 * Hour))) = None \<and>
   fst (VerifyEnvelope sample_cbor sample_verify (instant_clock (25 * Hour))
     (sample_envelope (48 * Hour)) sample_keys ''pmx-core'' ''h''
     (snd (VerifyEnvelope sample_cbor sample_verify (instant_clock 0) (sample_envelope (48 * Hour))
        sample_keys ''pmx-core'' ''h'' (NewReplayCache 100000 (24 * Hour))))) = None"
  by (rule future_envelope_accepted_twice [OF _ _ rc_start])
    (simp_all add: sample_accepted NTPSkewTolerance_def duration_defs max_int64_def
      Seen_def NewReplayCache_def)

end
