(* ===== verification/Go_Paths.thy ===== *)
theory Go_Paths
  imports Go_Strings
begin

text \<open>
  The lexical path functions of \<open>path/filepath\<close> on Unix: \<open>Clean\<close>, \<open>Join\<close>, \<open>Base\<close> and \<open>Dir\<close>.
\<close>

definition slash :: char where "slash = CHR ''/''"

fun clean_parts :: "bool \<Rightarrow> string list \<Rightarrow> string list \<Rightarrow> string list" where
  "clean_parts rooted out [] = rev out"
| "clean_parts rooted out (p # ps) =
     (if p = [] \<or> p = ''.'' then clean_parts rooted out ps
      else if p = ''..'' then
        (case out of
           q # out' \<Rightarrow> if q = ''..'' then clean_parts rooted (p # out) ps else clean_parts rooted out' ps
         | [] \<Rightarrow> if rooted then clean_parts rooted out ps else clean_parts rooted [p] ps)
      else clean_parts rooted (p # out) ps)"

definition Clean :: "string \<Rightarrow> string" where
  "Clean path =
     (let rooted = (path \<noteq> [] \<and> hd path = slash);
          body = Join (clean_parts rooted [] (Split path slash)) [slash]
      in if rooted then slash # body else if body = [] then ''.'' else body)"

definition JoinPath :: "string list \<Rightarrow> string" where
  "JoinPath elems =
     (let es = filter (\<lambda>e. e \<noteq> []) elems in if es = [] then [] else Clean (Join es [slash]))"

definition Base :: "string \<Rightarrow> string" where
  "Base path =
     (if path = [] then ''.''
      else let p = TrimRight path slash in if p = [] then [slash] else last (Split p slash))"

definition Dir :: "string \<Rightarrow> string" where
  "Dir path = Clean (rev (dropWhile (\<lambda>c. c \<noteq> slash) (rev path)))"

text \<open>An absolute path given by its components.\<close>

definition plain_part :: "string \<Rightarrow> bool" where
  "plain_part p \<longleftrightarrow> p \<noteq> [] \<and> p \<noteq> ''.'' \<and> p \<noteq> ''..'' \<and> slash \<notin> set p"

definition abs_path :: "string list \<Rightarrow> string" where
  "abs_path ps = slash # Join ps [slash]"

lemma Split_append: "Split (s @ c # t) c = Split s c @ Split t c"
proof (induction s)
  case (Cons a s)
  show ?case
  proof (cases "a = c")
    case False
    obtain x xs where "Split s c = x # xs" using Split_not_Nil [of s c] by (cases "Split s c") auto
    with Cons False show ?thesis by simp
  qed (use Cons in simp)
qed simp

lemma Split_plain: "c \<notin> set s \<Longrightarrow> Split s c = [s]"
  by (induction s) auto

lemma Split_Join: "ps \<noteq> [] \<Longrightarrow> \<forall>p \<in> set ps. c \<notin> set p \<Longrightarrow> Split (Join ps [c]) c = ps"
proof (induction ps "[c]" rule: Join.induct)
  case (2 s)
  then show ?case by (simp add: Split_plain)
next
  case (3 s t ss)
  then have "Split (s @ c # Join (t # ss) [c]) c = [s] @ (t # ss)"
    by (simp only: Split_append) (simp add: Split_plain)
  then show ?case by simp
qed simp

lemma clean_parts_plain:
  "\<forall>p \<in> set ps. plain_part p \<Longrightarrow> clean_parts rooted out (ps @ qs) = clean_parts rooted (rev ps @ out) qs"
  by (induction ps arbitrary: out) (auto simp: plain_part_def)

lemma Split_abs_path:
  "\<forall>p \<in> set ps. plain_part p \<Longrightarrow> ps \<noteq> [] \<Longrightarrow> Split (abs_path ps) slash = [] # ps"
  using Split_append [of "[]" slash "Join ps [slash]"] Split_Join [of ps slash]
  by (simp add: abs_path_def plain_part_def)

lemma Clean_abs_path: "\<forall>p \<in> set ps. plain_part p \<Longrightarrow> ps \<noteq> [] \<Longrightarrow> Clean (abs_path ps) = abs_path ps"
  using clean_parts_plain [of ps True "[]" "[]"] Split_abs_path [of ps]
  by (simp add: Clean_def Let_def) (simp add: abs_path_def)

lemma Join_snoc: "ps \<noteq> [] \<Longrightarrow> Join (ps @ [p]) [c] = Join ps [c] @ c # p"
  by (induction ps "[c]" rule: Join.induct) simp_all

text \<open>Joining a directory and a name gives a file in that directory.\<close>

lemma JoinPath_name:
  assumes "\<forall>p \<in> set ps. plain_part p" and "ps \<noteq> []" and "plain_part n" and "k = n \<or> k = slash # n"
  shows "JoinPath [abs_path ps, k] = abs_path (ps @ [n])"
proof -
  have ne: "abs_path ps \<noteq> []" "k \<noteq> []" using assms(3,4) by (auto simp: abs_path_def plain_part_def)
  have "Split (abs_path ps @ slash # k) slash = ([] # ps) @ Split k slash"
    by (simp only: Split_append Split_abs_path [OF assms(1,2)])
  moreover have "Split k slash = [n] \<or> Split k slash = [[], n]"
    using assms(3,4) Split_plain [of slash n] by (auto simp: plain_part_def)
  ultimately have "clean_parts True [] (Split (abs_path ps @ slash # k) slash) = ps @ [n]"
    using clean_parts_plain [OF assms(1), of True "[]" "Split k slash"] assms(3)
    by (auto simp: plain_part_def)
  then have "Clean (abs_path ps @ slash # k) = abs_path (ps @ [n])"
    by (simp add: Clean_def Let_def) (simp add: abs_path_def)
  with ne show ?thesis by (simp add: JoinPath_def)
qed

lemma Base_cases: "Base s = [slash] \<or> (Base s \<noteq> [] \<and> slash \<notin> set (Base s))"
proof (cases "s = [] \<or> TrimRight s slash = []")
  case True
  then show ?thesis by (auto simp: Base_def slash_def)
next
  case False
  let ?p = "TrimRight s slash"
  have base: "Base s = last (Split ?p slash)" using False by (simp add: Base_def)
  then have "slash \<notin> set (Base s)" using Split_no_sep [of "last (Split ?p slash)" ?p slash] by simp
  moreover have "Base s \<noteq> []"
  proof
    assume empty: "Base s = []"
    have "?p = Join (Split ?p slash) [slash]" by (simp add: Join_Split)
    moreover obtain qs where qs: "Split ?p slash = qs @ [[]]"
      using base empty by (metis Split_not_Nil append_butlast_last_id)
    ultimately have "?p = Join (qs @ [[]]) [slash]" by simp
    then have "?p = [] \<or> last ?p = slash" using Join_snoc [of qs "[]" slash] by (cases "qs = []") auto
    with False TrimRight_no_trailing [of s slash] show False by simp
  qed
  ultimately show ?thesis by simp
qed

end
