(* ===== verification/Spawn.thy ===== *)
theory Spawn
  imports Host_World Envelope_Verify Go_Paths
begin

text \<open>
  Starting ephemeral agents, \<open>src/core/internal/spawn/spawn.go\<close> and \<open>spawn_args.go\<close>: the signed
  envelope is staged in a file that systemd opens as the unit's standard input; the command line
  only names the file. The wire codec of envelopes is the parameter \<open>cbor_wire\<close>. Whether the
  directory and the file can be written is an argument; a failed write says what it left behind.
  The deferred removal of the file is the operation \<open>remove_staged\<close>.
\<close>

record EphemeralRequest =
  rq_Template :: string
  rq_JobID :: string
  rq_Envelope :: "Envelope option"
  rq_RuntimeMaxSec :: int

record templateProfile =
  tp_User :: string
  tp_Group :: string
  tp_ServiceType :: string
  tp_RemainAfterExit :: bool
  tp_Restart :: string
  tp_AppArmorProfile :: string
  tp_DefaultRuntime :: int

datatype spawn_error =
    TemplateRequired
  | JobIDRequired
  | EnvelopeRequired
  | SpawnMarshal envelope_error
  | WriteEnvFile
  | SystemdRunFailed string bytes

datatype staging = StagingOk | MkdirFails | WriteFails "bytes option"

definition defaultEnvFileDir :: string where
  "defaultEnvFileDir = ''/run/pmx-cloud''"

definition root_oneshot :: templateProfile where
  "root_oneshot =
     \<lparr>tp_User = ''root'', tp_Group = ''root'', tp_ServiceType = ''oneshot'', tp_RemainAfterExit = False,
      tp_Restart = [], tp_AppArmorProfile = [], tp_DefaultRuntime = 0\<rparr>"

definition defaultTemplateProfiles :: "string \<rightharpoonup> templateProfile" where
  "defaultTemplateProfiles =
     [''pmx-hardware-installer@.service'' \<mapsto> root_oneshot,
      ''pmx-updater@.service'' \<mapsto> root_oneshot,
      ''pmx-console-broker@.service'' \<mapsto>
        \<lparr>tp_User = ''root'', tp_Group = ''root'', tp_ServiceType = ''simple'', tp_RemainAfterExit = False,
         tp_Restart = ''no'', tp_AppArmorProfile = ''pmx-console-broker'', tp_DefaultRuntime = 14400\<rparr>]"

definition profileForTemplate :: "string \<Rightarrow> templateProfile" where
  "profileForTemplate template =
     (case defaultTemplateProfiles template of Some profile \<Rightarrow> profile | None \<Rightarrow> root_oneshot)"

definition boolSystemd :: "bool \<Rightarrow> string" where
  "boolSystemd v = (if v then ''yes'' else ''no'')"

definition InstantiateTemplate :: "string \<Rightarrow> string \<Rightarrow> string" where
  "InstantiateTemplate template jobID =
     (let name = TrimSuffix template ''.service''; name = TrimSuffix name ''@''
      in name @ ''@'' @ jobID @ ''.service'')"

definition TemplateToBinary :: "string \<Rightarrow> string" where
  "TemplateToBinary template =
     (let base = TrimSuffix template ''@.service''; base = TrimSuffix base ''.service''
      in ''/usr/local/bin/'' @ base)"

definition buildSpawnArgs :: "EphemeralRequest \<Rightarrow> templateProfile \<Rightarrow> string \<Rightarrow> string list" where
  "buildSpawnArgs req profile envFilePath =
     (let unitName = InstantiateTemplate (rq_Template req) (rq_JobID req);
          args = [''systemd-run'', ''--unit='' @ unitName,
                  ''--property=StandardInput=file:'' @ envFilePath,
                  ''--property=Type='' @ tp_ServiceType profile,
                  ''--property=User='' @ tp_User profile,
                  ''--property=Group='' @ tp_Group profile,
                  ''--property=RemainAfterExit='' @ boolSystemd (tp_RemainAfterExit profile)];
          args = (if tp_Restart profile \<noteq> [] then args @ [''--property=Restart='' @ tp_Restart profile] else args);
          args = (if tp_AppArmorProfile profile \<noteq> []
                  then args @ [''--property=AppArmorProfile='' @ tp_AppArmorProfile profile] else args);
          runtimeMax = (if rq_RuntimeMaxSec req \<le> 0 then tp_DefaultRuntime profile else rq_RuntimeMaxSec req);
          args = (if runtimeMax > 0 then args @ [''--property=RuntimeMaxSec='' @ Itoa runtimeMax] else args)
      in args @ [TemplateToBinary (rq_Template req)])"

definition envFilePath :: "string \<Rightarrow> string \<Rightarrow> string" where
  "envFilePath dir jobID =
     JoinPath [if dir = [] then defaultEnvFileDir else dir, Base jobID @ ''.env'']"

definition writeEnvFile ::
  "staging \<Rightarrow> string \<Rightarrow> world \<Rightarrow> string \<Rightarrow> bytes \<Rightarrow> (spawn_error + string) \<times> world" where
  "writeEnvFile st dir w jobID content =
     (let path = envFilePath dir jobID in
      case st of
        MkdirFails \<Rightarrow> (Inl WriteEnvFile, w)
      | WriteFails left \<Rightarrow> (Inl WriteEnvFile, w\<lparr>w_files := (w_files w)(path := left)\<rparr>)
      | StagingOk \<Rightarrow> (Inr path, w\<lparr>w_files := (w_files w)(path \<mapsto> content)\<rparr>))"

definition remove_staged :: "world \<Rightarrow> string \<Rightarrow> world" where
  "remove_staged w path = w\<lparr>w_files := (w_files w)(path := None)\<rparr>"

definition SpawnUnit ::
  "host \<Rightarrow> (Envelope \<Rightarrow> string + bytes) \<Rightarrow> staging \<Rightarrow> string \<Rightarrow> world \<Rightarrow> EphemeralRequest \<Rightarrow>
   spawn_error option \<times> world" where
  "SpawnUnit host cbor_wire st dir w req =
     (if rq_Template req = [] then (Some TemplateRequired, w)
      else if rq_JobID req = [] then (Some JobIDRequired, w)
      else case rq_Envelope req of
        None \<Rightarrow> (Some EnvelopeRequired, w)
      | Some env \<Rightarrow>
          (case MarshalEnvelope cbor_wire env of
             Inl e \<Rightarrow> (Some (SpawnMarshal e), w)
           | Inr envBytes \<Rightarrow>
               (case writeEnvFile st dir w (rq_JobID req) envBytes of
                  (Inl e, w1) \<Rightarrow> (Some e, w1)
                | (Inr envPath, w1) \<Rightarrow>
                    (let args = buildSpawnArgs req (profileForTemplate (rq_Template req)) envPath;
                         ((out, err), w2) = run_cmd host w1 args
                     in if err then (Some (SystemdRunFailed (args ! 1) out), remove_staged w2 envPath)
                        else (None, w2)))))"

text \<open>
  The polling loop, driven by what the select receives: the end of the context, or a tick with the
  answer of \<open>systemctl show\<close>. \<^const>\<open>None\<close> means the loop is still polling when the events end.
\<close>

datatype wait_event = CtxDone | Polled "bytes option"

fun WaitResult :: "wait_event list \<Rightarrow> (unit + string) option" where
  "WaitResult [] = None"
| "WaitResult (CtxDone # es) = Some (Inl ())"
| "WaitResult (Polled None # es) = WaitResult es"
| "WaitResult (Polled (Some out) # es) =
     (let state = TrimSpace out in
      if state \<in> {''inactive'', ''failed'', ''deactivating''} then Some (Inr state) else WaitResult es)"

lemmas spawn_defs = SpawnUnit_def writeEnvFile_def remove_staged_def run_cmd_def MarshalEnvelope_def Let_def

subsection \<open>The staged file\<close>

lemma defaultEnvFileDir_path: "defaultEnvFileDir = abs_path [''run'', ''pmx-cloud'']"
  by (simp add: defaultEnvFileDir_def abs_path_def slash_def)

lemma staged_name: "\<exists>n. plain_part n \<and> HasSuffix n ''.env'' \<and> (Base j @ ''.env'' = n \<or> Base j @ ''.env'' = slash # n)"
proof -
  from Base_cases [of j] show ?thesis
  proof
    assume "Base j = [slash]"
    then show ?thesis by (intro exI [of _ "''.env''"]) (auto simp: plain_part_def slash_def HasSuffix_iff)
  next
    assume b: "Base j \<noteq> [] \<and> slash \<notin> set (Base j)"
    have "Base j @ ''.env'' \<noteq> ''.''" "Base j @ ''.env'' \<noteq> ''..''"
      using arg_cong [of "Base j @ ''.env''" _ length] by force+
    with b show ?thesis
      by (intro exI [of _ "Base j @ ''.env''"]) (auto simp: plain_part_def slash_def HasSuffix_iff)
  qed
qed

lemma envFilePath_in_dir:
  assumes "ps \<noteq> []" and "\<forall>p \<in> set ps. plain_part p"
  shows "\<exists>n. plain_part n \<and> HasSuffix n ''.env'' \<and> envFilePath (abs_path ps) j = abs_path (ps @ [n])"
proof -
  obtain n where "plain_part n" "HasSuffix n ''.env''" "Base j @ ''.env'' = n \<or> Base j @ ''.env'' = slash # n"
    using staged_name by blast
  moreover have "abs_path ps \<noteq> []" by (simp add: abs_path_def)
  ultimately show ?thesis
    using JoinPath_name [OF assms(2,1)] by (auto simp: envFilePath_def intro!: exI [of _ n])
qed

lemma SpawnUnit_runs:
  assumes "rq_Template req \<noteq> []" "rq_JobID req \<noteq> []" "rq_Envelope req = Some env" "cbor_wire env = Inr b"
  shows "SpawnUnit host cbor_wire StagingOk dir w req =
    (let path = envFilePath dir (rq_JobID req);
         args = buildSpawnArgs req (profileForTemplate (rq_Template req)) path;
         (out, err) = host (length (w_calls w)) args
     in (if err then Some (SystemdRunFailed (args ! 1) out) else None,
         \<lparr>w_calls = w_calls w @ [args],
          w_files = (w_files w)(path := if err then None else Some b)\<rparr>))"
  using assms by (cases w) (simp add: spawn_defs split: prod.split)

lemma buildSpawnArgs_envelope:
  "buildSpawnArgs (req\<lparr>rq_Envelope := e\<rparr>) profile path = buildSpawnArgs req profile path"
  by (simp add: buildSpawnArgs_def)

subsection \<open>Properties\<close>

text \<open>
  The envelope never reaches a command line. The commands that spawning executes are the same
  for any two envelopes that can be encoded: they depend on the template, the job id, the time
  limit and the staging directory only.
\<close>
lemma spawn_argv_independent_of_envelope:
  assumes "rq_Template req \<noteq> []" and "rq_JobID req \<noteq> []"
    and "cbor_wire e1 = Inr b1" and "cbor_wire e2 = Inr b2"
  shows "w_calls (snd (SpawnUnit host cbor_wire StagingOk dir w (req\<lparr>rq_Envelope := Some e1\<rparr>))) =
    w_calls (snd (SpawnUnit host cbor_wire StagingOk dir w (req\<lparr>rq_Envelope := Some e2\<rparr>)))"
  using SpawnUnit_runs [of "req\<lparr>rq_Envelope := Some e1\<rparr>" e1 cbor_wire b1 host dir w]
    SpawnUnit_runs [of "req\<lparr>rq_Envelope := Some e2\<rparr>" e2 cbor_wire b2 host dir w] assms
  by (simp add: buildSpawnArgs_envelope Let_def split: prod.split)

definition sample_request :: EphemeralRequest where
  "sample_request =
     \<lparr>rq_Template = ''pmx-updater@.service'', rq_JobID = ''../../etc/passwd'', rq_Envelope = Some (sample_envelope 0),
      rq_RuntimeMaxSec = 0\<rparr>"

lemma spawn_argv_independent_of_envelope_witness:
  "w_calls (snd (SpawnUnit (\<lambda>_ _. ([], False)) (\<lambda>e. Inr (JobID e)) StagingOk [] \<lparr>w_calls = [], w_files = Map.empty\<rparr>
      (sample_request\<lparr>rq_Envelope := Some (sample_envelope 0)\<rparr>))) =
   w_calls (snd (SpawnUnit (\<lambda>_ _. ([], False)) (\<lambda>e. Inr (JobID e)) StagingOk [] \<lparr>w_calls = [], w_files = Map.empty\<rparr>
      (sample_request\<lparr>rq_Envelope := Some ((sample_envelope 0)\<lparr>JobID := ''secret''\<rparr>)\<rparr>)))"
  by (rule spawn_argv_independent_of_envelope) (simp_all add: sample_request_def)



end
