(* ===== verification/Siblings.thy ===== *)
theory Siblings
  imports Host_World
begin

text \<open>
  The lifecycle manager of \<open>src/core/internal/siblings/siblings.go\<close>: the allowlist that guards every
  \<open>systemctl\<close> call on a sibling unit. An error of an operation is a value; log lines are left out.
\<close>

record Manager =
  mg_allowed :: "string \<Rightarrow> bool"
  mg_ephemeralPrefixes :: "string list"

datatype sibling_error = NotAllowed string | SystemctlFailed "string list" bytes | ShowFailed string

definition NewManager :: "string list \<Rightarrow> string list \<Rightarrow> Manager" where
  "NewManager allowed ephemeralTemplates =
     \<lparr>mg_allowed = (\<lambda>s. s \<in> set allowed),
      mg_ephemeralPrefixes = map (\<lambda>t. TrimSuffix t ''.service'') ephemeralTemplates\<rparr>"

definition Allow :: "Manager \<Rightarrow> string \<Rightarrow> bool" where
  "Allow m unit =
     (if mg_allowed m unit then True
      else list_ex (\<lambda>prefix. HasPrefix unit prefix) (mg_ephemeralPrefixes m))"

definition checkAllowed :: "Manager \<Rightarrow> string \<Rightarrow> sibling_error option" where
  "checkAllowed m unit = (if \<not> Allow m unit then Some (NotAllowed unit) else None)"

definition systemctl :: "host \<Rightarrow> world \<Rightarrow> string list \<Rightarrow> sibling_error option \<times> world" where
  "systemctl host w args =
     (let ((out, err), w') = run_cmd host w (''systemctl'' # args)
      in (if err then Some (SystemctlFailed args out) else None, w'))"

definition guarded ::
  "host \<Rightarrow> Manager \<Rightarrow> world \<Rightarrow> string \<Rightarrow> string list \<Rightarrow> sibling_error option \<times> world" where
  "guarded host m w unit args =
     (case checkAllowed m unit of Some e \<Rightarrow> (Some e, w) | None \<Rightarrow> systemctl host w args)"

definition Start :: "host \<Rightarrow> Manager \<Rightarrow> world \<Rightarrow> string \<Rightarrow> sibling_error option \<times> world" where
  "Start host m w unit = guarded host m w unit [''start'', unit]"

definition Stop :: "host \<Rightarrow> Manager \<Rightarrow> world \<Rightarrow> string \<Rightarrow> sibling_error option \<times> world" where
  "Stop host m w unit = guarded host m w unit [''stop'', unit]"

definition Enable :: "host \<Rightarrow> Manager \<Rightarrow> world \<Rightarrow> string \<Rightarrow> sibling_error option \<times> world" where
  "Enable host m w unit = guarded host m w unit [''enable'', ''--now'', unit]"

definition Disable :: "host \<Rightarrow> Manager \<Rightarrow> world \<Rightarrow> string \<Rightarrow> sibling_error option \<times> world" where
  "Disable host m w unit = guarded host m w unit [''disable'', ''--now'', unit]"

definition Restart :: "host \<Rightarrow> Manager \<Rightarrow> world \<Rightarrow> string \<Rightarrow> sibling_error option \<times> world" where
  "Restart host m w unit = guarded host m w unit [''restart'', unit]"

definition DaemonReload :: "host \<Rightarrow> world \<Rightarrow> sibling_error option \<times> world" where
  "DaemonReload host w = systemctl host w [''daemon-reload'']"

definition StatusUnit :: "host \<Rightarrow> Manager \<Rightarrow> world \<Rightarrow> string \<Rightarrow> (sibling_error + string) \<times> world" where
  "StatusUnit host m w unit =
     (case checkAllowed m unit of
        Some e \<Rightarrow> (Inl e, w)
      | None \<Rightarrow>
          (let ((out, err), w') =
                 run_cmd host w [''systemctl'', ''show'', ''--property=ActiveState'', ''--value'', unit]
           in (if err then Inl (ShowFailed unit) else Inr (TrimSpace out), w')))"

text \<open>Any sequence of operations on one manager, whatever the host answers.\<close>

inductive sib_step :: "Manager \<Rightarrow> world \<Rightarrow> world \<Rightarrow> bool" for m where
  sib_start: "sib_step m w (snd (Start host m w unit))"
| sib_stop: "sib_step m w (snd (Stop host m w unit))"
| sib_enable: "sib_step m w (snd (Enable host m w unit))"
| sib_disable: "sib_step m w (snd (Disable host m w unit))"
| sib_restart: "sib_step m w (snd (Restart host m w unit))"
| sib_reload: "sib_step m w (snd (DaemonReload host w))"
| sib_status: "sib_step m w (snd (StatusUnit host m w unit))"

inductive sib_reach :: "Manager \<Rightarrow> world \<Rightarrow> world \<Rightarrow> bool" for m w0 where
  sib_refl: "sib_reach m w0 w0"
| sib_trans: "sib_reach m w0 w \<Longrightarrow> sib_step m w w' \<Longrightarrow> sib_reach m w0 w'"

text \<open>The commands the house rule permits.\<close>

definition permitted_call :: "Manager \<Rightarrow> string list \<Rightarrow> bool" where
  "permitted_call m argv \<longleftrightarrow>
     argv = [''systemctl'', ''daemon-reload''] \<or>
     (\<exists>unit verb. argv = ''systemctl'' # verb @ [unit] \<and>
        verb \<in> {[''start''], [''stop''], [''enable'', ''--now''], [''disable'', ''--now''], [''restart''],
               [''show'', ''--property=ActiveState'', ''--value'']} \<and> Allow m unit)"

lemma Allow_iff:
  "Allow (NewManager allowed templates) unit \<longleftrightarrow>
     unit \<in> set allowed \<or> (\<exists>t \<in> set templates. prefix (TrimSuffix t ''.service'') unit)"
  by (auto simp: Allow_def NewManager_def list_ex_iff HasPrefix_def)

lemma guarded_world:
  "snd (guarded host m w unit args) =
     (if Allow m unit then w\<lparr>w_calls := w_calls w @ [''systemctl'' # args]\<rparr> else w)"
  by (simp add: guarded_def checkAllowed_def systemctl_def run_cmd_def case_prod_beta Let_def)

lemma DaemonReload_world:
  "snd (DaemonReload host w) = w\<lparr>w_calls := w_calls w @ [[''systemctl'', ''daemon-reload'']]\<rparr>"
  by (simp add: DaemonReload_def systemctl_def run_cmd_def case_prod_beta Let_def)

lemma StatusUnit_world:
  "snd (StatusUnit host m w unit) =
     (if Allow m unit
      then w\<lparr>w_calls := w_calls w @ [[''systemctl'', ''show'', ''--property=ActiveState'', ''--value'', unit]]\<rparr>
      else w)"
  by (simp add: StatusUnit_def checkAllowed_def run_cmd_def case_prod_beta Let_def)

lemmas sibling_ops = Start_def Stop_def Enable_def Disable_def Restart_def

lemma sib_step_calls:
  assumes "sib_step m w w'"
  shows "w_files w' = w_files w \<and> (\<exists>new. w_calls w' = w_calls w @ new \<and> (\<forall>c \<in> set new. permitted_call m c))"
  using assms
  by cases (auto simp: sibling_ops guarded_world DaemonReload_world StatusUnit_world permitted_call_def
      split: if_splits)

lemma sib_reach_calls:
  "sib_reach m w0 w \<Longrightarrow>
     w_files w = w_files w0 \<and> (\<exists>new. w_calls w = w_calls w0 @ new \<and> (\<forall>c \<in> set new. permitted_call m c))"
proof (induction rule: sib_reach.induct)
  case (sib_trans w w')
  then obtain new new' where "w_calls w = w_calls w0 @ new" "\<forall>c \<in> set new. permitted_call m c"
    "w_calls w' = w_calls w @ new'" "\<forall>c \<in> set new'. permitted_call m c"
    using sib_step_calls by blast
  with sib_trans sib_step_calls [of m w w'] show ?case by (intro conjI exI [of _ "new @ new'"]) auto
qed simp

subsection \<open>Stopping several units\<close>

text \<open>What the drain sequence needs of a unit manager.\<close>

locale unit_stopper =
  fixes stop :: "'w \<Rightarrow> string \<Rightarrow> 'e option \<times> 'w"
    and allow :: "string \<Rightarrow> bool"
    and calls :: "'w \<Rightarrow> string list list"
    and cmd :: "string \<Rightarrow> string list"
  assumes stop_allowed: "allow u \<Longrightarrow> calls (snd (stop w u)) = calls w @ [cmd u]"
    and stop_denied: "\<not> allow u \<Longrightarrow> stop w u = (e, w') \<Longrightarrow> w' = w \<and> e \<noteq> None"
begin

primrec stop_all :: "string list \<Rightarrow> 'w \<Rightarrow> 'w" where
  "stop_all [] w = w"
| "stop_all (u # us) w = stop_all us (snd (stop w u))"

lemma stop_all_calls: "calls (stop_all us w) = calls w @ map cmd (filter allow us)"
proof (induction us arbitrary: w)
  case (Cons u us)
  have "snd (stop w u) = w" if "\<not> allow u" using stop_denied [OF that] by (cases "stop w u") auto
  with Cons stop_allowed show ?case by (cases "allow u") auto
qed simp

end

interpretation stopper: unit_stopper "Stop host m" "Allow m" w_calls "\<lambda>u. [''systemctl'', ''stop'', u]" for host m
proof (unfold_locales, goal_cases)
  case (1 u w)
  then show ?case by (simp add: Stop_def guarded_world)
next
  case (2 u w e w')
  then show ?case by (auto simp: Stop_def guarded_def checkAllowed_def)
qed

subsection \<open>Properties\<close>

text \<open>
  C23: whatever sequence of manager operations is requested and however \<open>systemctl\<close> answers, the only
  commands executed are \<open>systemctl daemon-reload\<close> and the six verbs on units that the allowlist
  names or that start with an ephemeral template's prefix; no file is touched.
\<close>
theorem only_allowed_units_touched:
  assumes "sib_reach (NewManager allowed templates) w0 w"
  shows "w_files w = w_files w0 \<and>
    (\<exists>new. w_calls w = w_calls w0 @ new \<and>
       (\<forall>argv \<in> set new. argv = [''systemctl'', ''daemon-reload''] \<or>
          (\<exists>unit verb. argv = ''systemctl'' # verb @ [unit] \<and>
             verb \<in> {[''start''], [''stop''], [''enable'', ''--now''], [''disable'', ''--now''], [''restart''],
                    [''show'', ''--property=ActiveState'', ''--value'']} \<and>
             (unit \<in> set allowed \<or> (\<exists>t \<in> set templates. prefix (TrimSuffix t ''.service'') unit)))))"
  using sib_reach_calls [OF assms] unfolding permitted_call_def Allow_iff .

theorem only_allowed_units_touched_witness:
  "w_files (snd (Stop (\<lambda>_ _. ([], False)) (NewManager [''pmx-storage.service''] []) \<lparr>w_calls = [], w_files = Map.empty\<rparr>
     ''sshd.service'')) = Map.empty"
proof -
  have "sib_reach (NewManager [''pmx-storage.service''] []) \<lparr>w_calls = [], w_files = Map.empty\<rparr>
    (snd (Stop (\<lambda>_ _. ([], False)) (NewManager [''pmx-storage.service''] []) \<lparr>w_calls = [], w_files = Map.empty\<rparr> ''sshd.service''))"
    by (rule sib_trans [OF sib_refl sib_stop])
  from only_allowed_units_touched [OF this] show ?thesis by simp
qed

end
