(* ===== verification/Wire_Router.thy ===== *)
theory Wire_Router
  imports Host_World Envelope_Verify Tables
begin

text \<open>
  The command dispatcher of \<open>src/core/internal/wire/router.go\<close>. A handler is a function of the state
  it may change and the verified envelope; a duplicate registration panics (\<^const>\<open>None\<close>). Log lines
  are left out.
\<close>

datatype handler_error = ErrUnknownCommand string | HandlerError string

type_synonym 'w handler = "'w \<Rightarrow> Envelope \<Rightarrow> (bytes \<times> handler_error option) \<times> 'w"

record 'w Router =
  rt_handlers :: "string \<rightharpoonup> 'w handler"

definition NewRouter :: "'w Router" where
  "NewRouter = \<lparr>rt_handlers = Map.empty\<rparr>"

definition Register :: "string \<Rightarrow> 'w handler \<Rightarrow> 'w Router \<Rightarrow> 'w Router option" where
  "Register command h r =
     (if rt_handlers r command \<noteq> None then None
      else Some (r\<lparr>rt_handlers := (rt_handlers r)(command \<mapsto> h)\<rparr>))"

definition unknown_payload :: "string \<Rightarrow> bytes" where
  "unknown_payload command = marshal_strings [(''error'', ''UNKNOWN_COMMAND''), (''command'', command)]"

definition Dispatch :: "'w Router \<Rightarrow> 'w \<Rightarrow> Envelope \<Rightarrow> (bytes \<times> handler_error option) \<times> 'w" where
  "Dispatch r w env =
     (case rt_handlers r (Command env) of
        None \<Rightarrow> ((unknown_payload (Command env), Some (ErrUnknownCommand (Command env))), w)
      | Some h \<Rightarrow> h w env)"

text \<open>\<open>Commands\<close> returns the keys in the order Go happens to iterate over them.\<close>

definition Commands :: "'w Router \<Rightarrow> string list \<Rightarrow> string list" where
  "Commands r iteration = filter (\<lambda>k. rt_handlers r k \<noteq> None) iteration"

definition register_pair :: "string \<times> 'w handler \<Rightarrow> 'w Router \<Rightarrow> 'w Router option" where
  "register_pair p r = Register (fst p) (snd p) r"

definition find_pair :: "'w Router \<Rightarrow> string \<Rightarrow> (string \<times> 'w handler) option" where
  "find_pair r k = map_option (\<lambda>h. (k, h)) (rt_handlers r k)"

interpretation routes: name_table NewRouter register_pair fst find_pair
  by unfold_locales
    (auto simp: NewRouter_def register_pair_def Register_def find_pair_def fun_eq_iff split: if_splits)

subsection \<open>Properties\<close>

text \<open>
  Registering handlers under distinct commands never panics, and afterwards an envelope runs
  exactly the handler registered for its command; an envelope with any other command is answered
  with \<open>UNKNOWN_COMMAND\<close> and changes nothing.
\<close>
lemma dispatch_runs_registered_handler:
  assumes "distinct (map fst hs)"
  shows "\<exists>r. routes.add_all hs NewRouter = Some r \<and>
    (\<forall>w env. Dispatch r w env =
       (case map_of hs (Command env) of
          Some h \<Rightarrow> h w env
        | None \<Rightarrow> ((unknown_payload (Command env), Some (ErrUnknownCommand (Command env))), w)))"
proof -
  obtain r where r: "routes.add_all hs NewRouter = Some r"
    and find: "\<And>k. find_pair r k = map_of (map (\<lambda>v. (fst v, v)) hs) k"
    using routes.add_all_empty [OF assms] by blast
  have "map_of (map (\<lambda>v. (fst v, v)) hs) k = map_option (\<lambda>h. (k, h)) (map_of hs k)" for k
    by (induction hs) auto
  then have "rt_handlers r k = map_of hs k" for k
    using find [of k] by (cases "rt_handlers r k"; cases "map_of hs k") (auto simp: find_pair_def)
  with r show ?thesis by (auto simp: Dispatch_def split: option.split)
qed

lemma dispatch_runs_registered_handler_witness:
  "\<exists>r. routes.add_all [(''ping'', \<lambda>w env. ((''pong'', None), w + 1))] NewRouter = Some r \<and>
     Dispatch r (0 :: nat) (sample_envelope 0) =
       ((unknown_payload ''core.drain'', Some (ErrUnknownCommand ''core.drain'')), 0) \<and>
     Dispatch r (0 :: nat) ((sample_envelope 0)\<lparr>Command := ''ping''\<rparr>) = ((''pong'', None), 1)"
proof -
  obtain r where r: "routes.add_all [(''ping'', \<lambda>w env. ((''pong'', None), w + 1))] NewRouter = Some r"
    "\<forall>w env. Dispatch r w env =
       (case map_of [(''ping'', \<lambda>w env. ((''pong'', None), w + 1))] (Command env) of
          Some h \<Rightarrow> h w env
        | None \<Rightarrow> ((unknown_payload (Command env), Some (ErrUnknownCommand (Command env))), w :: nat))"
    using dispatch_runs_registered_handler
      [of "[(''ping'', \<lambda>w env. ((''pong'', None), w + 1)) :: string \<times> nat handler]"] by auto
  then show ?thesis by (intro exI [of _ r]) (simp add: sample_envelope_def)
qed

end
