(* ===== verification/Drain.thy ===== *)
theory Drain
  imports Siblings Wire_Router
begin

text \<open>
  Graceful shutdown, \<open>src/core/internal/drain/drain.go\<close>. \<open>Handle\<close> sets the flag and starts a goroutine;
  the goroutine's progress is a step relation, so other activity of the agent can interleave with
  it: it waits (for the grace period or the timeout), stops the siblings one by one, ignoring
  failures, and cancels the root context.
\<close>

datatype run_phase = Waiting | Stopping "string list" | Finished

record Drainer =
  dr_draining :: bool
  dr_runs :: "run_phase list"
  dr_rootCancelled :: bool
  dr_world :: world

definition NewDrainer :: "world \<Rightarrow> Drainer" where
  "NewDrainer w = \<lparr>dr_draining = False, dr_runs = [], dr_rootCancelled = False, dr_world = w\<rparr>"

definition IsDraining :: "Drainer \<Rightarrow> bool" where
  "IsDraining d = dr_draining d"

definition allowedUnits :: "string list" where
  "allowedUnits =
     [''pmx-telemetry.service'', ''pmx-hypervisor.service'', ''pmx-storage.service'',
      ''pmx-network.service'', ''pmx-security.service'', ''pmx-backup.service'']"

definition HandleDrain :: "Drainer handler" where
  "HandleDrain d env =
     (if IsDraining d then ((marshal_strings [(''status'', ''already_draining'')], None), d)
      else ((marshal_strings [(''status'', ''draining'')], None),
            d\<lparr>dr_draining := True, dr_runs := dr_runs d @ [Waiting]\<rparr>))"

definition DrainStatus :: "Drainer \<Rightarrow> json" where
  "DrainStatus d = JObj [(''draining'', JBool (IsDraining d))]"

definition RejectIfDraining :: "Drainer \<Rightarrow> bytes option" where
  "RejectIfDraining d =
     (if \<not> IsDraining d then None
      else Some (marshal_strings
        [(''error'', ''DRAINING''), (''message'', ''pmx-core is draining, no new commands accepted'')]))"

text \<open>One step of goroutine \<open>i\<close>.\<close>

inductive run_step :: "host \<Rightarrow> Manager \<Rightarrow> Drainer \<Rightarrow> Drainer \<Rightarrow> bool" for host m where
  run_grace: "i < length (dr_runs d) \<Longrightarrow> dr_runs d ! i = Waiting \<Longrightarrow>
    run_step host m d (d\<lparr>dr_runs := (dr_runs d)[i := Stopping allowedUnits]\<rparr>)"
| run_stop: "i < length (dr_runs d) \<Longrightarrow> dr_runs d ! i = Stopping (u # us) \<Longrightarrow>
    run_step host m d (d\<lparr>dr_runs := (dr_runs d)[i := Stopping us],
                         dr_world := snd (Stop host m (dr_world d) u)\<rparr>)"
| run_cancel: "i < length (dr_runs d) \<Longrightarrow> dr_runs d ! i = Stopping [] \<Longrightarrow>
    run_step host m d (d\<lparr>dr_runs := (dr_runs d)[i := Finished], dr_rootCancelled := True\<rparr>)"

inductive drain_reach :: "host \<Rightarrow> Manager \<Rightarrow> world \<Rightarrow> Drainer \<Rightarrow> bool" for host m w where
  drain_start: "drain_reach host m w (NewDrainer w)"
| drain_handle: "drain_reach host m w d \<Longrightarrow> drain_reach host m w (snd (HandleDrain d env))"
| drain_run: "drain_reach host m w d \<Longrightarrow> run_step host m d d' \<Longrightarrow> drain_reach host m w d'"

inductive_cases run_stepE: "run_step host m d d'"

text \<open>The calls of the units stopped so far.\<close>

definition stop_calls :: "Manager \<Rightarrow> string list \<Rightarrow> string list list" where
  "stop_calls m us = map (\<lambda>u. [''systemctl'', ''stop'', u]) (filter (Allow m) us)"

text \<open>What every reachable state satisfies: one goroutine at most, and its progress matches the calls.\<close>

fun phase_ok :: "Manager \<Rightarrow> world \<Rightarrow> Drainer \<Rightarrow> run_phase list \<Rightarrow> bool" where
  "phase_ok m w d [] = (\<not> dr_draining d \<and> \<not> dr_rootCancelled d \<and> dr_world d = w)"
| "phase_ok m w d [Waiting] = (dr_draining d \<and> \<not> dr_rootCancelled d \<and> dr_world d = w)"
| "phase_ok m w d [Stopping us] =
     (dr_draining d \<and> \<not> dr_rootCancelled d \<and>
      (\<exists>done. allowedUnits = done @ us \<and> w_calls (dr_world d) = w_calls w @ stop_calls m done))"
| "phase_ok m w d [Finished] =
     (dr_draining d \<and> dr_rootCancelled d \<and> w_calls (dr_world d) = w_calls w @ stop_calls m allowedUnits)"
| "phase_ok m w d _ = False"

lemma phase_ok_single: "phase_ok m w d rs \<Longrightarrow> i < length rs \<Longrightarrow> rs = [rs ! i] \<and> i = 0"
  by (induction m w d rs rule: phase_ok.induct) auto

lemma phase_ok_idle:
  "phase_ok m w d rs \<Longrightarrow> \<not> dr_draining d \<Longrightarrow> rs = [] \<and> \<not> dr_rootCancelled d \<and> dr_world d = w"
  by (induction m w d rs rule: phase_ok.induct) auto

lemma stop_calls_append: "stop_calls m (us @ vs) = stop_calls m us @ stop_calls m vs"
  by (simp add: stop_calls_def)

lemma Stop_stop_calls: "w_calls (snd (Stop host m w u)) = w_calls w @ stop_calls m [u]"
  using stopper.stop_all_calls [of host m "[u]" w] by (simp add: stop_calls_def)

lemma run_step_ok:
  assumes "run_step host m d d'" and "phase_ok m w d (dr_runs d)"
  shows "phase_ok m w d' (dr_runs d')"
  using assms(1)
proof cases
  case (run_grace i)
  with phase_ok_single [OF assms(2), of i] assms(2) have "dr_runs d = [Waiting]" by simp
  with run_grace assms(2) phase_ok_single [OF assms(2), of i] show ?thesis by (simp add: stop_calls_def)
next
  case (run_stop i u us)
  with phase_ok_single [OF assms(2), of i] have "dr_runs d = [Stopping (u # us)]" "i = 0" by simp_all
  with assms(2) obtain "done" where "allowedUnits = (done @ [u]) @ us"
    "w_calls (dr_world d) = w_calls w @ stop_calls m done" "dr_draining d" "\<not> dr_rootCancelled d"
    by auto
  with run_stop \<open>i = 0\<close> \<open>dr_runs d = _\<close> show ?thesis
    using Stop_stop_calls [of host m "dr_world d" u] stop_calls_append [of m "done" "[u]"]
    by (auto intro!: exI [of _ "done @ [u]"])
next
  case (run_cancel i)
  with phase_ok_single [OF assms(2), of i] have "dr_runs d = [Stopping []]" "i = 0" by simp_all
  with run_cancel assms(2) show ?thesis by simp
qed

lemma drain_reach_ok: "drain_reach host m w d \<Longrightarrow> phase_ok m w d (dr_runs d)"
proof (induction rule: drain_reach.induct)
  case (drain_handle d env)
  show ?case
  proof (cases "dr_draining d")
    case False
    with phase_ok_idle [OF drain_handle.IH] have "dr_runs d = []" "\<not> dr_rootCancelled d" "dr_world d = w"
      by simp_all
    with False show ?thesis by (simp add: HandleDrain_def IsDraining_def)
  qed (use drain_handle.IH in \<open>simp add: HandleDrain_def IsDraining_def\<close>)
qed (auto simp: NewDrainer_def intro: run_step_ok)

fun phase_steps :: "run_phase \<Rightarrow> nat" where
  "phase_steps Waiting = length allowedUnits + 2"
| "phase_steps (Stopping us) = length us + 1"
| "phase_steps Finished = 0"

definition remaining :: "Drainer \<Rightarrow> nat" where
  "remaining d = sum_list (map phase_steps (dr_runs d))"

lemma sum_list_update_less:
  "i < length xs \<Longrightarrow> f y < (f (xs ! i) :: nat) \<Longrightarrow> sum_list (map f (xs[i := y])) < sum_list (map f xs)"
proof (induction xs arbitrary: i)
  case (Cons x xs)
  then show ?case by (cases i) auto
qed simp

lemma run_step_remaining: "run_step host m d d' \<Longrightarrow> remaining d' < remaining d"
  by (auto simp: remaining_def elim!: run_stepE intro!: sum_list_update_less)

lemma run_step_enabled:
  assumes "phase_ok m w d (dr_runs d)" "dr_draining d" "\<not> dr_rootCancelled d"
  shows "\<exists>d'. run_step host m d d'"
proof -
  obtain p where p: "dr_runs d = [p]" "p \<noteq> Finished"
    using assms by (cases "(m, w, d, dr_runs d)" rule: phase_ok.cases) auto
  show ?thesis
  proof (cases p)
    case Waiting
    with p show ?thesis using run_grace [of 0 d host m] by auto
  next
    case (Stopping us)
    with p show ?thesis
      using run_stop [of 0 d _ _ host m] run_cancel [of 0 d host m] by (cases us) fastforce+
  qed (use p in simp)
qed

subsection \<open>Properties\<close>


definition sample_world :: world where
  "sample_world = \<lparr>w_calls = [], w_files = Map.empty\<rparr>"

definition sample_host :: host where
  "sample_host n argv = ([], True)"

definition draining_sample :: Drainer where
  "draining_sample = \<lparr>dr_draining = True, dr_runs = [Waiting], dr_rootCancelled = False, dr_world = sample_world\<rparr>"

lemma draining_sample_reached: "drain_reach sample_host m sample_world draining_sample"
  using drain_handle [OF drain_start [of sample_host m sample_world], of "sample_envelope 0"]
  by (simp add: HandleDrain_def IsDraining_def NewDrainer_def draining_sample_def)




end
