(* ===== verification/Core_Config.thy ===== *)
theory Core_Config
  imports Siblings Drain
begin

text \<open>
  The configuration of pmx-core, \<open>src/core/internal/config/config.go\<close>. The TOML decoder is a parameter:
  it returns the configuration and the keys of the file that no field took, in the order of the file.
  Strings and lists that the file leaves out are empty, numbers 0, as in Go's zero value.
\<close>

record BackendConfig =
  be_URL :: string
  be_CACert :: string
  be_AuthToken :: string

record IdentityConfig =
  id_Cert :: string
  id_Key :: string
  id_HostFingerprintFile :: string

record KeysetConfig =
  kc_Path :: string

record StateConfig =
  st_Dir :: string

record SiblingsConfig =
  sb_Allowed :: "string list"
  sb_EphemeralTemplates :: "string list"

record HeartbeatConfig =
  hb_IntervalSeconds :: int
  hb_TimeoutSeconds :: int

record Config =
  cf_Backend :: BackendConfig
  cf_Identity :: IdentityConfig
  cf_Keyset :: KeysetConfig
  cf_State :: StateConfig
  cf_Siblings :: SiblingsConfig
  cf_Heartbeat :: HeartbeatConfig

datatype config_error =
    ConfigRead string
  | ConfigParse string
  | UnknownKey string
  | URLRequired
  | URLScheme string
  | AllowedEmpty

type_synonym toml = "string \<Rightarrow> string + (Config \<times> string list)"

definition HeartbeatInterval :: "HeartbeatConfig \<Rightarrow> duration" where
  "HeartbeatInterval h =
     (if hb_IntervalSeconds h \<le> 0 then 15 * Second else wrap64 (hb_IntervalSeconds h * Second))"

definition HeartbeatTimeout :: "HeartbeatConfig \<Rightarrow> duration" where
  "HeartbeatTimeout h =
     (if hb_TimeoutSeconds h \<le> 0 then 45 * Second else wrap64 (hb_TimeoutSeconds h * Second))"

text \<open>Validation fills in defaults as it goes; on an error nobody sees the half-filled value.\<close>

definition validate :: "Config \<Rightarrow> config_error + Config" where
  "validate c =
     (if be_URL (cf_Backend c) = [] then Inl URLRequired
      else if \<not> HasPrefix (be_URL (cf_Backend c)) ''wss://'' \<and> \<not> HasPrefix (be_URL (cf_Backend c)) ''ws://''
      then Inl (URLScheme (be_URL (cf_Backend c)))
      else
        let c = (if kc_Path (cf_Keyset c) = []
                 then c\<lparr>cf_Keyset := (cf_Keyset c)\<lparr>kc_Path := ''/etc/pmx-cloud/keyset.pub''\<rparr>\<rparr> else c);
            c = (if st_Dir (cf_State c) = []
                 then c\<lparr>cf_State := (cf_State c)\<lparr>st_Dir := ''/var/lib/pmx-cloud/core''\<rparr>\<rparr> else c)
        in if sb_Allowed (cf_Siblings c) = [] then Inl AllowedEmpty
           else
             let c = (if hb_IntervalSeconds (cf_Heartbeat c) \<le> 0
                      then c\<lparr>cf_Heartbeat := (cf_Heartbeat c)\<lparr>hb_IntervalSeconds := 15\<rparr>\<rparr> else c);
                 c = (if hb_TimeoutSeconds (cf_Heartbeat c) \<le> 0
                      then c\<lparr>cf_Heartbeat := (cf_Heartbeat c)\<lparr>hb_TimeoutSeconds := 45\<rparr>\<rparr> else c)
             in Inr c)"

definition ParseConfig :: "toml \<Rightarrow> bytes \<Rightarrow> config_error + Config" where
  "ParseConfig toml data =
     (case toml data of
        Inl e \<Rightarrow> Inl (ConfigParse e)
      | Inr (cfg, undecoded) \<Rightarrow>
          (case undecoded of key # _ \<Rightarrow> Inl (UnknownKey key) | [] \<Rightarrow> validate cfg))"

definition LoadConfig :: "toml \<Rightarrow> (string \<rightharpoonup> bytes) \<Rightarrow> string \<Rightarrow> config_error + Config" where
  "LoadConfig toml fs path =
     (case fs path of None \<Rightarrow> Inl (ConfigRead path) | Some data \<Rightarrow> ParseConfig toml data)"

definition DefaultConfig :: Config where
  "DefaultConfig =
     \<lparr>cf_Backend = \<lparr>be_URL = ''wss://localhost:8443/ws/agent/core'',
                    be_CACert = ''/etc/pmx-cloud/backend-ca.crt'', be_AuthToken = []\<rparr>,
      cf_Identity = \<lparr>id_Cert = ''/etc/pmx-cloud/pmx-core/client.crt'',
                     id_Key = ''/etc/pmx-cloud/pmx-core/client.key'',
                     id_HostFingerprintFile = ''/etc/pmx-cloud/host-fingerprint''\<rparr>,
      cf_Keyset = \<lparr>kc_Path = ''/etc/pmx-cloud/keyset.pub''\<rparr>,
      cf_State = \<lparr>st_Dir = ''/var/lib/pmx-cloud/core''\<rparr>,
      cf_Siblings = \<lparr>sb_Allowed =
          [''pmx-telemetry.service'', ''pmx-hypervisor.service'', ''pmx-storage.service'',
           ''pmx-network.service'', ''pmx-security.service'', ''pmx-backup.service''],
        sb_EphemeralTemplates =
          [''pmx-hardware-installer@.service'', ''pmx-updater@.service'', ''pmx-console-broker@.service'']\<rparr>,
      cf_Heartbeat = \<lparr>hb_IntervalSeconds = 15, hb_TimeoutSeconds = 45\<rparr>\<rparr>"

subsection \<open>What an accepted configuration satisfies\<close>

definition config_ok :: "Config \<Rightarrow> bool" where
  "config_ok c \<longleftrightarrow>
     (HasPrefix (be_URL (cf_Backend c)) ''wss://'' \<or> HasPrefix (be_URL (cf_Backend c)) ''ws://'') \<and>
     kc_Path (cf_Keyset c) \<noteq> [] \<and> st_Dir (cf_State c) \<noteq> [] \<and> sb_Allowed (cf_Siblings c) \<noteq> [] \<and>
     0 < hb_IntervalSeconds (cf_Heartbeat c) \<and> 0 < hb_TimeoutSeconds (cf_Heartbeat c)"

lemma validate_ok: "validate c = Inr c' \<Longrightarrow> config_ok c'"
  by (auto simp: validate_def config_ok_def Let_def split: if_splits)

lemma validate_fixpoint: "config_ok c \<Longrightarrow> validate c = Inr c"
proof -
  assume ok: "config_ok c"
  have "be_URL (cf_Backend c) \<noteq> []" using ok by (auto simp: config_ok_def HasPrefix_def)
  with ok show ?thesis by (simp add: validate_def config_ok_def)
qed

lemma ParseConfig_ok: "ParseConfig toml data = Inr c \<Longrightarrow> config_ok c"
  by (auto simp: ParseConfig_def split: sum.splits list.splits dest: validate_ok)

lemma seconds_range:
  assumes "0 < n" and "n \<le> 9223372036"
  shows "wrap64 (n * Second) = n * Second" and "0 < wrap64 (n * Second)"
  using assms by (simp_all add: wrap64_def Second_def)

text \<open>
  C31: a configuration that is accepted needs no further check. Its backend URL has a WebSocket
  scheme, its paths and its allowlist are not empty, its heartbeat times are positive (durations too,
  up to 292 years), no key of the file was ignored, and validating it again changes nothing.
\<close>
theorem accepted_config_is_normalised:
  assumes "ParseConfig toml data = Inr c"
  shows "config_ok c \<and> validate c = Inr c \<and> (\<exists>c0. toml data = Inr (c0, []) \<and> validate c0 = Inr c) \<and>
    (hb_IntervalSeconds (cf_Heartbeat c) \<le> 9223372036 \<longrightarrow> 0 < HeartbeatInterval (cf_Heartbeat c)) \<and>
    (hb_TimeoutSeconds (cf_Heartbeat c) \<le> 9223372036 \<longrightarrow> 0 < HeartbeatTimeout (cf_Heartbeat c))"
proof -
  have ok: "config_ok c" by (rule ParseConfig_ok [OF assms])
  moreover have "\<exists>c0. toml data = Inr (c0, []) \<and> validate c0 = Inr c"
    using assms by (auto simp: ParseConfig_def split: sum.splits list.splits)
  ultimately show ?thesis
    using validate_fixpoint [OF ok] seconds_range(2)
    by (auto simp: config_ok_def HeartbeatInterval_def HeartbeatTimeout_def)
qed

theorem accepted_config_is_normalised_witness:
  "\<exists>c. ParseConfig (\<lambda>_. Inr (DefaultConfig\<lparr>cf_Keyset := \<lparr>kc_Path = []\<rparr>\<rparr>, [])) ''x'' = Inr c \<and> validate c = Inr c"
proof -
  have "ParseConfig (\<lambda>_. Inr (DefaultConfig\<lparr>cf_Keyset := \<lparr>kc_Path = []\<rparr>\<rparr>, [])) ''x'' = Inr DefaultConfig"
    by (simp add: ParseConfig_def validate_def DefaultConfig_def HasPrefix_def)
  with accepted_config_is_normalised [OF this] show ?thesis by blast
qed

end
