(* ===== verification/Atomic_File.thy ===== *)
theory Atomic_File
  imports Host_World Go_Paths
begin

text \<open>
  Replacing a file by writing a temporary one and renaming it over the target, as
  \<open>atomicWriteKeyset\<close> (\<open>src/core/internal/keyset/keyset.go\<close>) and \<open>atomicWrite\<close>
  (\<open>src/core/internal/enroll/enroll.go\<close>) do. Both are the sequence of system calls they issue, so that
  an interruption after any of them can be described; the call that fails, if any, is an argument,
  as is the temporary name the operating system picks.
\<close>

type_synonym files = "string \<rightharpoonup> bytes"

datatype fs_op =
    OpCreate string
  | OpWrite string bytes
  | OpSync string
  | OpChmod string nat
  | OpRename string string
  | OpRemove string

fun fs_apply :: "fs_op \<Rightarrow> files \<Rightarrow> files" where
  "fs_apply (OpCreate p) fs = fs(p \<mapsto> [])"
| "fs_apply (OpWrite p b) fs = fs(p := map_option (\<lambda>c. c @ b) (fs p))"
| "fs_apply (OpSync p) fs = fs"
| "fs_apply (OpChmod p m) fs = fs"
| "fs_apply (OpRename p q) fs = (fs(q := fs p))(p := None)"
| "fs_apply (OpRemove p) fs = fs(p := None)"

definition fs_run :: "fs_op list \<Rightarrow> files \<Rightarrow> files" where
  "fs_run ops fs = fold fs_apply ops fs"

text \<open>The system call that fails; a failing write may have written a part of the data.\<close>

datatype write_fault = FCreate | FWrite bytes | FSync | FChmod | FClose | FRename

definition atomicWriteKeyset ::
  "write_fault option \<Rightarrow> string \<Rightarrow> string \<Rightarrow> bytes \<Rightarrow> write_fault option \<times> fs_op list" where
  "atomicWriteKeyset fault tmpName path content =
     (let deferred = [OpRemove tmpName]; create = [OpCreate tmpName];
          written = create @ [OpWrite tmpName content]; synced = written @ [OpSync tmpName]
      in case fault of
        Some FCreate \<Rightarrow> (Some FCreate, [])
      | Some (FWrite part) \<Rightarrow> (Some (FWrite part), create @ [OpWrite tmpName part] @ deferred)
      | Some FSync \<Rightarrow> (Some FSync, written @ deferred)
      | Some FClose \<Rightarrow> (Some FClose, synced @ deferred)
      | Some FRename \<Rightarrow> (Some FRename, synced @ deferred)
      | _ \<Rightarrow> (None, synced @ [OpRename tmpName path] @ deferred))"

definition atomicWrite ::
  "write_fault option \<Rightarrow> string \<Rightarrow> string \<Rightarrow> bytes \<Rightarrow> nat \<Rightarrow> write_fault option \<times> fs_op list" where
  "atomicWrite fault tmpName path content mode =
     (let deferred = [OpRemove tmpName]; create = [OpCreate tmpName];
          written = create @ [OpWrite tmpName content]; moded = written @ [OpChmod tmpName mode]
      in case fault of
        Some FCreate \<Rightarrow> (Some FCreate, [])
      | Some (FWrite part) \<Rightarrow> (Some (FWrite part), create @ [OpWrite tmpName part] @ deferred)
      | Some FChmod \<Rightarrow> (Some FChmod, written @ deferred)
      | Some FClose \<Rightarrow> (Some FClose, moded @ deferred)
      | Some FRename \<Rightarrow> (Some FRename, moded @ deferred)
      | _ \<Rightarrow> (None, moded @ [OpRename tmpName path] @ deferred))"

subsection \<open>The contract of an atomic writer\<close>

text \<open>
  A writer (its failure, the temporary name, the target and the content) is atomic when, after any
  prefix of its system calls, the target holds its old content or the new one, and when it is done
  the target is new iff it reported no error, and every other file is as it was.
\<close>

locale atomic_writer =
  fixes writer :: "write_fault option \<Rightarrow> string \<Rightarrow> string \<Rightarrow> bytes \<Rightarrow> write_fault option \<times> fs_op list"
  assumes interrupted: "writer fault tmp path content = (r, ops) \<Longrightarrow> tmp \<noteq> path \<Longrightarrow>
      fs_run (take n ops) fs path \<in> {fs path, Some content}"
    and written: "writer fault tmp path content = (None, ops) \<Longrightarrow> tmp \<noteq> path \<Longrightarrow>
      fs_run ops fs = fs(path \<mapsto> content, tmp := None)"
    and failed: "writer fault tmp path content = (Some e, ops) \<Longrightarrow> tmp \<noteq> path \<Longrightarrow> fs tmp = None \<Longrightarrow>
      fs_run ops fs = fs"
    and interrupted_other: "writer fault tmp path content = (r, ops) \<Longrightarrow> q \<notin> {tmp, path} \<Longrightarrow>
      fs_run (take n ops) fs q = fs q"
begin

text \<open>Any number of writes to the same file, one of them interrupted: some complete version is there.\<close>

fun write_all :: "(write_fault option \<times> bytes) list \<Rightarrow> string \<Rightarrow> string \<Rightarrow> fs_op list" where
  "write_all [] tmp path = []"
| "write_all ((fault, c) # cs) tmp path = snd (writer fault tmp path c) @ write_all cs tmp path"

lemma fs_run_append: "fs_run (xs @ ys) fs = fs_run ys (fs_run xs fs)"
  by (simp add: fs_run_def)

lemma crash_leaves_a_version:
  "tmp \<noteq> path \<Longrightarrow> fs_run (take n (write_all cs tmp path)) fs path \<in> insert (fs path) (Some ` snd ` set cs)"
proof (induction cs arbitrary: n fs)
  case (Cons fc cs)
  obtain fault c where fc: "fc = (fault, c)" by (cases fc)
  obtain r ops where w: "writer fault tmp path c = (r, ops)" by (cases "writer fault tmp path c")
  have first: "fs_run (take n ops) fs path \<in> {fs path, Some c}"
    using interrupted [OF w Cons.prems] by blast
  show ?case
  proof (cases "n \<le> length ops")
    case True
    with first fc w show ?thesis by auto
  next
    case False
    then have "take n ops = ops" by simp
    with first have "fs_run ops fs path \<in> {fs path, Some c}" by simp
    then show ?thesis
      using Cons.IH [OF Cons.prems, of "n - length ops" "fs_run ops fs"] fc w \<open>take n ops = ops\<close>
      by (auto simp: fs_run_append)
  qed
qed (simp add: fs_run_def)

end

lemma fs_run_Nil [simp]: "fs_run [] fs = fs"
  and fs_run_Cons [simp]: "fs_run (op # ops) fs = fs_run ops (fs_apply op fs)"
  by (simp_all add: fs_run_def)

text \<open>A property of every state an interrupted run may leave.\<close>

fun always :: "(files \<Rightarrow> bool) \<Rightarrow> fs_op list \<Rightarrow> files \<Rightarrow> bool" where
  "always P [] fs = P fs"
| "always P (op # ops) fs = (P fs \<and> always P ops (fs_apply op fs))"

lemma always_take: "always P ops fs \<Longrightarrow> P (fs_run (take n ops) fs)"
proof (induction ops arbitrary: n fs)
  case (Cons op ops)
  then show ?case by (cases n) auto
qed simp

lemmas writer_defs = atomicWriteKeyset_def atomicWrite_def Let_def

interpretation keyset_writer: atomic_writer atomicWriteKeyset
proof (unfold_locales, goal_cases)
  case (1 fault tmp path content r ops n fs)
  then show ?case
    by (intro always_take [where P = "\<lambda>g. g path \<in> {fs path, Some content}"])
      (auto simp: writer_defs split: option.splits write_fault.splits)
next
  case (2 fault tmp path content ops fs)
  then show ?case by (auto simp: writer_defs fun_eq_iff split: option.splits write_fault.splits)
next
  case (3 fault tmp path content e ops fs)
  then show ?case by (auto simp: writer_defs fun_eq_iff split: option.splits write_fault.splits)
next
  case (4 fault tmp path content r ops q n fs)
  then show ?case
    by (intro always_take [where P = "\<lambda>g. g q = fs q"])
      (auto simp: writer_defs split: option.splits write_fault.splits)
qed

interpretation enroll_writer: atomic_writer "\<lambda>fault tmp path content. atomicWrite fault tmp path content 256"
proof (unfold_locales, goal_cases)
  case (1 fault tmp path content r ops n fs)
  then show ?case
    by (intro always_take [where P = "\<lambda>g. g path \<in> {fs path, Some content}"])
      (auto simp: writer_defs split: option.splits write_fault.splits)
next
  case (2 fault tmp path content ops fs)
  then show ?case by (auto simp: writer_defs fun_eq_iff split: option.splits write_fault.splits)
next
  case (3 fault tmp path content e ops fs)
  then show ?case by (auto simp: writer_defs fun_eq_iff split: option.splits write_fault.splits)
next
  case (4 fault tmp path content r ops q n fs)
  then show ?case
    by (intro always_take [where P = "\<lambda>g. g q = fs q"])
      (auto simp: writer_defs split: option.splits write_fault.splits)
qed

end
