(* ===== verification/Key_Rotation.thy ===== *)
theory Key_Rotation
  imports Atomic_File Wire_Router
begin

text \<open>
  The handler of \<open>core.keyset.update\<close>, \<open>src/core/internal/keyset/keyset.go\<close>: the new set is read from the
  parameters, parsed, written over the key file, and put in memory. The text of a parse error is the
  parameter \<open>show_err\<close>; texts of the operating system are left out of the error values.
\<close>

record rotation_state =
  rot_files :: files
  rot_keys :: KeySet

definition errorJSON :: "string \<Rightarrow> string \<Rightarrow> bytes" where
  "errorJSON code message = marshal_strings [(''error'', code), (''message'', message)]"

fun string_items :: "nat \<Rightarrow> any list \<Rightarrow> nat + string list" where
  "string_items i [] = Inr []"
| "string_items i (AStr s # items) = bind_result (string_items (Suc i) items) (\<lambda>ls. Inr (s # ls))"
| "string_items i (item # items) = Inl i"

definition rotation_content :: "Envelope \<Rightarrow> bytes + string" where
  "rotation_content env =
     (case Option.bind (Params env) (\<lambda>ps. ps ''keys'') of
        None \<Rightarrow> Inl (errorJSON ''MISSING_PARAM'' ''params.keys is required'')
      | Some (AArr items) \<Rightarrow>
          (case string_items 0 items of
             Inl i \<Rightarrow> Inl (errorJSON ''BAD_PARAM'' (''params.keys['' @ Itoa (int i) @ ''] is not a string''))
           | Inr lines \<Rightarrow> Inr (Join lines [newline]))
      | Some (AStr v) \<Rightarrow> Inr (Join (Split v newline) [newline])
      | Some _ \<Rightarrow> Inl (errorJSON ''BAD_PARAM'' ''params.keys must be a string or array of strings''))"

definition em_dash :: string where
  "em_dash = [CHR 0xE2, CHR 0x80, CHR 0x94]"

definition rotated_payload :: "KeySet \<Rightarrow> bytes" where
  "rotated_payload newKS =
     json_text (JObj [(''keyCount'', JNum (Itoa (int (LenKeySet newKS)))), (''ok'', JBool True)])"

definition HandleRotate ::
  "(keyset_error \<Rightarrow> string) \<Rightarrow> write_fault option \<Rightarrow> string \<Rightarrow> (nat \<Rightarrow> instant) \<Rightarrow> string \<Rightarrow>
   rotation_state handler" where
  "HandleRotate show_err fault tmpName nows path s env =
     (case rotation_content env of
        Inl payload \<Rightarrow> ((payload, None), s)
      | Inr content \<Rightarrow>
          (case ParseKeySet content of
             Inl err \<Rightarrow> ((errorJSON ''INVALID_KEYSET'' (show_err err), None), s)
           | Inr newKS \<Rightarrow>
               if LenKeySet newKS = 0
               then ((errorJSON ''EMPTY_KEYSET''
                        (''update would leave 0 active keys '' @ em_dash @ '' rejected''), None), s)
               else let (werr, ops) = atomicWriteKeyset fault tmpName path content;
                        s1 = s\<lparr>rot_files := fs_run ops (rot_files s)\<rparr>
                    in if werr \<noteq> None then (([], Some (HandlerError ''keyset: write'')), s1)
                       else case UpdateKeySet (Some newKS) nows of
                           Inl err \<Rightarrow> (([], Some (HandlerError (''keyset: reload: '' @ show_err err))), s1)
                         | Inr active \<Rightarrow> ((rotated_payload newKS, None), s1\<lparr>rot_keys := active\<rparr>)))"

text \<open>The cases of a rotation.\<close>

lemma HandleRotate_cases:
  assumes "HandleRotate show_err fault tmp nows path s env = ((payload, err), s')"
    and "tmp \<noteq> path" and "rot_files s tmp = None"
  obtains (refused) "s' = s"
  | (kept_keys) content ks where "rotation_content env = Inr content" "ParseKeySet content = Inr ks"
      "active_from nows 0 ks = []" "err \<noteq> None"
      "s' = s\<lparr>rot_files := (rot_files s)(path \<mapsto> content)\<rparr>"
  | (rotated) content ks where "rotation_content env = Inr content" "ParseKeySet content = Inr ks"
      "active_from nows 0 ks \<noteq> []" "err = None" "payload = rotated_payload ks"
      "s' = \<lparr>rot_files = (rot_files s)(path \<mapsto> content), rot_keys = active_from nows 0 ks\<rparr>"
proof (cases "rotation_content env")
  case (Inl e)
  with assms refused show ?thesis by (simp add: HandleRotate_def)
next
  case content: (Inr content)
  show ?thesis
  proof (cases "ParseKeySet content")
    case (Inl e)
    with content assms refused show ?thesis by (simp add: HandleRotate_def)
  next
    case ks: (Inr ks)
    obtain r ops where w: "atomicWriteKeyset fault tmp path content = (r, ops)"
      by (cases "atomicWriteKeyset fault tmp path content")
    have len: "LenKeySet ks \<noteq> 0" using ParseKeySet_ok [OF ks] by (simp add: LenKeySet_def)
    show ?thesis
    proof (cases r)
      case (Some e)
      with w keyset_writer.failed [of fault tmp path content e ops "rot_files s"] assms(2,3)
      have "fs_run ops (rot_files s) = rot_files s" by simp
      with Some w content ks assms(1) len refused show ?thesis by (simp add: HandleRotate_def)
    next
      case None
      have "fs_run ops (rot_files s) = (rot_files s)(path \<mapsto> content)"
        using keyset_writer.written [OF w [unfolded None] assms(2), of "rot_files s"] assms(2,3)
        by (simp add: fun_upd_idem fun_eq_iff)
      with None w content ks assms(1) len kept_keys rotated show ?thesis
        by (cases s) (auto simp: HandleRotate_def UpdateKeySet_def Let_def split: if_splits)
    qed
  qed
qed

lemma LoadKeySet_Parse:
  "fs path = Some content \<Longrightarrow> \<not> too_long (scan_lines content) \<Longrightarrow> LoadKeySet fs path = ParseKeySet content"
  by (simp add: LoadKeySet_def ParseKeySet_def Let_def)

subsection \<open>Properties\<close>


definition sample_key_line :: string where
  "sample_key_line = ''0101010101010101010101010101010101010101010101010101010101010101 2026-01-01T00:00:00Z''"

definition sample_rotation :: Envelope where
  "sample_rotation = (sample_envelope 0)\<lparr>Params := Some [''keys'' \<mapsto> AArr [AStr sample_key_line]]\<rparr>"

definition sample_key :: keyEntry where
  "sample_key = \<lparr>ke_pub = replicate 32 (CHR 0x01), ke_notAfter = 63902822400000000000\<rparr>"

lemma sample_rotation_content: "rotation_content sample_rotation = Inr sample_key_line"
  by (simp add: rotation_content_def sample_rotation_def bind_result_def)

lemma sample_key_line_scan: "scan_lines sample_key_line = \<lparr>tokens = [sample_key_line], too_long = False\<rparr>"
  by (rule scan_one_line) (simp_all add: sample_key_line_def newline_def max_token_def)

lemma sample_key_line_key: "keyset_line 1 sample_key_line = Inr (Some sample_key)"
  unfolding sample_key_line_def sample_key_def by code_simp

lemma sample_key_line_parse: "ParseKeySet sample_key_line = Inr [sample_key]"
  using sample_key_line_key by (simp add: ParseKeySet_def sample_key_line_scan bind_result_def)

lemma sample_key_active:
  "active_from (\<lambda>_. 5) 0 [sample_key] = [sample_key]" "active_from (\<lambda>_. 63902822400000000001) 0 [sample_key] = []"
  by (simp_all add: sample_key_def isActive_def Before_def IsZero_def)


text \<open>
  C40: a rotation to a set whose keys have all expired is answered with an error and leaves the keys in
  memory alone, but it has already replaced the key file: an agent that restarts from that file, at
  any time no earlier, accepts no signature at all.
\<close>
theorem expired_rotation_replaces_file:
  assumes "rotation_content env = Inr content" and "ParseKeySet content = Inr ks"
    and "\<And>i. active_from (\<lambda>_. now) i ks = []" and "\<not> too_long (scan_lines content)" and "tmp \<noteq> path"
    and "HandleRotate show_err None tmp (\<lambda>_. now) path s env = ((payload, err), s')"
  shows "err \<noteq> None \<and> rot_keys s' = rot_keys s \<and> LoadKeySet (rot_files s') path = Inr ks \<and>
    (\<forall>later ed_verify message signature. now \<le> later \<longrightarrow>
       \<not> VerifyKeySet ed_verify (\<lambda>_. later) ks message signature)"
proof -
  have w: "atomicWriteKeyset None tmp path content = (None, snd (atomicWriteKeyset None tmp path content))"
    by (simp add: writer_defs)
  have "ks \<noteq> []" using ParseKeySet_ok [OF assms(2)] by simp
  with assms(1,2,3,6) w have s': "err \<noteq> None" "rot_keys s' = rot_keys s"
    "rot_files s' = fs_run (snd (atomicWriteKeyset None tmp path content)) (rot_files s)"
    by (auto simp: HandleRotate_def UpdateKeySet_def Let_def LenKeySet_def split: prod.splits)
  moreover have "rot_files s' path = Some content"
    using keyset_writer.written [OF w assms(5), of "rot_files s"] assms(5) s'(3) by simp
  moreover have "\<not> isActive e later" if "e \<in> set ks" "now \<le> later" for e later
  proof -
    have "\<not> isActive e now" using assms(3) [of 0] that(1) by (auto simp: active_from_const filter_empty_conv)
    with that(2) show ?thesis using isActive_mono by blast
  qed
  ultimately show ?thesis
    using LoadKeySet_Parse [of "rot_files s'" path content] assms(2,4) by (auto simp: VerifyKeySet_const)
qed

theorem expired_rotation_replaces_file_witness:
  "\<exists>s'. snd (HandleRotate (\<lambda>_. []) None ''/etc/t'' (\<lambda>_. 63902822400000000001) ''/etc/k''
     \<lparr>rot_files = Map.empty, rot_keys = [sample_key]\<rparr> sample_rotation) = s' \<and>
     rot_keys s' = [sample_key] \<and> LoadKeySet (rot_files s') ''/etc/k'' = Inr [sample_key]"
proof -
  obtain p e s' where run: "HandleRotate (\<lambda>_. []) None ''/etc/t'' (\<lambda>_. 63902822400000000001) ''/etc/k''
     \<lparr>rot_files = Map.empty, rot_keys = [sample_key]\<rparr> sample_rotation = ((p, e), s')"
    by (metis surj_pair)
  have none: "active_from (\<lambda>_. 63902822400000000001) i [sample_key] = []" for i
    using sample_key_active(2) by (simp add: active_from_const)
  have scan: "\<not> too_long (scan_lines sample_key_line)" by (simp add: sample_key_line_scan)
  have "''/etc/t'' \<noteq> ''/etc/k''" by simp
  from expired_rotation_replaces_file [OF sample_rotation_content sample_key_line_parse none scan this run]
  show ?thesis using run by simp
qed

text \<open>
  C22: the key file is never torn. However many rotations write it, with whatever failures, and
  wherever the agent is interrupted, the file is what it was at the start or one of the complete
  key sets that were written.
\<close>
theorem key_file_never_torn:
  assumes "tmp \<noteq> path"
  shows "fs_run (take n (keyset_writer.write_all sets tmp path)) fs path \<in> insert (fs path) (Some ` snd ` set sets)"
  using keyset_writer.crash_leaves_a_version [OF assms] .

theorem key_file_never_torn_witness:
  "fs_run (take 5 (keyset_writer.write_all [(None, ''one''), (Some FRename, ''two'')] ''t'' ''k'')) [''k'' \<mapsto> ''zero''] ''k'' \<in>
     {Some ''zero'', Some ''one'', Some ''two''}"
  using key_file_never_torn [of "''t''" "''k''" 5 "[(None, ''one''), (Some FRename, ''two'')]" "[''k'' \<mapsto> ''zero'']"]
  by auto

end
