(* ===== verification/Enroll.thy ===== *)
theory Enroll
  imports Atomic_File
begin

text \<open>
  One-shot enrolment, \<open>src/core/internal/enroll/enroll.go\<close>. Key generation, certificate requests, the
  PKCS 8 and PEM encodings, the backend and the host description are fields of \<open>enroll_env\<close>, as are the
  failures of the file system and the temporary names it picks. A run yields its error, the requests
  it sent and the files it leaves.
\<close>

record EnrollConfig =
  ec_EnrollURL :: string
  ec_CertDir :: string
  ec_Token :: string

record enrollResponse =
  er_Certificate :: string
  er_Error :: string

datatype http_result = PostFailed | Response nat bytes

record enroll_env =
  ev_keypair :: "(bytes \<times> bytes) option"
  ev_fingerprint :: string
  ev_hostInfo :: json
  ev_csr :: "string \<Rightarrow> bytes \<Rightarrow> bytes \<Rightarrow> bytes option"
  ev_pem :: "string \<Rightarrow> bytes \<Rightarrow> string"
  ev_pkcs8 :: "bytes \<Rightarrow> bytes option"
  ev_url_ok :: "string \<Rightarrow> bool"
  ev_post :: "string \<Rightarrow> bytes \<Rightarrow> http_result"
  ev_mkdir_ok :: bool
  ev_cert_tmp :: string
  ev_cert_fault :: "write_fault option"
  ev_key_tmp :: string
  ev_key_fault :: "write_fault option"

datatype enroll_error =
    TokenRequired
  | EnrollURLRequired
  | CertExists string
  | GenerateKeypair
  | CreateCSR
  | BuildRequest
  | PostError string
  | BackendError string
  | DecodeResponse
  | EmptyCertificate
  | MkdirFailed string
  | WriteCert write_fault
  | MarshalKey
  | WriteKey write_fault

definition set_response_field :: "string \<Rightarrow> lit \<Rightarrow> enrollResponse \<Rightarrow> enrollResponse option" where
  "set_response_field k v r =
     (if k = ''CERTIFICATE'' then map_option (\<lambda>x. r\<lparr>er_Certificate := x\<rparr>) (dec_str v (er_Certificate r))
      else if k = ''ERROR'' then map_option (\<lambda>x. r\<lparr>er_Error := x\<rparr>) (dec_str v (er_Error r))
      else Some r)"

text \<open>The decoded response, and whether decoding reported no error.\<close>

definition decode_response :: "bytes \<Rightarrow> enrollResponse \<times> bool" where
  "decode_response body =
     (let zero = \<lparr>er_Certificate = [], er_Error = []\<rparr>
      in case first_value body of
        None \<Rightarrow> (zero, False)
      | Some v \<Rightarrow> dec_struct set_response_field v zero)"

definition enroll_request :: "enroll_env \<Rightarrow> string \<Rightarrow> string \<Rightarrow> bytes" where
  "enroll_request env csrPEM token =
     json_text (JObj [(''csr'', JStr csrPEM), (''token'', JStr token), (''capability'', ev_hostInfo env)])"

text \<open>Step 5: the certificate, then the key; the certificate is removed when the key cannot be written.\<close>

definition store_identity ::
  "enroll_env \<Rightarrow> string \<Rightarrow> string \<Rightarrow> bytes \<Rightarrow> string \<Rightarrow> files \<Rightarrow> enroll_error option \<times> files" where
  "store_identity env certPath keyPath priv certificate fs =
     (case atomicWrite (ev_cert_fault env) (ev_cert_tmp env) certPath certificate 256 of
        (Some e, ops) \<Rightarrow> (Some (WriteCert e), fs_run ops fs)
      | (None, ops) \<Rightarrow>
          (let fs1 = fs_run ops fs in
           case ev_pkcs8 env priv of
             None \<Rightarrow> (Some MarshalKey, fs1)
           | Some privDER \<Rightarrow>
               (case atomicWrite (ev_key_fault env) (ev_key_tmp env) keyPath
                       (ev_pem env ''PRIVATE KEY'' privDER) 256 of
                  (Some e, ops2) \<Rightarrow> (Some (WriteKey e), (fs_run ops2 fs1)(certPath := None))
                | (None, ops2) \<Rightarrow> (None, fs_run ops2 fs1))))"

definition EnrollRun ::
  "enroll_env \<Rightarrow> EnrollConfig \<Rightarrow> files \<Rightarrow> enroll_error option \<times> (string \<times> bytes) list \<times> files" where
  "EnrollRun env cfg fs =
     (let certPath = JoinPath [ec_CertDir cfg, ''client.crt''];
          keyPath = JoinPath [ec_CertDir cfg, ''client.key'']
      in
      if ec_Token cfg = [] then (Some TokenRequired, [], fs)
      else if ec_EnrollURL cfg = [] then (Some EnrollURLRequired, [], fs)
      else if fs certPath \<noteq> None then (Some (CertExists certPath), [], fs)
      else case ev_keypair env of
        None \<Rightarrow> (Some GenerateKeypair, [], fs)
      | Some (pub, priv) \<Rightarrow>
          (case ev_csr env (ev_fingerprint env) pub priv of
             None \<Rightarrow> (Some CreateCSR, [], fs)
           | Some csrDER \<Rightarrow>
               (let reqBody = enroll_request env (ev_pem env ''CERTIFICATE REQUEST'' csrDER) (ec_Token cfg)
                in
                if \<not> ev_url_ok env (ec_EnrollURL cfg) then (Some BuildRequest, [], fs)
                else let sent = [(ec_EnrollURL cfg, reqBody)] in
                  case ev_post env (ec_EnrollURL cfg) reqBody of
                    PostFailed \<Rightarrow> (Some (PostError (ec_EnrollURL cfg)), sent, fs)
                  | Response status body \<Rightarrow>
                      if status \<noteq> 200
                      then let msg = er_Error (fst (decode_response body));
                               msg = (if msg = [] then ''HTTP '' @ Itoa (int status) else msg)
                           in (Some (BackendError msg), sent, fs)
                      else let (resp, ok) = decode_response body in
                        if \<not> ok then (Some DecodeResponse, sent, fs)
                        else if er_Certificate resp = [] then (Some EmptyCertificate, sent, fs)
                        else if \<not> ev_mkdir_ok env then (Some (MkdirFailed (ec_CertDir cfg)), sent, fs)
                        else let (err, fs') = store_identity env certPath keyPath priv (er_Certificate resp) fs
                             in (err, sent, fs'))))"

subsection \<open>Storing the identity\<close>

text \<open>The two temporary names are new, and the four names are different.\<close>

definition temps_fresh :: "enroll_env \<Rightarrow> string \<Rightarrow> string \<Rightarrow> files \<Rightarrow> bool" where
  "temps_fresh env certPath keyPath fs \<longleftrightarrow>
     distinct [certPath, keyPath, ev_cert_tmp env, ev_key_tmp env] \<and>
     fs (ev_cert_tmp env) = None \<and> fs (ev_key_tmp env) = None"

lemma fun_upd_None_same: "f x = None \<Longrightarrow> f(x := None) = f"
  by auto

lemma store_identity_outcome:
  assumes "temps_fresh env certPath keyPath fs" and "fs certPath = None" and "ev_pkcs8 env priv = Some der"
    and "store_identity env certPath keyPath priv cert fs = (err, fs')"
  shows "if err = None then fs' = fs(certPath \<mapsto> cert, keyPath \<mapsto> ev_pem env ''PRIVATE KEY'' der) else fs' = fs"
proof -
  note fresh = assms(1) [unfolded temps_fresh_def]
  obtain e1 ops1 where w1: "atomicWrite (ev_cert_fault env) (ev_cert_tmp env) certPath cert 256 = (e1, ops1)"
    by fastforce
  show ?thesis
  proof (cases e1)
    case (Some e)
    then show ?thesis
      using assms(4) w1 enroll_writer.failed [OF w1 [unfolded Some], of fs] fresh by (auto simp: store_identity_def)
  next
    case None
    have fs1: "fs_run ops1 fs = fs(certPath \<mapsto> cert)"
      using enroll_writer.written [OF w1 [unfolded None], of fs] fresh by (auto simp: fun_upd_None_same fun_upd_twist)
    obtain e2 ops2 where w2: "atomicWrite (ev_key_fault env) (ev_key_tmp env) keyPath
        (ev_pem env ''PRIVATE KEY'' der) 256 = (e2, ops2)" by fastforce
    show ?thesis
    proof (cases e2)
      case (Some e)
      have "fs_run ops2 (fs(certPath \<mapsto> cert)) = fs(certPath \<mapsto> cert)"
        using enroll_writer.failed [OF w2 [unfolded Some], of "fs(certPath \<mapsto> cert)"] fresh by auto
      then show ?thesis using assms(2-4) w1 w2 None Some fs1 by (auto simp: store_identity_def)
    next
      case e2: None
      have "fs_run ops2 (fs(certPath \<mapsto> cert)) = fs(certPath \<mapsto> cert, keyPath \<mapsto> ev_pem env ''PRIVATE KEY'' der)"
        using enroll_writer.written [OF w2 [unfolded e2], of "fs(certPath \<mapsto> cert)"] fresh
        by (auto simp: fun_upd_None_same fun_upd_twist)
      then show ?thesis using assms(2-4) w1 w2 None e2 fs1 by (auto simp: store_identity_def)
    qed
  qed
qed

text \<open>A run either stops before it touches a file, or it is the storing of the identity it was sent.\<close>

lemma EnrollRun_cases:
  assumes "EnrollRun env cfg fs = (err, sent, fs')"
  obtains (stopped) "err \<noteq> None" "fs' = fs" "fs (JoinPath [ec_CertDir cfg, ''client.crt'']) \<noteq> None \<longrightarrow> sent = []"
  | (stored) priv cert body where "fs (JoinPath [ec_CertDir cfg, ''client.crt'']) = None" "cert \<noteq> []"
      "sent = [(ec_EnrollURL cfg, body)]"
      "store_identity env (JoinPath [ec_CertDir cfg, ''client.crt'']) (JoinPath [ec_CertDir cfg, ''client.key''])
         priv cert fs = (err, fs')"
proof -
  have "(err \<noteq> None \<and> fs' = fs \<and> (fs (JoinPath [ec_CertDir cfg, ''client.crt'']) \<noteq> None \<longrightarrow> sent = [])) \<or>
    (\<exists>priv cert body. fs (JoinPath [ec_CertDir cfg, ''client.crt'']) = None \<and> cert \<noteq> [] \<and>
      sent = [(ec_EnrollURL cfg, body)] \<and>
      store_identity env (JoinPath [ec_CertDir cfg, ''client.crt'']) (JoinPath [ec_CertDir cfg, ''client.key''])
         priv cert fs = (err, fs'))"
    using assms unfolding EnrollRun_def Let_def
    by (simp split: if_splits option.splits prod.splits http_result.splits; blast)
  with that show thesis by blast
qed


definition sample_body :: bytes where
  "sample_body = json_text (JObj [(''certificate'', JStr ''PEM'')])"

definition sample_enroll :: enroll_env where
  "sample_enroll =
     \<lparr>ev_keypair = Some (''pub'', ''priv''), ev_fingerprint = ''host'', ev_hostInfo = JObj [],
      ev_csr = (\<lambda>f p k. Some (f @ p)), ev_pem = (\<lambda>t b. t @ b), ev_pkcs8 = Some, ev_url_ok = (\<lambda>_. True),
      ev_post = (\<lambda>u b. Response 200 sample_body),
      ev_mkdir_ok = True, ev_cert_tmp = ''/p/a'', ev_cert_fault = None, ev_key_tmp = ''/p/b'', ev_key_fault = None\<rparr>"

lemma sample_response:
  "decode_response sample_body = (\<lparr>er_Certificate = ''PEM'', er_Error = []\<rparr>, True)"
proof -
  have "json_wf max_depth (JObj [(''certificate'', JStr ''PEM'')])" by (simp add: max_depth_def)
  moreover have "fold_name (unquote (json_escape ''certificate'')) = ''CERTIFICATE''"
    by (simp add: unquote_ascii fold_name_ascii byte_in_def char_of_def bit_0 del: fold_name.simps(2))
  ultimately show ?thesis
    using first_value_text [of "JObj [(''certificate'', JStr ''PEM'')]"]
    by (simp add: sample_body_def decode_response_def dec_struct_def set_response_field_def dec_str_def unquote_ascii)
qed


end
