(* ===== verification/Thresholds.thy ===== *)
theory Thresholds
  imports Go_Decode
begin

text \<open>
  The alert engine of the telemetry agent, \<open>src/telemetry/internal/thresholds/engine.go\<close>. The atomically
  swapped pointer is a field; the alert channel is the list of the alerts waiting in it, oldest
  first, and a send on a full channel drops the alert.
\<close>

record Threshold =
  th_ID :: string
  th_Metric :: string
  th_Op :: string
  th_Value :: float64
  th_ForSeconds :: float64
  th_Severity :: string

record Alert =
  al_ThresholdID :: string
  al_Metric :: string
  al_Value :: float64
  al_Severity :: string
  al_Cleared :: bool
  al_FiredAt :: instant

record thresholdState =
  ts_def :: Threshold
  ts_holdingSince :: instant
  ts_firedAt :: instant
  ts_cleared :: bool

record Engine =
  eg_active :: "thresholdState list"
  eg_AlertCh :: "Alert list"
  eg_debounce :: duration

record Metric =
  mt_Name :: string
  mt_Value :: float64

datatype threshold_error =
    ThresholdIDRequired | ThresholdMetricRequired | UnknownOp string | NegativeFor | UnknownSeverity string

datatype set_error = BadThreshold nat string threshold_error | BadJSON

definition alert_buffer :: nat where "alert_buffer = 256"

definition NewEngine :: Engine where
  "NewEngine = \<lparr>eg_active = [], eg_AlertCh = [], eg_debounce = 60 * Second\<rparr>"

definition evaluate :: "string \<Rightarrow> float64 \<Rightarrow> float64 \<Rightarrow> bool" where
  "evaluate op val threshold =
     (if op = ''<'' then float_lt val threshold
      else if op = ''>'' then float_lt threshold val
      else if op = ''<='' then float_le val threshold
      else if op = ''>='' then float_le threshold val
      else if op = ''rate-below'' then float_lt val threshold
      else if op = ''rate-above'' then float_lt threshold val
      else False)"

definition validateThreshold :: "Threshold \<Rightarrow> threshold_error option" where
  "validateThreshold t =
     (if th_ID t = [] then Some ThresholdIDRequired
      else if th_Metric t = [] then Some ThresholdMetricRequired
      else if th_Op t \<notin> set [''<'', ''>'', ''<='', ''>='', ''rate-below'', ''rate-above'']
      then Some (UnknownOp (th_Op t))
      else if float_neg (th_ForSeconds t) then Some NegativeFor
      else if th_Severity t \<notin> set [''warn'', ''page''] then Some (UnknownSeverity (th_Severity t))
      else None)"

fun first_invalid :: "nat \<Rightarrow> Threshold list \<Rightarrow> set_error option" where
  "first_invalid i [] = None"
| "first_invalid i (t # ts) =
     (case validateThreshold t of
        Some e \<Rightarrow> Some (BadThreshold i (th_ID t) e)
      | None \<Rightarrow> first_invalid (Suc i) ts)"

definition fresh_state :: "Threshold \<Rightarrow> thresholdState" where
  "fresh_state t = \<lparr>ts_def = t, ts_holdingSince = 0, ts_firedAt = 0, ts_cleared = False\<rparr>"

definition SetThresholds :: "Engine \<Rightarrow> Threshold list \<Rightarrow> set_error option \<times> Engine" where
  "SetThresholds e thresholds =
     (case first_invalid 0 thresholds of
        Some err \<Rightarrow> (Some err, e)
      | None \<Rightarrow> (None, e\<lparr>eg_active := map fresh_state thresholds\<rparr>))"

definition set_threshold_field :: "string \<Rightarrow> lit \<Rightarrow> Threshold \<Rightarrow> Threshold option" where
  "set_threshold_field k v t =
     (if k = ''ID'' then map_option (\<lambda>x. t\<lparr>th_ID := x\<rparr>) (dec_str v (th_ID t))
      else if k = ''METRIC'' then map_option (\<lambda>x. t\<lparr>th_Metric := x\<rparr>) (dec_str v (th_Metric t))
      else if k = ''OP'' then map_option (\<lambda>x. t\<lparr>th_Op := x\<rparr>) (dec_str v (th_Op t))
      else if k = ''VALUE'' then map_option (\<lambda>x. t\<lparr>th_Value := x\<rparr>) (dec_float v (th_Value t))
      else if k = ''FOR_SECONDS'' then map_option (\<lambda>x. t\<lparr>th_ForSeconds := x\<rparr>) (dec_float v (th_ForSeconds t))
      else if k = ''SEVERITY'' then map_option (\<lambda>x. t\<lparr>th_Severity := x\<rparr>) (dec_str v (th_Severity t))
      else Some t)"

definition zero_threshold :: Threshold where
  "zero_threshold = \<lparr>th_ID = [], th_Metric = [], th_Op = [], th_Value = Fin 0, th_ForSeconds = Fin 0, th_Severity = []\<rparr>"

definition SetFromJSON :: "Engine \<Rightarrow> bytes \<Rightarrow> set_error option \<times> Engine" where
  "SetFromJSON e data =
     (case Option.bind (json_lit data)
             (dec_slice (\<lambda>v. dec_struct set_threshold_field v zero_threshold)) of
        None \<Rightarrow> (Some BadJSON, e)
      | Some thresholds \<Rightarrow> SetThresholds e thresholds)"

text \<open>The latest value of a metric in a batch: the last one of its name.\<close>

definition latest :: "Metric list \<Rightarrow> string \<rightharpoonup> float64" where
  "latest metrics = map_of (rev (map (\<lambda>m. (mt_Name m, mt_Value m)) metrics))"

definition forDur :: "Threshold \<Rightarrow> duration" where
  "forDur t = float_int (float_mul (th_ForSeconds t) (Fin 1000000000))"

definition alert_of :: "thresholdState \<Rightarrow> float64 \<Rightarrow> bool \<Rightarrow> instant \<Rightarrow> Alert" where
  "alert_of s val cleared now =
     \<lparr>al_ThresholdID = th_ID (ts_def s), al_Metric = th_Metric (ts_def s), al_Value = val,
      al_Severity = th_Severity (ts_def s), al_Cleared = cleared, al_FiredAt = now\<rparr>"

text \<open>One threshold against its value: its new state and the alert to send, if any.\<close>

definition evaluate_state ::
  "duration \<Rightarrow> instant \<Rightarrow> float64 \<Rightarrow> thresholdState \<Rightarrow> thresholdState \<times> Alert option" where
  "evaluate_state debounce now val s =
     (if evaluate (th_Op (ts_def s)) val (th_Value (ts_def s))
      then let s1 = (if IsZero (ts_holdingSince s) then s\<lparr>ts_holdingSince := now\<rparr> else s)
           in if Sub now (ts_holdingSince s1) \<ge> forDur (ts_def s1) \<and>
                 (IsZero (ts_firedAt s1) \<or> (ts_cleared s1 \<and> Sub now (ts_firedAt s1) \<ge> debounce))
              then (s1\<lparr>ts_firedAt := now, ts_cleared := False\<rparr>, Some (alert_of s1 val False now))
              else (s1, None)
      else let s1 = (if \<not> IsZero (ts_holdingSince s) then s\<lparr>ts_holdingSince := 0\<rparr> else s)
           in if \<not> IsZero (ts_firedAt s1) \<and> \<not> ts_cleared s1
              then (s1\<lparr>ts_cleared := True\<rparr>, Some (alert_of s1 val True now))
              else (s1, None))"

definition send_alert :: "Alert option \<Rightarrow> Alert list \<Rightarrow> Alert list" where
  "send_alert a ch = (case a of Some al \<Rightarrow> if length ch < alert_buffer then ch @ [al] else ch | None \<Rightarrow> ch)"

fun evaluate_states ::
  "duration \<Rightarrow> instant \<Rightarrow> (string \<rightharpoonup> float64) \<Rightarrow> thresholdState list \<Rightarrow> Alert list \<Rightarrow> thresholdState list \<times> Alert list" where
  "evaluate_states debounce now vals [] ch = ([], ch)"
| "evaluate_states debounce now vals (s # ss) ch =
     (let (s', ch') = (case vals (th_Metric (ts_def s)) of
                         None \<Rightarrow> (s, ch)
                       | Some val \<Rightarrow> (let (s1, a) = evaluate_state debounce now val s in (s1, send_alert a ch)));
          (ss', ch'') = evaluate_states debounce now vals ss ch'
      in (s' # ss', ch''))"

definition Evaluate :: "instant \<Rightarrow> Metric list \<Rightarrow> Engine \<Rightarrow> Engine" where
  "Evaluate now metrics e =
     (let (ss, ch) = evaluate_states (eg_debounce e) now (latest metrics) (eg_active e) (eg_AlertCh e)
      in e\<lparr>eg_active := ss, eg_AlertCh := ch\<rparr>)"

subsection \<open>One threshold over time\<close>

text \<open>The samples a threshold sees, and the alerts it produces on them.\<close>

fun run_state :: "duration \<Rightarrow> (instant \<times> float64) list \<Rightarrow> thresholdState \<Rightarrow> Alert list \<times> thresholdState" where
  "run_state debounce [] s = ([], s)"
| "run_state debounce ((now, val) # xs) s =
     (let (s1, a) = evaluate_state debounce now val s; (as, s2) = run_state debounce xs s1
      in ((case a of None \<Rightarrow> [] | Some al \<Rightarrow> [al]) @ as, s2))"

definition holds :: "Threshold \<Rightarrow> float64 \<Rightarrow> bool" where
  "holds t val = evaluate (th_Op t) val (th_Value t)"

fun alternating :: "bool \<Rightarrow> Alert list \<Rightarrow> bool" where
  "alternating b [] = True"
| "alternating b (a # as) = (al_Cleared a = b \<and> alternating (\<not> b) as)"

text \<open>Successive firings are at least \<open>d\<close> apart; \<open>prev\<close> is the one before the list, if any.\<close>

fun spaced :: "duration \<Rightarrow> instant option \<Rightarrow> Alert list \<Rightarrow> bool" where
  "spaced d prev [] = True"
| "spaced d prev (a # as) =
     (if al_Cleared a then spaced d prev as
      else (case prev of None \<Rightarrow> True | Some p \<Rightarrow> Sub (al_FiredAt a) p \<ge> d) \<and> spaced d (Some (al_FiredAt a)) as)"

text \<open>Whether the last alert of a state was a firing, and when the last firing was.\<close>

definition alerting :: "thresholdState \<Rightarrow> bool" where
  "alerting s \<longleftrightarrow> \<not> IsZero (ts_firedAt s) \<and> \<not> ts_cleared s"

definition last_fired :: "thresholdState \<Rightarrow> instant option" where
  "last_fired s = (if IsZero (ts_firedAt s) then None else Some (ts_firedAt s))"

lemma evaluate_state_def_kept: "ts_def (fst (evaluate_state db now val s)) = ts_def s"
  by (simp add: evaluate_state_def Let_def)

lemma evaluate_state_alert_id:
  "snd (evaluate_state db now val s) = Some a \<Longrightarrow> al_ThresholdID a = th_ID (ts_def s)"
  by (auto simp: evaluate_state_def Let_def alert_of_def split: if_splits)

lemma evaluate_state_silent:
  "snd (evaluate_state db now val s) = None \<Longrightarrow>
     alerting (fst (evaluate_state db now val s)) = alerting s \<and> last_fired (fst (evaluate_state db now val s)) = last_fired s"
  by (auto simp: evaluate_state_def Let_def alerting_def last_fired_def split: if_splits)

lemma evaluate_state_alert:
  assumes "snd (evaluate_state db now val s) = Some a" and "now \<noteq> 0"
  shows "al_Cleared a = alerting s" "alerting (fst (evaluate_state db now val s)) = (\<not> alerting s)"
    "al_Cleared a \<Longrightarrow> last_fired (fst (evaluate_state db now val s)) = last_fired s"
    "\<not> al_Cleared a \<Longrightarrow> last_fired (fst (evaluate_state db now val s)) = Some (al_FiredAt a)"
    "\<not> al_Cleared a \<Longrightarrow> last_fired s = Some p \<Longrightarrow> Sub (al_FiredAt a) p \<ge> db"
  using assms
  by (auto simp: evaluate_state_def Let_def alerting_def last_fired_def alert_of_def IsZero_def split: if_splits)

lemma run_state_alternates:
  assumes "\<forall>x \<in> set xs. fst x \<noteq> 0"
  shows "alternating (alerting s) (fst (run_state db xs s)) \<and> spaced db (last_fired s) (fst (run_state db xs s))"
  using assms
proof (induction xs arbitrary: s)
  case (Cons x xs)
  obtain now val where x: "x = (now, val)" by (cases x)
  let ?s1 = "fst (evaluate_state db now val s)"
  have IH: "alternating (alerting ?s1) (fst (run_state db xs ?s1)) \<and> spaced db (last_fired ?s1) (fst (run_state db xs ?s1))"
    using Cons by simp
  show ?case
  proof (cases "snd (evaluate_state db now val s)")
    case None
    with IH x evaluate_state_silent [OF None] show ?thesis by (simp add: split_beta)
  next
    case (Some a)
    have "now \<noteq> 0" using Cons.prems x by simp
    note al = evaluate_state_alert [OF Some this]
    have "fst (run_state db (x # xs) s) = a # fst (run_state db xs ?s1)"
      using Some by (simp add: x split_beta)
    with IH al show ?thesis by (auto split: option.split)
  qed
qed simp

subsection \<open>The engine as a set of independent thresholds\<close>

definition step_state ::
  "duration \<Rightarrow> instant \<Rightarrow> (string \<rightharpoonup> float64) \<Rightarrow> thresholdState \<Rightarrow> thresholdState \<times> Alert option" where
  "step_state db now vals s =
     (case vals (th_Metric (ts_def s)) of None \<Rightarrow> (s, None) | Some val \<Rightarrow> evaluate_state db now val s)"

lemma step_state_def_kept [simp]: "ts_def (fst (step_state db now vals s)) = ts_def s"
  by (simp add: step_state_def evaluate_state_def_kept split: option.split)

lemma evaluate_states_char:
  "evaluate_states db now vals ss ch =
     (map (\<lambda>s. fst (step_state db now vals s)) ss,
      foldl (\<lambda>c a. send_alert a c) ch (map (\<lambda>s. snd (step_state db now vals s)) ss))"
proof (induction ss arbitrary: ch)
  case (Cons s ss)
  show ?case
    by (cases "vals (th_Metric (ts_def s))")
      (simp_all add: Cons step_state_def send_alert_def split_beta)
qed simp

lemma send_all_length: "length ch \<le> length (foldl (\<lambda>c a. send_alert a c) ch as)"
proof (induction as arbitrary: ch)
  case (Cons a as)
  have "length ch \<le> length (send_alert a ch)" by (simp add: send_alert_def split: option.split)
  with Cons [of "send_alert a ch"] show ?case by simp
qed simp

lemma send_all_room:
  assumes "length (foldl (\<lambda>c a. send_alert a c) ch as) < alert_buffer"
  shows "foldl (\<lambda>c a. send_alert a c) ch as = ch @ List.map_filter id as"
  using assms
proof (induction as arbitrary: ch)
  case (Cons a as)
  have "length ch \<le> length (send_alert a ch)" by (simp add: send_alert_def split: option.split)
  also have "\<dots> < alert_buffer" using Cons.prems send_all_length [of "send_alert a ch" as] by simp
  finally have "send_alert a ch = ch @ (case a of None \<Rightarrow> [] | Some al \<Rightarrow> [al])"
    by (simp add: send_alert_def split: option.split)
  with Cons.IH [of "send_alert a ch"] Cons.prems show ?case
    by (cases a) (simp_all add: List.map_filter_simps)
qed (simp add: List.map_filter_simps)

definition run_engine :: "(instant \<times> Metric list) list \<Rightarrow> Engine \<Rightarrow> Engine" where
  "run_engine batches e = fold (\<lambda>(now, metrics). Evaluate now metrics) batches e"

definition samples_of :: "Threshold \<Rightarrow> (instant \<times> Metric list) list \<Rightarrow> (instant \<times> float64) list" where
  "samples_of t batches =
     List.map_filter (\<lambda>(now, metrics). map_option (Pair now) (latest metrics (th_Metric t))) batches"

lemma map_filter_one:
  assumes "distinct (map f xs)" and "x \<in> set xs" and "\<And>y a. g y = Some a \<Longrightarrow> h a = f y"
  shows "filter (\<lambda>a. h a = f x) (List.map_filter g xs) = (case g x of None \<Rightarrow> [] | Some a \<Rightarrow> [a])"
  using assms
proof (induction xs)
  case (Cons y ys)
  have other: "filter (\<lambda>a. h a = f x) (List.map_filter g ys) = []" if "f x \<notin> f ` set ys"
  proof -
    have "h a \<noteq> f x" if a: "a \<in> set (List.map_filter g ys)" for a
    proof -
      obtain y where "y \<in> set ys" "g y = Some a" using a by (auto simp: List.map_filter_def)
      with Cons.prems(3) [of y a] \<open>f x \<notin> f ` set ys\<close> show ?thesis by (metis image_eqI)
    qed
    then show ?thesis by (simp add: filter_empty_conv)
  qed
  show ?case
  proof (cases "x = y")
    case True
    with Cons.prems other show ?thesis by (auto simp: List.map_filter_simps split: option.split)
  next
    case False
    with Cons.prems(1,2) have "f y \<noteq> f x" "x \<in> set ys" by (auto simp: image_iff)
    with Cons show ?thesis by (auto simp: List.map_filter_simps split: option.split)
  qed
qed simp

lemma Evaluate_parts:
  "eg_active (Evaluate now metrics e) =
     map (\<lambda>s. fst (step_state (eg_debounce e) now (latest metrics) s)) (eg_active e)"
  "eg_debounce (Evaluate now metrics e) = eg_debounce e"
  "eg_AlertCh (Evaluate now metrics e) = foldl (\<lambda>c a. send_alert a c) (eg_AlertCh e)
     (map (\<lambda>s. snd (step_state (eg_debounce e) now (latest metrics) s)) (eg_active e))"
  by (simp_all add: Evaluate_def evaluate_states_char)

lemma run_engine_Cons: "run_engine ((now, metrics) # batches) e = run_engine batches (Evaluate now metrics e)"
  by (simp add: run_engine_def)

lemma run_engine_grows: "length (eg_AlertCh e) \<le> length (eg_AlertCh (run_engine batches e))"
proof (induction batches arbitrary: e)
  case (Cons b batches)
  obtain now metrics where b: "b = (now, metrics)" by (cases b)
  have "length (eg_AlertCh e) \<le> length (eg_AlertCh (Evaluate now metrics e))"
    using send_all_length by (simp add: Evaluate_parts)
  with Cons [of "Evaluate now metrics e"] show ?case by (simp add: b run_engine_Cons)
qed (simp add: run_engine_def)

lemma batch_alerts:
  assumes "distinct (map (\<lambda>s. th_ID (ts_def s)) (eg_active e))" and "s \<in> set (eg_active e)"
    and "length (eg_AlertCh (Evaluate now metrics e)) < alert_buffer"
  shows "filter (\<lambda>a. al_ThresholdID a = th_ID (ts_def s)) (eg_AlertCh (Evaluate now metrics e)) =
    filter (\<lambda>a. al_ThresholdID a = th_ID (ts_def s)) (eg_AlertCh e) @
    (case snd (step_state (eg_debounce e) now (latest metrics) s) of None \<Rightarrow> [] | Some a \<Rightarrow> [a])"
proof -
  let ?g = "\<lambda>s. snd (step_state (eg_debounce e) now (latest metrics) s)"
  have "al_ThresholdID a = th_ID (ts_def y)" if "?g y = Some a" for y a
    using that evaluate_state_alert_id by (auto simp: step_state_def split: option.splits)
  from map_filter_one [OF assms(1,2), of ?g al_ThresholdID, OF this]
  have "filter (\<lambda>a. al_ThresholdID a = th_ID (ts_def s)) (List.map_filter ?g (eg_active e)) =
    (case ?g s of None \<Rightarrow> [] | Some a \<Rightarrow> [a])" .
  moreover have "List.map_filter id (map ?g (eg_active e)) = List.map_filter ?g (eg_active e)"
    by (simp add: List.map_filter_def comp_def filter_map)
  ultimately show ?thesis
    using send_all_room [of "eg_AlertCh e" "map ?g (eg_active e)"] assms(3) by (simp add: Evaluate_parts)
qed

lemma engine_trace:
  assumes "distinct (map (\<lambda>s. th_ID (ts_def s)) (eg_active e))" and "s \<in> set (eg_active e)"
    and "length (eg_AlertCh (run_engine batches e)) < alert_buffer"
  shows "filter (\<lambda>a. al_ThresholdID a = th_ID (ts_def s)) (eg_AlertCh (run_engine batches e)) =
    filter (\<lambda>a. al_ThresholdID a = th_ID (ts_def s)) (eg_AlertCh e) @
    fst (run_state (eg_debounce e) (samples_of (ts_def s) batches) s)"
  using assms
proof (induction batches arbitrary: e s)
  case (Cons b batches)
  obtain now metrics where b: "b = (now, metrics)" by (cases b)
  let ?e1 = "Evaluate now metrics e" and ?s1 = "fst (step_state (eg_debounce e) now (latest metrics) s)"
  have room: "length (eg_AlertCh (run_engine batches ?e1)) < alert_buffer"
    using Cons.prems(3) by (simp add: b run_engine_Cons)
  then have first: "length (eg_AlertCh ?e1) < alert_buffer"
    using run_engine_grows [of ?e1 batches] by simp
  have "map (\<lambda>s. th_ID (ts_def s)) (eg_active ?e1) = map (\<lambda>s. th_ID (ts_def s)) (eg_active e)"
    by (simp add: Evaluate_parts)
  then have "distinct (map (\<lambda>s. th_ID (ts_def s)) (eg_active ?e1))" "?s1 \<in> set (eg_active ?e1)"
    using Cons.prems(1,2) by (simp_all add: Evaluate_parts comp_def)
  from Cons.IH [OF this room] batch_alerts [OF Cons.prems(1,2) first] show ?case
    by (cases "latest metrics (th_Metric (ts_def s))")
      (simp_all add: b run_engine_Cons Evaluate_parts(2) step_state_def samples_of_def List.map_filter_simps
        evaluate_state_def_kept split_beta)
qed (simp add: run_engine_def samples_of_def List.map_filter_simps)

subsection \<open>Why a threshold fires\<close>

text \<open>The samples \<open>hs\<close> end with a stretch that satisfies the condition and began at \<open>holdingSince\<close>.\<close>

definition held_since :: "(instant \<times> float64) list \<Rightarrow> thresholdState \<Rightarrow> bool" where
  "held_since hs s \<longleftrightarrow> IsZero (ts_holdingSince s) \<or>
     (\<exists>ys zs. hs = ys @ zs \<and> zs \<noteq> [] \<and> fst (hd zs) = ts_holdingSince s \<and>
        (\<forall>z \<in> set zs. holds (ts_def s) (snd z)))"

definition held_when_fired :: "Threshold \<Rightarrow> (instant \<times> float64) list \<Rightarrow> Alert \<Rightarrow> bool" where
  "held_when_fired t hs a \<longleftrightarrow>
     (\<exists>ys zs ws. hs = ys @ zs @ ws \<and> zs \<noteq> [] \<and> last zs = (al_FiredAt a, al_Value a) \<and>
        (\<forall>z \<in> set zs. holds t (snd z)) \<and> forDur t \<le> Sub (al_FiredAt a) (fst (hd zs)))"

lemma held_since_step:
  assumes "held_since hs s"
  shows "held_since (hs @ [(now, val)]) (fst (evaluate_state db now val s))"
proof (cases "holds (ts_def s) val")
  case False
  then show ?thesis
    by (simp add: held_since_def evaluate_state_def holds_def IsZero_def Let_def)
next
  case True
  let ?s1 = "fst (evaluate_state db now val s)"
  show ?thesis
  proof (cases "IsZero (ts_holdingSince s)")
    case zero: True
    then have "ts_holdingSince ?s1 = now" "ts_def ?s1 = ts_def s"
      using True by (simp_all add: evaluate_state_def holds_def Let_def)
    with True show ?thesis
      unfolding held_since_def by (intro disjI2 exI [of _ hs] exI [of _ "[(now, val)]"]) simp
  next
    case nz: False
    then have same: "ts_holdingSince ?s1 = ts_holdingSince s" "ts_def ?s1 = ts_def s"
      using True by (simp_all add: evaluate_state_def holds_def Let_def)
    obtain ys zs where "hs = ys @ zs" "zs \<noteq> []" "fst (hd zs) = ts_holdingSince s"
      "\<forall>z \<in> set zs. holds (ts_def s) (snd z)" using assms nz by (auto simp: held_since_def)
    with same True show ?thesis
      unfolding held_since_def by (intro disjI2 exI [of _ ys] exI [of _ "zs @ [(now, val)]"]) simp
  qed
qed

lemma fire_held:
  assumes "held_since hs s" and "snd (evaluate_state db now val s) = Some a" and "\<not> al_Cleared a" and "now \<noteq> 0"
  shows "held_when_fired (ts_def s) (hs @ [(now, val)]) a"
proof -
  let ?s1 = "fst (evaluate_state db now val s)"
  have a: "al_FiredAt a = now" "al_Value a = val" and h: "holds (ts_def s) val"
    and long: "forDur (ts_def s) \<le> Sub now (ts_holdingSince ?s1)" and nz: "\<not> IsZero (ts_holdingSince ?s1)"
    using assms(2-4) by (auto simp: evaluate_state_def alert_of_def holds_def IsZero_def Let_def split: if_splits)
  obtain ys zs where zs: "hs @ [(now, val)] = ys @ zs" "zs \<noteq> []" "fst (hd zs) = ts_holdingSince ?s1"
    "\<forall>z \<in> set zs. holds (ts_def s) (snd z)"
    using held_since_step [OF assms(1), of now val db] nz by (auto simp: held_since_def evaluate_state_def_kept)
  then have "last zs = (now, val)" by (metis last_appendR last_snoc)
  with zs a long show ?thesis
    unfolding held_when_fired_def by (intro exI [of _ ys] exI [of _ zs] exI [of _ "[]"]) simp
qed

lemma held_when_fired_extend: "held_when_fired t hs a \<Longrightarrow> held_when_fired t (hs @ xs) a"
  unfolding held_when_fired_def by (metis append_assoc)

lemma run_state_held:
  assumes "held_since hs s" and "\<forall>x \<in> set xs. fst x \<noteq> 0" and "a \<in> set (fst (run_state db xs s))" and "\<not> al_Cleared a"
  shows "held_when_fired (ts_def s) (hs @ xs) a"
  using assms
proof (induction xs arbitrary: hs s)
  case (Cons x xs)
  obtain now val where x: "x = (now, val)" by (cases x)
  let ?s1 = "fst (evaluate_state db now val s)"
  from Cons.prems(3) consider "snd (evaluate_state db now val s) = Some a" | "a \<in> set (fst (run_state db xs ?s1))"
    by (auto simp: x split_beta split: option.splits)
  then show ?case
  proof cases
    case 1
    with Cons.prems have "held_when_fired (ts_def s) (hs @ [(now, val)]) a"
      by (intro fire_held) (simp_all add: x)
    from held_when_fired_extend [OF this, of xs] show ?thesis by (simp add: x)
  next
    case 2
    with Cons.IH [OF held_since_step [OF Cons.prems(1), of now val db]] Cons.prems show ?thesis
      by (simp add: x evaluate_state_def_kept)
  qed
qed simp

lemma SetThresholds_ok:
  assumes "SetThresholds NewEngine ts = (None, e)"
  shows "eg_active e = map fresh_state ts" "eg_AlertCh e = []" "eg_debounce e = 60 * Second"
  using assms by (auto simp: SetThresholds_def NewEngine_def split: option.splits)

lemma engine_alerts:
  assumes "SetThresholds NewEngine ts = (None, e)" and "distinct (map th_ID ts)" and "t \<in> set ts"
    and "length (eg_AlertCh (run_engine batches e)) < alert_buffer"
  shows "filter (\<lambda>a. al_ThresholdID a = th_ID t) (eg_AlertCh (run_engine batches e)) =
    fst (run_state (60 * Second) (samples_of t batches) (fresh_state t))"
proof -
  note e = SetThresholds_ok [OF assms(1)]
  have "distinct (map (\<lambda>s. th_ID (ts_def s)) (eg_active e))" "fresh_state t \<in> set (eg_active e)"
    using assms(2,3) by (simp_all add: e comp_def fresh_state_def)
  from engine_trace [OF this assms(4)] show ?thesis by (simp add: e fresh_state_def)
qed

lemma samples_of_times: "\<forall>b \<in> set batches. fst b \<noteq> 0 \<Longrightarrow> \<forall>x \<in> set (samples_of t batches). fst x \<noteq> 0"
  by (force simp: samples_of_def List.map_filter_def)

subsection \<open>Properties\<close>


definition sample_threshold :: Threshold where
  "sample_threshold = \<lparr>th_ID = ''cpu'', th_Metric = ''cpu.load'', th_Op = ''>'', th_Value = Fin 90,
     th_ForSeconds = Fin 0, th_Severity = ''warn''\<rparr>"

definition sample_batches :: "(instant \<times> Metric list) list" where
  "sample_batches =
     [(1 * Second, [\<lparr>mt_Name = ''cpu.load'', mt_Value = Fin 95\<rparr>]),
      (61 * Second, [\<lparr>mt_Name = ''cpu.load'', mt_Value = Fin 10\<rparr>]),
      (62 * Second, [\<lparr>mt_Name = ''cpu.load'', mt_Value = Fin 95\<rparr>])]"

definition sample_engine :: Engine where
  "sample_engine = snd (SetThresholds NewEngine [sample_threshold])"

lemma sample_engine_set: "SetThresholds NewEngine [sample_threshold] = (None, sample_engine)"
  by (simp add: sample_engine_def SetThresholds_def validateThreshold_def sample_threshold_def)

lemma forDur_sample: "forDur sample_threshold = 0"
  by (simp add: forDur_def sample_threshold_def to_float64_def truncate_rat_def min_int64_def max_int64_def)

lemma sample_alerts:
  "eg_AlertCh (run_engine sample_batches sample_engine) =
     [alert_of (fresh_state sample_threshold) (Fin 95) False (1 * Second),
      alert_of (fresh_state sample_threshold) (Fin 10) True (61 * Second),
      alert_of (fresh_state sample_threshold) (Fin 95) False (62 * Second)]"
proof -
  have eng: "sample_engine = NewEngine\<lparr>eg_active := [fresh_state sample_threshold]\<rparr>"
    by (simp add: sample_engine_def SetThresholds_def validateThreshold_def sample_threshold_def)
  show ?thesis
    using forDur_sample
    by (simp add: eng sample_batches_def run_engine_def Evaluate_def NewEngine_def latest_def fresh_state_def
        evaluate_state_def evaluate_def send_alert_def alert_buffer_def alert_of_def IsZero_def Sub_def
        Second_def sample_threshold_def max_int64_def min_int64_def Let_def)
qed




text \<open>
  The debounce time runs from the firing and not from the clearing: a threshold that fired a
  minute ago and clears now fires again with the next sample, here one second after its clearing.
\<close>
lemma refires_right_after_clearing:
  "map (\<lambda>a. (al_Cleared a, al_FiredAt a)) (eg_AlertCh (run_engine sample_batches sample_engine)) =
     [(False, 1 * Second), (True, 61 * Second), (False, 62 * Second)]"
  by (simp add: sample_alerts alert_of_def)

end
