(* ===== verification/Go_Format.thy ===== *)
theory Go_Format
  imports Go_Values
begin

text \<open>
  Printing dynamically typed values: \<open>strconv.FormatFloat\<close> with the shortest digits that identify the
  number, the verb \<open>%v\<close> of \<open>fmt\<close>, and the numbers of \<open>encoding/json\<close>. \<open>strings.Cut\<close>, \<open>ContainsAny\<close> and
  \<open>ToLower\<close> (for letters whose lower case is ASCII; all others are kept).
\<close>

subsection \<open>Floating-point numbers\<close>

text \<open>The position of the decimal point: \<open>q = 0.d1d2... * 10^dp\<close> with \<open>d1 > 0\<close>.\<close>

fun leading_zeros :: "nat \<Rightarrow> rat \<Rightarrow> nat" where
  "leading_zeros 0 q = 0"
| "leading_zeros (Suc n) q = (if q * 10 \<ge> 1 then 0 else Suc (leading_zeros n (q * 10)))"

definition dec_point :: "rat \<Rightarrow> int" where
  "dec_point q =
     (if q \<ge> 1 then int (length (nat_digits (nat \<lfloor>q\<rfloor>))) else - int (leading_zeros 400 q))"

definition scale10 :: "int \<Rightarrow> rat" where
  "scale10 k = (if k \<ge> 0 then 10 ^ nat k else 1 / 10 ^ nat (- k))"

text \<open>The number with \<open>p\<close> digits that is nearest to \<open>q\<close> among those that are read back as \<open>q\<close>.\<close>

definition digits_at :: "rat \<Rightarrow> int \<Rightarrow> nat \<Rightarrow> nat option" where
  "digits_at q dp p =
     (let scale = scale10 (int p - dp); lo = \<lfloor>q * scale\<rfloor>;
          ok = (\<lambda>m. to_float64 (of_int m / scale) = Fin q)
      in if ok lo \<and> (\<not> ok (lo + 1) \<or> q * scale - of_int lo \<le> 1 / 2) then Some (nat lo)
         else if ok (lo + 1) then Some (nat (lo + 1)) else None)"

fun shortest_from :: "nat \<Rightarrow> rat \<Rightarrow> int \<Rightarrow> nat \<Rightarrow> nat \<times> nat" where
  "shortest_from 0 q dp p = (nat \<lfloor>q * scale10 (int p - dp)\<rfloor>, p)"
| "shortest_from (Suc n) q dp p =
     (case digits_at q dp p of Some m \<Rightarrow> (m, p) | None \<Rightarrow> shortest_from n q dp (Suc p))"

definition shortest :: "rat \<Rightarrow> string \<times> int" where
  "shortest q =
     (let dp = dec_point q; (m, p) = shortest_from 17 q dp 1; ds = nat_digits m
      in (TrimRight ds (CHR ''0''), dp + int (length ds) - int p))"

definition exponent_text :: "bool \<Rightarrow> int \<Rightarrow> string" where
  "exponent_text pad_exp e =
     ''e'' @ (if e < 0 then ''-'' else ''+'') @
     (let ds = nat_digits (nat \<bar>e\<bar>) in if pad_exp \<and> length ds < 2 then CHR ''0'' # ds else ds)"

definition float_e :: "bool \<Rightarrow> string \<Rightarrow> int \<Rightarrow> string" where
  "float_e pad_exp ds dp =
     take 1 ds @ (if length ds > 1 then CHR ''.'' # drop 1 ds else []) @ exponent_text pad_exp (dp - 1)"

definition float_f :: "string \<Rightarrow> int \<Rightarrow> string" where
  "float_f ds dp =
     (if dp \<le> 0 then ''0.'' @ replicate (nat (- dp)) (CHR ''0'') @ ds
      else let n = nat dp in
        if length ds \<le> n then ds @ replicate (n - length ds) (CHR ''0'')
        else take n ds @ CHR ''.'' # drop n ds)"

fun float_text :: "float64 \<Rightarrow> string" where
  "float_text NaN = ''NaN''"
| "float_text (Inf n) = (if n then ''-Inf'' else ''+Inf'')"
| "float_text (Fin q) =
     (if q = 0 then ''0''
      else let (ds, dp) = shortest \<bar>q\<bar>
           in (if q < 0 then ''-'' else []) @
              (if dp - 1 < -4 \<or> dp - 1 \<ge> 6 then float_e True ds dp else float_f ds dp))"

text \<open>\<open>encoding/json\<close>: no leading zero in the exponent; infinities and NaN cannot be encoded.\<close>

fun json_float :: "float64 \<Rightarrow> string option" where
  "json_float (Fin q) =
     (if q = 0 then Some ''0''
      else let (ds, dp) = shortest \<bar>q\<bar>
           in Some ((if q < 0 then ''-'' else []) @
                (if \<bar>q\<bar> < 1 / 10 ^ 6 \<or> \<bar>q\<bar> \<ge> 10 ^ 21 then float_e False ds dp else float_f ds dp)))"
| "json_float _ = None"

subsection \<open>The verb \<open>%v\<close>\<close>

primrec any_text :: "any \<Rightarrow> string" where
  "any_text ANil = ''<nil>''"
| "any_text (ABool b) = (if b then ''true'' else ''false'')"
| "any_text (AInt n) = Itoa n"
| "any_text (AUint n) = Itoa n"
| "any_text (AFloat f) = float_text f"
| "any_text (AStr s) = s"
| "any_text (ABytes b) = ''['' @ Join (map (\<lambda>c. nat_digits (of_char c)) b) '' '' @ '']''"
| "any_text (AArr vs) = ''['' @ Join (map any_text vs) '' '' @ '']''"
| "any_text (AMap kvs) =
     ''map['' @ Join (map (\<lambda>p. fst p @ '':'' @ snd p) (sort_key fst (map (map_prod id any_text) kvs))) '' '' @ '']''"

subsection \<open>Strings\<close>

definition Cut :: "string \<Rightarrow> string \<Rightarrow> (string \<times> string) option" where
  "Cut s sep = (case Index s sep of None \<Rightarrow> None | Some i \<Rightarrow> Some (take i s, drop (i + length sep) s))"

definition ContainsAny :: "string \<Rightarrow> string \<Rightarrow> bool" where
  "ContainsAny s chars = list_ex (\<lambda>c. c \<in> set chars) s"

fun ToLower :: "string \<Rightarrow> string" where
  "ToLower [] = []"
| "ToLower (c # s) =
     (if HasPrefix (c # s) (utf8_encode 0x130) then CHR ''i'' # ToLower (drop 1 s)
      else if HasPrefix (c # s) (utf8_encode 0x212A) then CHR ''k'' # ToLower (drop 2 s)
      else (if byte_in 65 90 c then char_of (of_char c + 32 :: nat) else c) # ToLower s)"

lemma ToLower_ascii:
  "of_char c < (128 :: nat) \<Longrightarrow>
     ToLower (c # s) = (if byte_in 65 90 c then char_of (of_char c + 32 :: nat) else c) # ToLower s"
  by (auto simp: HasPrefix_Cons utf8_encode_def)

lemma Cut_append:
  assumes "Cut s sep = Some (a, b)"
  shows "s = a @ sep @ b"
proof -
  have "\<exists>i. Index s sep = Some i \<and> a = take i s \<and> b = drop (i + length sep) s"
    using assms by (auto simp: Cut_def split: option.splits)
  moreover have "Index s sep = Some i \<Longrightarrow> s = take i s @ sep @ drop (i + length sep) s" for i
  proof (induction s arbitrary: i)
    case (Cons c s)
    then show ?case
      by (auto simp: prefix_def split: if_splits)
  qed (auto split: if_splits)
  ultimately show ?thesis by blast
qed

end
