(* ===== verification/Go_Net.thy ===== *)
theory Go_Net
  imports Go_Format
begin

text \<open>
  \<open>net.ParseCIDR\<close> with the address parser of \<open>net/netip\<close> it uses. Only the 16-byte form of the address
  is returned, as a list of byte values.
\<close>

definition parse_octet :: "string \<Rightarrow> nat option" where
  "parse_octet s =
     (if s = [] \<or> (length s > 1 \<and> hd s = CHR ''0'') then None
      else case digits_val 0 s of None \<Rightarrow> None | Some n \<Rightarrow> if n \<le> 255 then Some n else None)"

definition parse_IPv4 :: "string \<Rightarrow> nat list option" where
  "parse_IPv4 s =
     (case map parse_octet (Split s (CHR ''.'')) of
        [Some a, Some b, Some c, Some d] \<Rightarrow> Some [a, b, c, d]
      | _ \<Rightarrow> None)"

definition hex_nat :: "string \<Rightarrow> nat" where
  "hex_nat s = foldl (\<lambda>n c. 16 * n + (case hex_val c of Some d \<Rightarrow> d | None \<Rightarrow> 0)) 0 s"

text \<open>
  The groups of an IPv6 address: \<open>n\<close> groups may still follow, \<open>ip\<close> holds the bytes read so far,
  \<open>ellipsis\<close> where \<open>::\<close> stood. The result also has the text that is left.
\<close>

fun ipv6_groups :: "nat \<Rightarrow> nat list \<Rightarrow> nat option \<Rightarrow> string \<Rightarrow> (nat list \<times> nat option \<times> string) option" where
  "ipv6_groups 0 ip ellipsis s = Some (ip, ellipsis, s)"
| "ipv6_groups (Suc n) ip ellipsis s =
     (let h = takeWhile is_hex s; r = drop (length h) s; ip' = ip @ [hex_nat h div 256, hex_nat h mod 256] in
      if h = [] \<or> length h > 4 then None
      else case r of
        [] \<Rightarrow> Some (ip', ellipsis, [])
      | c # s' \<Rightarrow>
          if c = CHR ''.''
          then (if (ellipsis = None \<and> length ip \<noteq> 12) \<or> length ip + 4 > 16 then None
                else map_option (\<lambda>f. (ip @ f, ellipsis, [])) (parse_IPv4 s))
          else if c \<noteq> CHR '':'' then None
          else case s' of
            [] \<Rightarrow> None
          | c' # t \<Rightarrow>
              if c' = CHR '':''
              then (if ellipsis \<noteq> None then None
                    else if t = [] then Some (ip', Some (length ip'), [])
                    else ipv6_groups n ip' (Some (length ip')) t)
              else ipv6_groups n ip' ellipsis s')"

definition expand_ellipsis :: "nat list \<Rightarrow> nat option \<Rightarrow> nat list option" where
  "expand_ellipsis ip ellipsis =
     (if length ip < 16
      then map_option (\<lambda>e. take e ip @ replicate (16 - length ip) 0 @ drop e ip) ellipsis
      else if ellipsis = None then Some ip else None)"

definition parse_IPv6 :: "string \<Rightarrow> nat list option" where
  "parse_IPv6 s =
     (let lead = HasPrefix s ''::''; body = (if lead then drop 2 s else s) in
      if lead \<and> body = [] then Some (replicate 16 0)
      else case ipv6_groups 8 [] (if lead then Some 0 else None) body of
          Some (ip, ellipsis, []) \<Rightarrow> expand_ellipsis ip ellipsis
        | _ \<Rightarrow> None)"

text \<open>An address without a zone: its 16 bytes and the number of bits of its own form.\<close>

definition ParseAddr :: "string \<Rightarrow> (nat list \<times> nat) option" where
  "ParseAddr s =
     (case filter (\<lambda>c. c = CHR ''.'' \<or> c = CHR '':'' \<or> c = CHR ''%'') s of
        [] \<Rightarrow> None
      | c # _ \<Rightarrow>
          if c = CHR ''.'' then map_option (\<lambda>f. (replicate 10 0 @ [255, 255] @ f, 32)) (parse_IPv4 s)
          else if c = CHR '':'' \<and> CHR ''%'' \<notin> set s then map_option (\<lambda>ip. (ip, 128)) (parse_IPv6 s)
          else None)"

definition ParseCIDR :: "string \<Rightarrow> nat list option" where
  "ParseCIDR s =
     (case Cut s ''/'' of
        None \<Rightarrow> None
      | Some (addr, plen) \<Rightarrow>
          (case ParseAddr addr of
             None \<Rightarrow> None
           | Some (ip, bits) \<Rightarrow>
               if plen = [] then None
               else case digits_val 0 plen of
                   None \<Rightarrow> None
                 | Some n \<Rightarrow> if n \<le> bits then Some ip else None))"

definition To4 :: "nat list \<Rightarrow> bool" where
  "To4 ip \<longleftrightarrow> take 12 ip = replicate 10 0 @ [255, 255]"

subsection \<open>Which characters an accepted address has\<close>

definition addr_char :: "char \<Rightarrow> bool" where
  "addr_char c \<longleftrightarrow> is_hex c \<or> c \<in> {CHR ''.'', CHR '':'', CHR ''/''}"

lemma digits_are_hex: "digits_val acc s = Some n \<Longrightarrow> \<forall>c \<in> set s. is_hex c"
proof (induction s arbitrary: acc)
  case (Cons c s)
  obtain d where "digit_val c = Some d" "digits_val (10 * acc + d) s = Some n"
    using Cons.prems by (auto split: option.splits)
  then have "is_hex c" "\<forall>c \<in> set s. is_hex c"
    using Cons.IH by (auto simp: digit_val_def is_hex_def hex_val_def Let_def split: if_splits)
  then show ?case by simp
qed simp

lemma Split_chars: "set s \<subseteq> insert c (\<Union> (set ` set (Split s c)))"
proof (induction s)
  case (Cons x s)
  then show ?case by (cases "Split s c") auto
qed simp

lemma parse_octet_chars: "parse_octet s = Some n \<Longrightarrow> \<forall>c \<in> set s. is_hex c"
  by (auto simp: parse_octet_def split: if_splits option.splits dest: digits_are_hex)

lemma parse_IPv4_chars:
  assumes "parse_IPv4 s = Some ip"
  shows "\<forall>c \<in> set s. addr_char c"
proof -
  have "\<forall>p \<in> set (Split s (CHR ''.'')). \<exists>n. parse_octet p = Some n"
    using assms by (auto simp: parse_IPv4_def split: list.splits option.splits)
  then have "\<forall>p \<in> set (Split s (CHR ''.'')). \<forall>c \<in> set p. is_hex c" using parse_octet_chars by blast
  with Split_chars [of s "CHR ''.''"] show ?thesis by (fastforce simp: addr_char_def)
qed

lemma ipv6_groups_chars:
  "ipv6_groups n ip e s = Some (ip', e', []) \<Longrightarrow> \<forall>c \<in> set s. addr_char c"
proof (induction n ip e s rule: ipv6_groups.induct)
  case (2 n ip ellipsis s)
  let ?h = "takeWhile is_hex s" and ?r = "drop (length (takeWhile is_hex s)) s"
  have s: "s = ?h @ ?r" by (metis takeWhile_dropWhile_id dropWhile_eq_drop)
  have h: "\<forall>c \<in> set ?h. addr_char c" using set_takeWhileD by (fastforce simp: addr_char_def)
  have "\<forall>c \<in> set ?r. addr_char c"
  proof (cases ?r)
    case (Cons c t)
    show ?thesis
    proof (cases "c = CHR ''.''")
      case True
      with 2(3) Cons have "\<exists>f. parse_IPv4 s = Some f" by (auto simp: Let_def split: if_splits)
      then have "\<forall>c \<in> set s. addr_char c" using parse_IPv4_chars by blast
      then show ?thesis by (metis in_set_dropD)
    next
      case False
      with 2(3) Cons have c: "c = CHR '':''" by (auto simp: Let_def split: if_splits)
      with False 2(3) Cons obtain c' u where t: "t = c' # u" by (cases t) (auto simp: Let_def split: if_splits)
      have "\<forall>c \<in> set t. addr_char c"
        using 2 Cons c t by (fastforce simp: Let_def addr_char_def split: if_splits)
      with Cons c show ?thesis by (simp add: addr_char_def)
    qed
  qed simp
  with h s show ?case by (metis UnE set_append)
qed simp

lemma ParseCIDR_chars:
  assumes "ParseCIDR s = Some ip"
  shows "\<forall>c \<in> set s. addr_char c"
proof -
  obtain a m ip' bits n where cut: "Cut s ''/'' = Some (a, m)" and addr: "ParseAddr a = Some (ip', bits)"
    and mask: "digits_val 0 m = Some n"
    using assms by (auto simp: ParseCIDR_def split: option.splits if_splits)
  have "\<forall>c \<in> set a. addr_char c"
  proof -
    from addr consider f where "parse_IPv4 a = Some f" | f where "parse_IPv6 a = Some f"
      by (auto simp: ParseAddr_def split: list.splits if_splits)
    then show ?thesis
    proof cases
      case 2
      have "\<forall>c \<in> set (if HasPrefix a ''::'' then drop 2 a else a). addr_char c"
        using 2 by (auto simp: parse_IPv6_def Let_def split: if_splits option.splits list.splits
            dest!: ipv6_groups_chars)
      then show ?thesis by (auto simp: HasPrefix_iff addr_char_def split: if_splits)
    qed (use parse_IPv4_chars in blast)
  qed
  moreover have "\<forall>c \<in> set m. addr_char c" using digits_are_hex [OF mask] by (simp add: addr_char_def)
  ultimately show ?thesis using Cut_append [OF cut] by (auto simp: addr_char_def)
qed

end
