(* ===== verification/Proxmox_Safe.thy ===== *)
theory Proxmox_Safe
  imports Go_Net
begin

text \<open>
  Validation of command parameters in the hypervisor agent, \<open>src/hypervisor/internal/proxmox/safe.go\<close>.
  The loops over runes are loops over bytes: a byte above 127 belongs to a rune that no check admits,
  as does an invalid encoding. Errors carry the key and the offending value, not the message text.
\<close>

datatype px_error =
    ParamRequired string
  | ParamUnsafe string string
  | BadVMID string string
  | BadPath string string
  | Refused string string
  | CommandFailed string string

definition isAlphaNum :: "char \<Rightarrow> bool" where
  "isAlphaNum c \<longleftrightarrow> byte_in 97 122 c \<or> byte_in 65 90 c \<or> byte_in 48 57 c"

definition IsSafeToken :: "string \<Rightarrow> bool" where
  "IsSafeToken value =
     (if value = [] then False
      else list_all (\<lambda>c. c = CHR ''.'' \<or> c = CHR ''_'' \<or> c = CHR ''-'' \<or> c = CHR ''/'' \<or> isAlphaNum c) value)"

definition IsSafeVolume :: "string \<Rightarrow> bool" where
  "IsSafeVolume value =
     (if value = [] then False
      else list_all (\<lambda>c. c = CHR ''.'' \<or> c = CHR ''_'' \<or> c = CHR ''-'' \<or> c = CHR ''/'' \<or> c = CHR '':'' \<or>
             isAlphaNum c) value)"

definition IsJobID :: "string \<Rightarrow> bool" where
  "IsJobID value =
     (if value = [] then False
      else list_all (\<lambda>c. c = CHR ''-'' \<or> c = CHR ''_'' \<or> isAlphaNum c) value)"

definition isNumericVMID :: "string \<Rightarrow> bool" where
  "isNumericVMID s =
     (if length s = 0 \<or> length s > 9 then False
      else if \<not> list_all (byte_in 48 57) s then False
      else foldl (\<lambda>n c. n * 10 + (int (of_char c :: nat) - 48)) 0 s \<ge> (100 :: int))"

definition StringParam :: "params \<Rightarrow> string \<Rightarrow> string \<Rightarrow> string" where
  "StringParam params key fallback =
     (case params key of
        None \<Rightarrow> fallback
      | Some (AStr s) \<Rightarrow> if TrimSpace s = [] then fallback else TrimSpace s
      | Some _ \<Rightarrow> fallback)"

definition BoolParam :: "params \<Rightarrow> string \<Rightarrow> bool" where
  "BoolParam params key =
     (case params key of
        None \<Rightarrow> False
      | Some (ABool b) \<Rightarrow> b
      | Some (AStr s) \<Rightarrow> s = ''true'' \<or> s = ''1'' \<or> s = ''yes''
      | Some _ \<Rightarrow> False)"

definition IntParam :: "params \<Rightarrow> string \<Rightarrow> int \<Rightarrow> int" where
  "IntParam params key fallback =
     (case params key of
        None \<Rightarrow> fallback
      | Some (AFloat f) \<Rightarrow> float_int f
      | Some (AInt n) \<Rightarrow> n
      | Some (AUint n) \<Rightarrow> wrap64 n
      | Some _ \<Rightarrow> fallback)"

definition OneOf :: "string \<Rightarrow> string list \<Rightarrow> bool" where
  "OneOf value candidates = list_ex (\<lambda>c. value = c) candidates"

definition RequiredSafeVolume :: "params \<Rightarrow> string \<Rightarrow> px_error + string" where
  "RequiredSafeVolume params key =
     (let value = StringParam params key [] in
      if value = [] then Inl (ParamRequired key)
      else if \<not> IsSafeVolume value then Inl (ParamUnsafe key value)
      else Inr value)"

definition RequiredSafeToken :: "params \<Rightarrow> string \<Rightarrow> px_error + string" where
  "RequiredSafeToken params key =
     (let value = StringParam params key [] in
      if value = [] then Inl (ParamRequired key)
      else if \<not> IsSafeToken value then Inl (ParamUnsafe key value)
      else Inr value)"

fun safe_token_among :: "params \<Rightarrow> string list \<Rightarrow> string list \<Rightarrow> px_error + string" where
  "safe_token_among params keys [] = Inl (ParamRequired (Join keys '' or ''))"
| "safe_token_among params keys (key # rest) =
     (let value = StringParam params key [] in
      if value = [] then safe_token_among params keys rest
      else if \<not> IsSafeToken value then Inl (ParamUnsafe key value)
      else Inr value)"

definition RequiredSafeTokenAny :: "params \<Rightarrow> string list \<Rightarrow> px_error + string" where
  "RequiredSafeTokenAny params keys = safe_token_among params keys keys"

definition RequiredVMID :: "params \<Rightarrow> string \<Rightarrow> px_error + string" where
  "RequiredVMID params key =
     (let value = StringParam params key [] in
      if value = [] then Inl (ParamRequired key)
      else if \<not> isNumericVMID value then Inl (BadVMID key value)
      else Inr value)"

definition RequiredPCIID :: "params \<Rightarrow> string \<Rightarrow> px_error + string" where
  "RequiredPCIID params key =
     (let value = StringParam params key [] in
      if value = [] then Inl (ParamRequired key)
      else if \<not> list_all (\<lambda>c. c = CHR '':'' \<or> c = CHR ''.'' \<or> c = CHR ''_'' \<or> c = CHR ''-'' \<or> c = CHR ''/'' \<or>
                  isAlphaNum c) value
      then Inl (ParamUnsafe key value)
      else Inr value)"

definition ValidateAbsolutePath :: "string \<Rightarrow> string \<Rightarrow> px_error + string" where
  "ValidateAbsolutePath value key =
     (if \<not> HasPrefix value ''/'' \<or> Contains value ''..'' \<or>
         ContainsAny value [CHR 0x0A, CHR 0x0D, CHR 0x00]
      then Inl (BadPath key value)
      else Inr value)"

definition RequiredAbsolutePath :: "params \<Rightarrow> string \<Rightarrow> px_error + string" where
  "RequiredAbsolutePath params key =
     (let value = StringParam params key [] in
      if value = [] then Inl (ParamRequired key) else ValidateAbsolutePath value key)"

definition RequiredDevicePath :: "params \<Rightarrow> string \<Rightarrow> px_error + string" where
  "RequiredDevicePath params key =
     (let value = StringParam params key [] in
      if value = [] then Inl (ParamRequired key)
      else if \<not> HasPrefix value ''/dev/'' \<or> Contains value ''..'' then Inl (BadPath key value)
      else Inr value)"

subsection \<open>What the checks guarantee\<close>

lemma digits_val_foldl:
  "list_all (byte_in 48 57) s \<Longrightarrow>
     \<exists>n. digits_val acc s = Some n \<and>
       foldl (\<lambda>n c. n * 10 + (int (of_char c :: nat) - 48)) (int acc) s = int n"
proof (induction s arbitrary: acc)
  case (Cons c s)
  have c: "48 \<le> (of_char c :: nat)" "of_char c \<le> (57 :: nat)" using Cons.prems by (simp_all add: byte_in_def)
  have "int acc * 10 + (int (of_char c :: nat) - 48) = int (10 * acc + (of_char c - 48))"
    using c(1) by (simp add: of_nat_diff)
  moreover have "digit_val c = Some (of_char c - 48)" using c by (simp add: digit_val_def Let_def)
  ultimately show ?case using Cons.IH [of "10 * acc + (of_char c - 48)"] Cons.prems
    by (simp only: digits_val.simps foldl.simps option.case list.pred_inject)
qed simp

lemma digits_val_bound: "digits_val acc s = Some n \<Longrightarrow> n < (acc + 1) * 10 ^ length s"
proof (induction s arbitrary: acc)
  case (Cons c s)
  obtain d where d: "digit_val c = Some d" "digits_val (10 * acc + d) s = Some n"
    using Cons.prems by (auto split: option.splits)
  have "d < 10" using d(1) by (auto simp: digit_val_def Let_def split: if_splits)
  then have "10 * acc + d + 1 \<le> (acc + 1) * 10" by simp
  have "n < (10 * acc + d + 1) * 10 ^ length s" by (rule Cons.IH [OF d(2)])
  also have "\<dots> \<le> ((acc + 1) * 10) * 10 ^ length s"
    by (rule mult_right_mono [OF \<open>10 * acc + d + 1 \<le> (acc + 1) * 10\<close>]) simp
  finally show ?case by (simp add: algebra_simps)
qed simp

text \<open>A VMID is a decimal number from 100 to 999999999.\<close>

lemma isNumericVMID_range:
  assumes "isNumericVMID s"
  shows "\<exists>n. digits_val 0 s = Some n \<and> 100 \<le> n \<and> n \<le> 999999999"
proof -
  have len: "length s \<le> 9" and digits: "list_all (byte_in 48 57) s"
    and big: "foldl (\<lambda>n c. n * 10 + (int (of_char c :: nat) - 48)) 0 s \<ge> 100"
    using assms by (auto simp: isNumericVMID_def split: if_splits)
  obtain n where n: "digits_val 0 s = Some n" "foldl (\<lambda>n c. n * 10 + (int (of_char c :: nat) - 48)) 0 s = int n"
    using digits_val_foldl [OF digits, of 0] by auto
  have "n < 10 ^ length s" using digits_val_bound [OF n(1)] by simp
  also have "(10 :: nat) ^ length s \<le> 10 ^ 9" using len by (intro power_increasing) auto
  finally show ?thesis using n big by auto
qed

lemma RequiredVMID_Inr: "RequiredVMID params key = Inr v \<Longrightarrow> isNumericVMID v"
  by (auto simp: RequiredVMID_def Let_def split: if_splits)

lemma RequiredSafeToken_Inr: "RequiredSafeToken params key = Inr v \<Longrightarrow> IsSafeToken v"
  by (auto simp: RequiredSafeToken_def Let_def split: if_splits)

lemma RequiredSafeVolume_Inr: "RequiredSafeVolume params key = Inr v \<Longrightarrow> IsSafeVolume v"
  by (auto simp: RequiredSafeVolume_def Let_def split: if_splits)

lemma IsSafeToken_chars:
  "IsSafeToken v \<Longrightarrow> c \<in> set v \<Longrightarrow> isAlphaNum c \<or> c \<in> {CHR ''.'', CHR ''_'', CHR ''-'', CHR ''/''}"
  by (auto simp: IsSafeToken_def list_all_iff split: if_splits)

lemma IsSafeToken_excludes:
  "IsSafeToken v \<Longrightarrow> c \<in> set v \<Longrightarrow> c \<notin> {CHR '','', CHR ''='', CHR '';'', CHR '' '', CHR 0x0A}"
  by (auto dest: IsSafeToken_chars simp: isAlphaNum_def byte_in_def)

end
