(* ===== verification/Exec_Trace.thy ===== *)
theory Exec_Trace
  imports Atomic_File
begin

text \<open>
  Agents that execute commands. What such an agent does is a sequence of events, oldest first: entries handed
  to the audit log, and executed commands; beside it stand the files it writes. How the \<open>n\<close>-th command
  ends is up to the host. A handler is a function of this world that yields an error or a value; \<open>px_bind\<close>
  runs two of them in sequence and stops at the first error.
\<close>

datatype proc_end = Exited nat | Signalled string | StartFailed string

record proc_answer =
  pa_stdout :: bytes
  pa_stderr :: bytes
  pa_end :: proc_end
  pa_deadline :: bool
  pa_text :: string

record ExecResult =
  xr_Stdout :: bytes
  xr_Stderr :: bytes
  xr_ExitCode :: int

datatype px_event = PxAudit string string string int | PxRun string "string list"

record px_world =
  px_events :: "px_event list"
  px_files :: files

type_synonym ('e, 'a) act = "px_world \<Rightarrow> ('e + 'a) \<times> px_world"

subsection \<open>Sequencing\<close>

definition px_return :: "'a \<Rightarrow> ('e, 'a) act" where
  "px_return x w = (Inr x, w)"

definition px_fail :: "'e \<Rightarrow> ('e, 'a) act" where
  "px_fail e w = (Inl e, w)"

definition px_lift :: "'e + 'a \<Rightarrow> ('e, 'a) act" where
  "px_lift r w = (r, w)"

definition px_bind :: "('e, 'a) act \<Rightarrow> ('a \<Rightarrow> ('e, 'b) act) \<Rightarrow> ('e, 'b) act" where
  "px_bind m k w = (case m w of (Inl e, w') \<Rightarrow> (Inl e, w') | (Inr x, w') \<Rightarrow> k x w')"

definition px_check :: "bool \<Rightarrow> 'e \<Rightarrow> ('e, 'a) act \<Rightarrow> ('e, 'a) act" where
  "px_check ok e m = (if ok then m else px_fail e)"

definition is_run :: "px_event \<Rightarrow> bool" where
  "is_run e = (case e of PxRun _ _ \<Rightarrow> True | _ \<Rightarrow> False)"

text \<open>The error \<open>cmd.Run\<close> returns.\<close>

definition run_error :: "proc_end \<Rightarrow> string option" where
  "run_error e =
     (case e of
        Exited n \<Rightarrow> if n = 0 then None else Some (''exit status '' @ nat_digits n)
      | Signalled sig \<Rightarrow> Some (''signal: '' @ sig)
      | StartFailed msg \<Rightarrow> Some msg)"

subsection \<open>Traces\<close>

text \<open>
  A property of event sequences that holds of the empty one and of any two in a row; a handler has it if what it
  adds to the events always does.
\<close>

locale event_trace =
  fixes ok :: "px_event list \<Rightarrow> bool"
  assumes ok_Nil: "ok []"
    and ok_append: "ok es \<Longrightarrow> ok fs \<Longrightarrow> ok (es @ fs)"
begin

definition traces :: "('e, 'a) act \<Rightarrow> bool" where
  "traces m \<longleftrightarrow> (\<forall>w. \<exists>es. px_events (snd (m w)) = px_events w @ es \<and> ok es)"

lemma traces_return: "traces (px_return x)"
  and traces_fail: "traces (px_fail e)"
  and traces_lift: "traces (px_lift r)"
  by (simp_all add: traces_def px_return_def px_fail_def px_lift_def ok_Nil)

lemma traces_bind:
  assumes "traces m" and "\<And>x w w'. m w = (Inr x, w') \<Longrightarrow> traces (k x)"
  shows "traces (px_bind m k)"
  unfolding traces_def
proof
  fix w
  obtain r w1 where m: "m w = (r, w1)" by (cases "m w")
  obtain es where es: "px_events w1 = px_events w @ es" "ok es"
    using assms(1) m by (auto simp: traces_def dest!: spec [of _ w])
  show "\<exists>es. px_events (snd (px_bind m k w)) = px_events w @ es \<and> ok es"
  proof (cases r)
    case (Inl e)
    with m es show ?thesis by (auto simp: px_bind_def)
  next
    case (Inr x)
    with m assms(2) have "traces (k x)" by blast
    then obtain fs where "px_events (snd (k x w1)) = px_events w1 @ fs" "ok fs" unfolding traces_def by blast
    with m Inr es show ?thesis
      by (intro exI [of _ "es @ fs"]) (auto simp: px_bind_def intro: ok_append)
  qed
qed

lemma traces_bind_lift: "(\<And>x. r = Inr x \<Longrightarrow> traces (k x)) \<Longrightarrow> traces (px_bind (px_lift r) k)"
  by (rule traces_bind [OF traces_lift]) (simp add: px_lift_def)

lemma traces_check: "(ok' \<Longrightarrow> traces m) \<Longrightarrow> traces (px_check ok' e m)"
  by (simp add: px_check_def traces_fail)

lemma traces_if: "(c \<Longrightarrow> traces m) \<Longrightarrow> (\<not> c \<Longrightarrow> traces m') \<Longrightarrow> traces (if c then m else m')"
  by simp

lemma traces_option:
  "(x = None \<Longrightarrow> traces m) \<Longrightarrow> (\<And>y. x = Some y \<Longrightarrow> traces (k y)) \<Longrightarrow> traces (case x of None \<Rightarrow> m | Some y \<Rightarrow> k y)"
  by (cases x) simp_all

lemma traces_prod: "(\<And>a b. x = (a, b) \<Longrightarrow> traces (k a b)) \<Longrightarrow> traces (case x of (a, b) \<Rightarrow> k a b)"
  by (cases x) simp

text \<open>A step that leaves the events alone, such as one that only works on files.\<close>

lemma traces_silent: "(\<And>w. px_events (snd (m w)) = px_events w) \<Longrightarrow> traces m"
  by (simp add: traces_def ok_Nil)

end

end
