(* ===== verification/Proxmox_Exec.thy ===== *)
theory Proxmox_Exec
  imports Proxmox_Safe Exec_Trace
begin

text \<open>
  Running the Proxmox tools, \<open>src/hypervisor/internal/proxmox/exec.go\<close> and \<open>storage_resolve.go\<close>. Every
  execution is recorded before and after.
\<close>

record px_env =
  pe_PveshPath :: string
  pe_QmPath :: string
  pe_PctPath :: string
  pe_PvesmPath :: string
  pe_PvecmPath :: string
  pe_JobID :: string
  pe_hostname :: "string option"
  pe_host :: "nat \<Rightarrow> string \<Rightarrow> string list \<Rightarrow> proc_answer"

type_synonym 'a px = "(px_error, 'a) act"

subsection \<open>Execution\<close>

definition exit_code :: "proc_answer \<Rightarrow> int" where
  "exit_code a =
     (if run_error (pa_end a) = None then 0
      else if pa_deadline a then -2
      else case pa_end a of Exited n \<Rightarrow> int n | Signalled _ \<Rightarrow> -1 | StartFailed _ \<Rightarrow> -1)"

definition error_text :: "proc_answer \<Rightarrow> string option" where
  "error_text a =
     map_option (\<lambda>msg. if pa_deadline a then ''timeout after '' @ pa_text a @ '': '' @ msg else msg)
       (run_error (pa_end a))"

definition command_text :: "string \<Rightarrow> string list \<Rightarrow> string" where
  "command_text binary args = binary @ '' '' @ json_text (JArr (map JStr args))"

definition exec_run :: "px_env \<Rightarrow> string \<Rightarrow> string list \<Rightarrow> (ExecResult \<times> string option) px" where
  "exec_run e binary args w =
     (let a = pe_host e (length (filter is_run (px_events w))) binary args;
          pre = PxAudit (pe_JobID e) (command_text binary args) ''pre'' (-1);
          post = PxAudit (pe_JobID e) (command_text binary args) ''post'' (exit_code a)
      in (Inr (\<lparr>xr_Stdout = pa_stdout a, xr_Stderr = pa_stderr a, xr_ExitCode = exit_code a\<rparr>, error_text a),
          w\<lparr>px_events := px_events w @ [pre, PxRun binary args, post]\<rparr>))"

definition Pvesh :: "px_env \<Rightarrow> string list \<Rightarrow> (ExecResult \<times> string option) px" where
  "Pvesh e args = exec_run e (pe_PveshPath e) args"

definition Qm :: "px_env \<Rightarrow> string list \<Rightarrow> (ExecResult \<times> string option) px" where
  "Qm e args = exec_run e (pe_QmPath e) args"

definition Pct :: "px_env \<Rightarrow> string list \<Rightarrow> (ExecResult \<times> string option) px" where
  "Pct e args = exec_run e (pe_PctPath e) args"

definition Pvesm :: "px_env \<Rightarrow> string list \<Rightarrow> (ExecResult \<times> string option) px" where
  "Pvesm e args = exec_run e (pe_PvesmPath e) args"

definition Pvecm :: "px_env \<Rightarrow> string list \<Rightarrow> (ExecResult \<times> string option) px" where
  "Pvecm e args = exec_run e (pe_PvecmPath e) args"

text \<open>\<open>if _, err := ...; err != nil { return fmt.Errorf("op: %w", err) }\<close>.\<close>

definition must :: "string \<Rightarrow> (ExecResult \<times> string option) px \<Rightarrow> ExecResult px" where
  "must op m =
     px_bind m (\<lambda>(r, err). case err of None \<Rightarrow> px_return r | Some msg \<Rightarrow> px_fail (CommandFailed op msg))"

definition must_do :: "string \<Rightarrow> (ExecResult \<times> string option) px \<Rightarrow> unit px" where
  "must_do op m = px_bind (must op m) (\<lambda>_. px_return ())"

definition StdoutString :: "ExecResult \<Rightarrow> string" where
  "StdoutString r = TrimSpace (xr_Stdout r)"

subsection \<open>Choosing a storage\<close>

record nodeStorage =
  ns_Storage :: string
  ns_Content :: string
  ns_Type :: string
  ns_Active :: int
  ns_Enabled :: int
  ns_Avail :: int

definition set_storage_field :: "string \<Rightarrow> lit \<Rightarrow> nodeStorage \<Rightarrow> nodeStorage option" where
  "set_storage_field k v s =
     (if k = ''STORAGE'' then map_option (\<lambda>x. s\<lparr>ns_Storage := x\<rparr>) (dec_str v (ns_Storage s))
      else if k = ''CONTENT'' then map_option (\<lambda>x. s\<lparr>ns_Content := x\<rparr>) (dec_str v (ns_Content s))
      else if k = ''TYPE'' then map_option (\<lambda>x. s\<lparr>ns_Type := x\<rparr>) (dec_str v (ns_Type s))
      else if k = ''ACTIVE'' then map_option (\<lambda>x. s\<lparr>ns_Active := x\<rparr>) (dec_int64 v (ns_Active s))
      else if k = ''ENABLED'' then map_option (\<lambda>x. s\<lparr>ns_Enabled := x\<rparr>) (dec_int64 v (ns_Enabled s))
      else if k = ''AVAIL'' then map_option (\<lambda>x. s\<lparr>ns_Avail := x\<rparr>) (dec_int64 v (ns_Avail s))
      else Some s)"

definition zero_storage :: nodeStorage where
  "zero_storage = \<lparr>ns_Storage = [], ns_Content = [], ns_Type = [], ns_Active = 0, ns_Enabled = 0, ns_Avail = 0\<rparr>"

definition decode_storages :: "bytes \<Rightarrow> nodeStorage list option" where
  "decode_storages out =
     Option.bind (json_lit out) (dec_slice (\<lambda>v. dec_struct set_storage_field v zero_storage))"

definition isBlockStorage :: "string \<Rightarrow> bool" where
  "isBlockStorage t = (t \<in> set [''lvm'', ''lvmthin'', ''zfspool'', ''zfs'', ''rbd'', ''iscsi'', ''iscsidirect''])"

text \<open>The best storage seen so far with its free space, and the best block storage.\<close>

fun pick_storage ::
  "string \<Rightarrow> string \<Rightarrow> nodeStorage list \<Rightarrow> string \<Rightarrow> int \<Rightarrow> string \<Rightarrow> int \<Rightarrow> string" where
  "pick_storage requested contentType [] best bestAvail bestBlock bestBlockAvail =
     (if contentType = ''rootdir'' \<and> bestBlock \<noteq> [] then bestBlock
      else if best = [] then requested else best)"
| "pick_storage requested contentType (s # ss) best bestAvail bestBlock bestBlockAvail =
     (let preferBlock = (contentType = ''rootdir'') in
      if ns_Enabled s \<noteq> 1 \<or> \<not> Contains (ns_Content s) contentType
      then pick_storage requested contentType ss best bestAvail bestBlock bestBlockAvail
      else if preferBlock \<and> isBlockStorage (ns_Type s)
      then (if bestBlock = [] \<or> ns_Avail s > bestBlockAvail
            then pick_storage requested contentType ss best bestAvail (ns_Storage s) (ns_Avail s)
            else pick_storage requested contentType ss best bestAvail bestBlock bestBlockAvail)
      else if ns_Active s \<noteq> 1
      then pick_storage requested contentType ss best bestAvail bestBlock bestBlockAvail
      else if ns_Storage s = requested \<and> \<not> preferBlock then requested
      else if ns_Avail s > bestAvail
      then pick_storage requested contentType ss (ns_Storage s) (ns_Avail s) bestBlock bestBlockAvail
      else pick_storage requested contentType ss best bestAvail bestBlock bestBlockAvail)"

definition pveNodeName :: "px_env \<Rightarrow> string" where
  "pveNodeName e =
     (case pe_hostname e of
        None \<Rightarrow> []
      | Some hn \<Rightarrow>
          (case Index hn ''.'' of Some i \<Rightarrow> if i > 0 then take i hn else hn | None \<Rightarrow> hn))"

definition ResolveStorage :: "px_env \<Rightarrow> string \<Rightarrow> string \<Rightarrow> string px" where
  "ResolveStorage e requested contentType =
     (let node = pveNodeName e in
      if node = [] then px_return requested
      else px_bind (Pvesh e [''get'', ''/nodes/'' @ node @ ''/storage'', ''--output-format'', ''json''])
        (\<lambda>(result, err).
           if err \<noteq> None \<or> xr_ExitCode result \<noteq> 0 then px_return requested
           else case decode_storages (xr_Stdout result) of
               None \<Rightarrow> px_return requested
             | Some storages \<Rightarrow> px_return (pick_storage requested contentType storages [] (-1) [] (-1))))"

definition FormatDiskSpec :: "string \<Rightarrow> int \<Rightarrow> string" where
  "FormatDiskSpec storage sizeGb = storage @ '':'' @ Itoa sizeGb"

subsection \<open>Reasoning about handlers\<close>

text \<open>
  Every execution stands between its two audit entries; \<open>runs_only j P m\<close> says that the handler \<open>m\<close>
  only adds such executions, of job \<open>j\<close>, and only of commands that satisfy \<open>P\<close>.
\<close>

fun bracketed :: "string \<Rightarrow> px_event list \<Rightarrow> bool" where
  "bracketed j [] = True"
| "bracketed j (PxAudit j1 c1 s1 x1 # PxRun b args # PxAudit j2 c2 s2 x2 # es) =
     (j1 = j \<and> c1 = command_text b args \<and> s1 = ''pre'' \<and> x1 = -1 \<and>
      j2 = j \<and> c2 = command_text b args \<and> s2 = ''post'' \<and> bracketed j es)"
| "bracketed j _ = False"

lemma bracketed_append: "bracketed j es \<Longrightarrow> bracketed j fs \<Longrightarrow> bracketed j (es @ fs)"
  by (induction j es rule: bracketed.induct) auto

definition runs_only :: "string \<Rightarrow> (string \<Rightarrow> string list \<Rightarrow> bool) \<Rightarrow> ('e, 'a) act \<Rightarrow> bool" where
  "runs_only j P m \<longleftrightarrow>
     (\<forall>w. \<exists>es. px_events (snd (m w)) = px_events w @ es \<and> bracketed j es \<and>
        (\<forall>b args. PxRun b args \<in> set es \<longrightarrow> P b args))"

named_theorems px_rules

interpretation audited: event_trace "\<lambda>es. bracketed j es \<and> (\<forall>b args. PxRun b args \<in> set es \<longrightarrow> P b args)" for j P
  by unfold_locales (auto intro: bracketed_append)

lemma runs_only_traces: "runs_only j P m = audited.traces j P m"
  by (simp add: runs_only_def audited.traces_def)

lemmas runs_only_return [px_rules] = audited.traces_return [folded runs_only_traces]
lemmas runs_only_fail [px_rules] = audited.traces_fail [folded runs_only_traces]
lemmas runs_only_lift [px_rules] = audited.traces_lift [folded runs_only_traces]
lemmas runs_only_bind = audited.traces_bind [folded runs_only_traces]
lemmas runs_only_bind_lift [px_rules] = audited.traces_bind_lift [folded runs_only_traces]
lemmas runs_only_check [px_rules] = audited.traces_check [folded runs_only_traces]
lemmas runs_only_if [px_rules] = audited.traces_if [folded runs_only_traces]
lemmas runs_only_option [px_rules] = audited.traces_option [folded runs_only_traces]
lemmas runs_only_prod [px_rules] = audited.traces_prod [folded runs_only_traces]

lemma runs_only_exec: "pe_JobID e = j \<Longrightarrow> P b args \<Longrightarrow> runs_only j P (exec_run e b args)"
  unfolding runs_only_def exec_run_def Let_def by (intro allI exI conjI, simp, simp, auto)

lemma runs_only_must [px_rules]: "runs_only j P m \<Longrightarrow> runs_only j P (must op m)"
  unfolding must_def by (rule runs_only_bind) (auto intro: px_rules split: option.split)

lemma runs_only_must_do [px_rules]: "runs_only j P m \<Longrightarrow> runs_only j P (must_do op m)"
  unfolding must_do_def by (rule runs_only_bind) (auto intro: px_rules)

text \<open>The tools a handler may run, and how; \<open>pvesh\<close> only reads.\<close>

definition qm_verbs :: "string list" where
  "qm_verbs =
     [''status'', ''config'', ''create'', ''set'', ''start'', ''shutdown'', ''stop'', ''reboot'', ''reset'',
      ''suspend'', ''resume'', ''destroy'', ''migrate'', ''unlink'', ''resize'', ''snapshot'', ''delsnapshot'',
      ''rollback'', ''listsnapshot'', ''template'', ''clone'']"

definition pct_verbs :: "string list" where
  "pct_verbs = [''status'', ''config'', ''create'', ''set'', ''start'', ''stop'', ''reboot'', ''destroy'']"

definition permitted :: "px_env \<Rightarrow> string \<Rightarrow> string list \<Rightarrow> bool" where
  "permitted e b args \<longleftrightarrow>
     (b = pe_QmPath e \<and> (\<exists>verb vmid rest. args = verb # vmid # rest \<and> verb \<in> set qm_verbs \<and> isNumericVMID vmid)) \<or>
     (b = pe_PctPath e \<and> (\<exists>verb ctid rest. args = verb # ctid # rest \<and> verb \<in> set pct_verbs \<and> isNumericVMID ctid)) \<or>
     (b = pe_PveshPath e \<and> (\<exists>rest. args = ''get'' # rest)) \<or>
     (b = pe_PvesmPath e \<and> (\<exists>storage url. args = [''upload'', storage, url] \<and> IsSafeToken storage \<and> HasPrefix url ''https://'')) \<or>
     (b = pe_PvecmPath e \<and> (\<exists>verb rest. args = verb # rest \<and> verb \<in> {''add'', ''status'', ''delnode''}))"

abbreviation handler_ok :: "px_env \<Rightarrow> 'a px \<Rightarrow> bool" where
  "handler_ok e m \<equiv> runs_only (pe_JobID e) (permitted e) m"

lemma handler_ok_Qm [px_rules]:
  "verb \<in> set qm_verbs \<Longrightarrow> isNumericVMID vmid \<Longrightarrow> handler_ok e (Qm e (verb # vmid # rest))"
  unfolding Qm_def by (rule runs_only_exec) (auto simp: permitted_def)

lemma handler_ok_Pct [px_rules]:
  "verb \<in> set pct_verbs \<Longrightarrow> isNumericVMID ctid \<Longrightarrow> handler_ok e (Pct e (verb # ctid # rest))"
  unfolding Pct_def by (rule runs_only_exec) (auto simp: permitted_def)

lemma handler_ok_Pvesh [px_rules]: "handler_ok e (Pvesh e (''get'' # rest))"
  unfolding Pvesh_def by (rule runs_only_exec) (auto simp: permitted_def)

lemma handler_ok_Pvesm [px_rules]:
  "IsSafeToken storage \<Longrightarrow> HasPrefix url ''https://'' \<Longrightarrow> handler_ok e (Pvesm e [''upload'', storage, url])"
  unfolding Pvesm_def by (rule runs_only_exec) (auto simp: permitted_def)

lemma handler_ok_Pvecm [px_rules]:
  "verb \<in> {''add'', ''status'', ''delnode''} \<Longrightarrow> handler_ok e (Pvecm e (verb # rest))"
  unfolding Pvecm_def by (rule runs_only_exec) (auto simp: permitted_def)

lemma handler_ok_ResolveStorage [px_rules]: "handler_ok e (ResolveStorage e requested contentType)"
  unfolding ResolveStorage_def Let_def
  by (intro px_rules runs_only_bind)

subsection \<open>Which storage is chosen for disk images\<close>

definition usable :: "string \<Rightarrow> nodeStorage \<Rightarrow> bool" where
  "usable contentType s \<longleftrightarrow> ns_Enabled s = 1 \<and> Contains (ns_Content s) contentType \<and> ns_Active s = 1"

fun roomier :: "string \<times> int \<Rightarrow> nodeStorage list \<Rightarrow> string \<times> int" where
  "roomier acc [] = acc"
| "roomier (best, avail) (s # ss) =
     roomier (if ns_Avail s > avail then (ns_Storage s, ns_Avail s) else (best, avail)) ss"

lemma pick_storage_images:
  assumes "contentType \<noteq> ''rootdir''"
  shows "pick_storage requested contentType ss best avail bb ba =
    (if \<exists>s \<in> set ss. usable contentType s \<and> ns_Storage s = requested then requested
     else let b = fst (roomier (best, avail) (filter (usable contentType) ss)) in if b = [] then requested else b)"
proof (induction ss arbitrary: best avail)
  case (Cons s ss)
  show ?case
  proof (cases "usable contentType s")
    case True
    then have u: "ns_Enabled s = 1" "Contains (ns_Content s) contentType" "ns_Active s = 1"
      by (auto simp: usable_def)
    show ?thesis
    proof (cases "ns_Storage s = requested")
      case True
      with u assms \<open>usable contentType s\<close> show ?thesis by auto
    next
      case False
      obtain b' a' where ba: "(if ns_Avail s > avail then (ns_Storage s, ns_Avail s) else (best, avail)) = (b', a')"
        by fastforce
      with u assms False have "pick_storage requested contentType (s # ss) best avail bb ba =
          pick_storage requested contentType ss b' a' bb ba" by (auto split: if_splits)
      moreover have "(\<exists>x \<in> set (s # ss). usable contentType x \<and> ns_Storage x = requested) \<longleftrightarrow>
          (\<exists>x \<in> set ss. usable contentType x \<and> ns_Storage x = requested)" using False by simp
      moreover have "roomier (best, avail) (filter (usable contentType) (s # ss)) =
          roomier (b', a') (filter (usable contentType) ss)"
        using \<open>usable contentType s\<close> ba by simp
      ultimately show ?thesis by (simp only: Cons)
    qed
  next
    case False
    with assms have "pick_storage requested contentType (s # ss) best avail bb ba =
        pick_storage requested contentType ss best avail bb ba" by (auto simp: usable_def)
    moreover have "(\<exists>x \<in> set (s # ss). usable contentType x \<and> ns_Storage x = requested) \<longleftrightarrow>
        (\<exists>x \<in> set ss. usable contentType x \<and> ns_Storage x = requested)" using False by simp
    moreover have "filter (usable contentType) (s # ss) = filter (usable contentType) ss" using False by simp
    ultimately show ?thesis by (simp only: Cons)
  qed
qed (simp add: assms)

lemma roomier_max:
  assumes "roomier (best, avail) ss = (b, a)"
  shows "avail \<le> a \<and> (\<forall>s \<in> set ss. ns_Avail s \<le> a) \<and>
    ((b, a) = (best, avail) \<or> (\<exists>s \<in> set ss. b = ns_Storage s \<and> a = ns_Avail s))"
  using assms
proof (induction ss arbitrary: best avail)
  case (Cons s ss)
  show ?case
  proof (cases "ns_Avail s > avail")
    case True
    with Cons.IH [of "ns_Storage s" "ns_Avail s"] Cons.prems show ?thesis by auto
  next
    case False
    with Cons.IH [of best avail] Cons.prems show ?thesis by auto
  qed
qed simp

text \<open>
  The storage for disk images (any content but \<open>rootdir\<close>) is the requested one when the node lists it
  as enabled, active and suitable; otherwise an enabled, active and suitable storage with the most
  free space; and the requested name again when there is none.
\<close>
lemma storage_for_images:
  assumes "contentType \<noteq> ''rootdir''"
    and "\<forall>s \<in> set ss. usable contentType s \<longrightarrow> ns_Storage s \<noteq> [] \<and> 0 \<le> ns_Avail s"
    and "pick_storage requested contentType ss [] (-1) [] (-1) = r"
  shows "if (\<exists>s \<in> set ss. usable contentType s) \<and> \<not> (\<exists>s \<in> set ss. usable contentType s \<and> ns_Storage s = requested)
    then \<exists>s \<in> set ss. usable contentType s \<and> r = ns_Storage s \<and>
           (\<forall>t \<in> set ss. usable contentType t \<longrightarrow> ns_Avail t \<le> ns_Avail s)
    else r = requested"
proof (cases "\<exists>s \<in> set ss. usable contentType s \<and> ns_Storage s = requested")
  case True
  with pick_storage_images [OF assms(1)] assms(3) show ?thesis by auto
next
  case False
  let ?us = "filter (usable contentType) ss"
  obtain b a where ba: "roomier ([], -1) ?us = (b, a)" by fastforce
  have r: "r = (if b = [] then requested else b)"
    using pick_storage_images [OF assms(1), of requested ss "[]" "-1"] assms(3) False ba by (auto simp: Let_def)
  note best = roomier_max [OF ba]
  show ?thesis
  proof (cases "?us = []")
    case True
    with ba have "b = []" by (simp add: filter_empty_conv)
    with r True False show ?thesis by (auto simp: filter_empty_conv)
  next
    case nonempty: False
    then obtain s0 where "s0 \<in> set ?us" by (meson last_in_set)
    with best assms(2) have "a \<ge> 0" by fastforce
    with best obtain s where "s \<in> set ?us" "b = ns_Storage s" "a = ns_Avail s" by auto
    with best r assms(2) False show ?thesis by auto
  qed
qed

definition sample_storages :: "nodeStorage list" where
  "sample_storages =
     [\<lparr>ns_Storage = ''local'', ns_Content = ''images,iso'', ns_Type = ''dir'', ns_Active = 1, ns_Enabled = 1, ns_Avail = 10\<rparr>,
      \<lparr>ns_Storage = ''tank'', ns_Content = ''images'', ns_Type = ''zfspool'', ns_Active = 1, ns_Enabled = 1, ns_Avail = 90\<rparr>,
      \<lparr>ns_Storage = ''nfs'', ns_Content = ''images'', ns_Type = ''nfs'', ns_Active = 0, ns_Enabled = 1, ns_Avail = 500\<rparr>]"

lemma storage_for_images_witness:
  "\<exists>s \<in> set sample_storages. pick_storage ''local-lvm'' ''images'' sample_storages [] (-1) [] (-1) = ns_Storage s \<and>
     (\<forall>t \<in> set sample_storages. usable ''images'' t \<longrightarrow> ns_Avail t \<le> ns_Avail s)"
proof -
  have c: "Contains ''images,iso'' ''images''" "Contains ''images'' ''images''" by code_simp+
  have "''images'' \<noteq> ''rootdir''" by simp
  from storage_for_images [OF this _ refl, of sample_storages "''local-lvm''"] show ?thesis
    by (auto simp: sample_storages_def usable_def c)
qed

end
