(* ===== verification/Hypervisor_VM.thy ===== *)
theory Hypervisor_VM
  imports Proxmox_Exec
begin

text \<open>
  Virtual machines, \<open>src/hypervisor/internal/vm/vm.go\<close> and \<open>list.go\<close>. The progress callback is a no-op in
  the agent and left out. The order in which Go iterates over an options map is the order of the
  pairs of \<^const>\<open>AMap\<close>.
\<close>

definition VMStatus :: "px_env \<Rightarrow> string \<Rightarrow> string px" where
  "VMStatus e vmid =
     px_bind (must (''vm.status '' @ vmid) (Qm e [''status'', vmid, ''--verbose'', ''0'']))
       (\<lambda>result.
          case filter (\<lambda>line. HasPrefix line ''status:'') (Split (StdoutString result) newline) of
            line # _ \<Rightarrow> px_return (TrimSpace (TrimPrefix line ''status:''))
          | [] \<Rightarrow> px_return ''unknown'')"

definition ensureVMExists :: "px_env \<Rightarrow> string \<Rightarrow> unit px" where
  "ensureVMExists e vmid = must_do (''VMID '' @ vmid @ '' does not exist'') (Qm e [''config'', vmid])"

definition vmUpdateAllowlist :: "string list" where
  "vmUpdateAllowlist =
     [''name'', ''memory'', ''cores'', ''sockets'', ''cpu'', ''net0'', ''net1'', ''net2'', ''net3'',
      ''onboot'', ''description'', ''tags'', ''kvm'', ''balloon'', ''numa'', ''agent'', ''ostype'',
      ''boot'', ''bootdisk'', ''startup'', ''watchdog'', ''hotplug'', ''vcpus'', ''shares'', ''ide2'']"

subsection \<open>vm.create\<close>

definition isSafeCreateNet0 :: "string \<Rightarrow> bool" where
  "isSafeCreateNet0 value =
     (let pre = ''virtio,bridge='' in
      if \<not> HasPrefix value pre then False
      else let remainder = TrimPrefix value pre;
               (bridge, firewall) = (case Cut remainder '','' of
                                       Some (b, f) \<Rightarrow> (b, Some f) | None \<Rightarrow> (remainder, None))
           in if bridge = [] \<or> \<not> IsSafeToken bridge then False
              else case firewall of None \<Rightarrow> True | Some f \<Rightarrow> f = ''firewall=1'')"

definition boot_device_ok :: "string \<Rightarrow> bool" where
  "boot_device_ok device =
     (let letters = takeWhile (byte_in 97 122) device; rest = drop (length letters) device
      in letters \<noteq> [] \<and> rest \<noteq> [] \<and> list_all (byte_in 48 57) rest)"

fun boot_devices_ok :: "string list \<Rightarrow> string list \<Rightarrow> bool" where
  "boot_devices_ok seen [] = True"
| "boot_devices_ok seen (device # devices) =
     (if device = [] \<or> device \<in> set seen then False
      else if \<not> boot_device_ok device then False
      else boot_devices_ok (device # seen) devices)"

definition isSafeBootOrder :: "string \<Rightarrow> bool" where
  "isSafeBootOrder value = boot_devices_ok [] (Split value (CHR '';''))"

text \<open>The parameters after validation, in the order in which the code reads and checks them.\<close>

record CreateParams =
  cp_VMID :: string
  cp_Name :: string
  cp_Memory :: int
  cp_Cores :: int
  cp_Sockets :: int
  cp_Net0 :: string
  cp_Storage :: string
  cp_Disk :: string
  cp_DiskGb :: int
  cp_OSType :: string
  cp_CPU :: string
  cp_Machine :: string
  cp_Bios :: string
  cp_BootOrder :: string

definition validate_create :: "params \<Rightarrow> px_error + CreateParams" where
  "validate_create params =
     bind_result (RequiredVMID params ''vmid'') (\<lambda>vmid.
     bind_result (RequiredSafeToken params ''name'') (\<lambda>name.
     let memory = IntParam params ''memory'' 1024;
         cores = IntParam params ''cores'' 1;
         sockets = IntParam params ''sockets'' 1;
         net0 = StringParam params ''net0'' ''virtio,bridge=vmbr0'';
         storage = StringParam params ''storage'' ''local-lvm'';
         disk = StringParam params ''disk'' [];
         diskGb = IntParam params ''disk_gb'' 0;
         ostype = StringParam params ''ostype'' ''l26'';
         cpuModel = (if BoolParam params ''nested_virtualization'' then ''host'' else StringParam params ''cpu_model'' []);
         machine = StringParam params ''machine'' [];
         bios = StringParam params ''bios'' [];
         bootOrder = StringParam params ''boot_order'' []
     in if memory \<le> 0 \<or> cores \<le> 0 \<or> sockets \<le> 0 then Inl (Refused ''memory, cores, and sockets'' [])
        else if \<not> isSafeCreateNet0 net0 then Inl (ParamUnsafe ''net0'' net0)
        else if \<not> IsSafeToken storage then Inl (ParamUnsafe ''storage'' storage)
        else if \<not> IsSafeToken ostype then Inl (ParamUnsafe ''ostype'' ostype)
        else if cpuModel \<noteq> [] \<and> \<not> IsSafeToken cpuModel then Inl (ParamUnsafe ''cpu_model'' cpuModel)
        else if machine \<noteq> [] \<and> \<not> IsSafeToken machine then Inl (ParamUnsafe ''machine'' machine)
        else if bios \<noteq> [] \<and> bios \<noteq> ''seabios'' \<and> bios \<noteq> ''ovmf'' then Inl (Refused ''bios must be seabios or ovmf'' [])
        else if bootOrder \<noteq> [] \<and> \<not> isSafeBootOrder bootOrder then Inl (Refused ''boot_order'' [])
        else Inr \<lparr>cp_VMID = vmid, cp_Name = name, cp_Memory = memory, cp_Cores = cores, cp_Sockets = sockets,
                  cp_Net0 = net0, cp_Storage = storage, cp_Disk = disk, cp_DiskGb = diskGb, cp_OSType = ostype,
                  cp_CPU = cpuModel, cp_Machine = machine, cp_Bios = bios, cp_BootOrder = bootOrder\<rparr>))"

definition bool_option :: "params \<Rightarrow> string \<Rightarrow> string \<Rightarrow> string \<Rightarrow> string \<Rightarrow> string list" where
  "bool_option params key flag off on =
     (case params key of Some (ABool b) \<Rightarrow> [flag, if b then on else off] | _ \<Rightarrow> [])"

definition create_args :: "params \<Rightarrow> CreateParams \<Rightarrow> string list" where
  "create_args params c =
     [''create'', cp_VMID c, ''--name'', cp_Name c, ''--memory'', Itoa (cp_Memory c),
      ''--cores'', Itoa (cp_Cores c), ''--sockets'', Itoa (cp_Sockets c),
      ''--ide2'', ''none,media=cdrom'', ''--net0'', cp_Net0 c, ''--ostype'', cp_OSType c] @
     (if cp_CPU c \<noteq> [] then [''--cpu'', cp_CPU c] else []) @
     (if cp_Machine c \<noteq> [] then [''--machine'', cp_Machine c] else []) @
     (if cp_Bios c \<noteq> [] then [''--bios'', cp_Bios c] else []) @
     bool_option params ''agent_enabled'' ''--agent'' ''enabled=0'' ''enabled=1'' @
     bool_option params ''start_on_boot'' ''--onboot'' ''0'' ''1'' @
     (if BoolParam params ''nested_virtualization'' then [''--tags'', ''pmx-nested-cloud''] else [])"

definition attach_disk :: "px_env \<Rightarrow> CreateParams \<Rightarrow> string \<Rightarrow> unit px" where
  "attach_disk e c storage =
     (if cp_Disk c \<noteq> [] then
        px_check (IsSafeToken (cp_Disk c)) (ParamUnsafe ''disk'' (cp_Disk c))
          (must_do ''vm.create attach-disk''
             (Qm e [''set'', cp_VMID c, ''--scsi0'', storage @ '':'' @ cp_Disk c]))
      else if cp_DiskGb c > 0 then
        must_do ''vm.create allocate-disk''
          (Qm e [''set'', cp_VMID c, ''--scsi0'', FormatDiskSpec storage (cp_DiskGb c),
                 ''--boot'', ''order=scsi0;net0''])
      else px_return ())"

definition CreateVM :: "px_env \<Rightarrow> params \<Rightarrow> unit px" where
  "CreateVM e params =
     px_bind (px_lift (validate_create params)) (\<lambda>c.
     px_bind (Qm e [''config'', cp_VMID c]) (\<lambda>(result, _).
       if xr_ExitCode result = 0 then px_return ()
       else
         px_bind (if cp_Disk c \<noteq> [] \<or> cp_DiskGb c > 0 \<or> BoolParam params ''cloud_init''
                  then ResolveStorage e (cp_Storage c) ''images'' else px_return (cp_Storage c)) (\<lambda>storage.
         px_bind (must_do ''vm.create allocate'' (Qm e (create_args params c))) (\<lambda>_.
         px_bind (attach_disk e c storage) (\<lambda>_.
         px_bind (if BoolParam params ''cloud_init''
                  then must_do ''vm.create cloud-init''
                         (Qm e [''set'', cp_VMID c, ''--ide2'', storage @ '':cloudinit'',
                                ''--serial0'', ''socket'', ''--vga'', ''serial0''])
                  else px_return ()) (\<lambda>_.
         if cp_BootOrder c \<noteq> []
         then must_do ''vm.create boot order'' (Qm e [''set'', cp_VMID c, ''--boot'', ''order='' @ cp_BootOrder c])
         else px_return ()))))))"

subsection \<open>vm.update\<close>

definition isSafeISODevice :: "string \<Rightarrow> bool" where
  "isSafeISODevice value =
     (if value = ''none,media=cdrom'' then True
      else case Cut value '','' of
        None \<Rightarrow> False
      | Some (volume, options) \<Rightarrow>
          if options \<noteq> ''media=cdrom'' then False
          else case Cut volume '':iso/'' of
              None \<Rightarrow> False
            | Some (storage, filename) \<Rightarrow>
                storage \<noteq> [] \<and> \<not> Contains storage ''/'' \<and> IsSafeToken storage \<and>
                length filename > 4 \<and> length filename \<le> 255 \<and> TrimSpace filename = filename \<and>
                \<not> ContainsAny filename [CHR ''/'', CHR 0x5C, CHR '','', CHR 0x0D, CHR 0x0A, CHR 0x00] \<and>
                HasSuffix (ToLower filename) ''.iso'')"

fun update_args :: "(string \<times> any) list \<Rightarrow> px_error + string list" where
  "update_args [] = Inr []"
| "update_args ((key, val) # options) =
     (if key \<notin> set vmUpdateAllowlist then Inl (Refused ''not in the allowlist'' key)
      else let sval = any_text val in
        if key = ''ide2'' \<and> \<not> isSafeISODevice sval then Inl (ParamUnsafe key sval)
        else if key \<noteq> ''ide2'' \<and> \<not> IsSafeToken sval then Inl (ParamUnsafe key sval)
        else bind_result (update_args options) (\<lambda>rest. Inr ([''--'' @ key, sval] @ rest)))"

definition UpdateVM :: "px_env \<Rightarrow> params \<Rightarrow> unit px" where
  "UpdateVM e params =
     px_bind (px_lift (RequiredVMID params ''vmid'')) (\<lambda>vmid.
     px_bind (ensureVMExists e vmid) (\<lambda>_.
     case params ''options'' of
       Some (AMap options) \<Rightarrow>
         if options = [] then px_fail (ParamRequired ''options'')
         else px_bind (px_lift (update_args options)) (\<lambda>rest.
                must_do ''vm.update'' (Qm e ([''set'', vmid] @ rest)))
     | _ \<Rightarrow> px_fail (ParamRequired ''options'')))"

subsection \<open>Lifecycle\<close>

definition simple_vm :: "px_env \<Rightarrow> params \<Rightarrow> string \<Rightarrow> string \<Rightarrow> unit px" where
  "simple_vm e params op verb =
     px_bind (px_lift (RequiredVMID params ''vmid'')) (\<lambda>vmid. must_do op (Qm e [verb, vmid]))"

definition StartVM :: "px_env \<Rightarrow> params \<Rightarrow> unit px" where
  "StartVM e params = simple_vm e params ''vm.start'' ''start''"

definition StopVM :: "px_env \<Rightarrow> params \<Rightarrow> unit px" where
  "StopVM e params =
     px_bind (px_lift (RequiredVMID params ''vmid'')) (\<lambda>vmid.
     px_bind
       (if \<not> BoolParam params ''force'' then
          px_bind (Qm e [''shutdown'', vmid, ''--timeout'', Itoa (IntParam params ''timeout_seconds'' 60)]) (\<lambda>_ w.
            case VMStatus e vmid w of
              (Inr status, w') \<Rightarrow> px_return (status = ''stopped'') w'
            | (Inl _, w') \<Rightarrow> px_return False w')
        else px_return False)
       (\<lambda>stopped. if stopped then px_return () else must_do ''vm.stop'' (Qm e [''stop'', vmid])))"

definition RebootVM :: "px_env \<Rightarrow> params \<Rightarrow> unit px" where
  "RebootVM e params = simple_vm e params ''vm.reboot'' ''reboot''"

definition ResetVM :: "px_env \<Rightarrow> params \<Rightarrow> unit px" where
  "ResetVM e params = simple_vm e params ''vm.reset'' ''reset''"

definition SuspendVM :: "px_env \<Rightarrow> params \<Rightarrow> unit px" where
  "SuspendVM e params = simple_vm e params ''vm.suspend'' ''suspend''"

definition ResumeVM :: "px_env \<Rightarrow> params \<Rightarrow> unit px" where
  "ResumeVM e params = simple_vm e params ''vm.resume'' ''resume''"

definition DeleteVM :: "px_env \<Rightarrow> params \<Rightarrow> unit px" where
  "DeleteVM e params =
     px_bind (px_lift (RequiredVMID params ''vmid'')) (\<lambda>vmid.
     px_bind (VMStatus e vmid) (\<lambda>status.
       if status = ''running'' then px_fail (Refused ''is running'' vmid)
       else must_do ''vm.delete'' (Qm e [''destroy'', vmid, ''--purge''])))"

definition MigrateVM :: "px_env \<Rightarrow> params \<Rightarrow> unit px" where
  "MigrateVM e params =
     px_bind (px_lift (RequiredVMID params ''vmid'')) (\<lambda>vmid.
     px_bind (px_lift (RequiredSafeToken params ''target_node'')) (\<lambda>targetNode.
       must_do ''vm.migrate''
         (Qm e [''migrate'', vmid, targetNode, ''--online'', if BoolParam params ''online'' then ''1'' else ''0''])))"

subsection \<open>Disks\<close>

definition DiskAttach :: "px_env \<Rightarrow> params \<Rightarrow> unit px" where
  "DiskAttach e params =
     px_bind (px_lift (RequiredVMID params ''vmid'')) (\<lambda>vmid.
     px_bind (px_lift (RequiredSafeVolume params ''volume'')) (\<lambda>volume.
     let bus = StringParam params ''bus'' ''scsi''; slot = IntParam params ''slot'' 1 in
     px_check (IsSafeToken bus) (ParamUnsafe ''bus'' bus)
       (must_do ''vm.disk.attach'' (Qm e [''set'', vmid, ''--'' @ bus @ Itoa slot, volume]))))"

definition DiskDetach :: "px_env \<Rightarrow> params \<Rightarrow> unit px" where
  "DiskDetach e params =
     px_bind (px_lift (RequiredVMID params ''vmid'')) (\<lambda>vmid.
     px_bind (px_lift (RequiredSafeToken params ''disk_id'')) (\<lambda>diskID.
       must_do ''vm.disk.detach''
         (Qm e [''unlink'', vmid, ''--idlist'', diskID, ''--force'', if BoolParam params ''force'' then ''1'' else ''0''])))"

definition DiskResize :: "px_env \<Rightarrow> params \<Rightarrow> unit px" where
  "DiskResize e params =
     px_bind (px_lift (RequiredVMID params ''vmid'')) (\<lambda>vmid.
     px_bind (px_lift (RequiredSafeToken params ''disk_id'')) (\<lambda>diskID.
     let sizeGB = IntParam params ''size_gb'' 0 in
     px_check (sizeGB > 0) (Refused ''size_gb must be > 0'' [])
       (must_do ''vm.disk.resize'' (Qm e [''resize'', vmid, diskID, ''+'' @ Itoa sizeGB @ ''G'']))))"

subsection \<open>Guided builds\<close>

definition SynologyDSMParams :: "params \<Rightarrow> params" where
  "SynologyDSMParams envelope =
     envelope(''ostype'' \<mapsto> AStr ''other'',
       ''memory'' \<mapsto> AInt (IntParam envelope ''memory'' 4096),
       ''cores'' \<mapsto> AInt (IntParam envelope ''cores'' 2),
       ''net0'' \<mapsto> AStr (StringParam envelope ''net0'' ''e1000,bridge=vmbr0''))"

definition ZimaOSParams :: "params \<Rightarrow> params" where
  "ZimaOSParams envelope =
     envelope(''ostype'' \<mapsto> AStr ''l26'',
       ''memory'' \<mapsto> AInt (IntParam envelope ''memory'' 2048),
       ''cores'' \<mapsto> AInt (IntParam envelope ''cores'' 2),
       ''net0'' \<mapsto> AStr (StringParam envelope ''net0'' ''virtio,bridge=vmbr0''))"

subsection \<open>vm.list and ct.list\<close>

record clusterResource =
  cr_Type :: string
  cr_VMID :: int
  cr_Name :: string
  cr_Node :: string
  cr_Status :: string
  cr_MaxCPU :: float64
  cr_MaxMem :: int
  cr_MaxDisk :: int
  cr_Template :: int
  cr_Tags :: string
  cr_Uptime :: int
  cr_CPU :: float64
  cr_Mem :: int

definition zero_resource :: clusterResource where
  "zero_resource = \<lparr>cr_Type = [], cr_VMID = 0, cr_Name = [], cr_Node = [], cr_Status = [], cr_MaxCPU = Fin 0,
     cr_MaxMem = 0, cr_MaxDisk = 0, cr_Template = 0, cr_Tags = [], cr_Uptime = 0, cr_CPU = Fin 0, cr_Mem = 0\<rparr>"

definition set_resource_field :: "string \<Rightarrow> lit \<Rightarrow> clusterResource \<Rightarrow> clusterResource option" where
  "set_resource_field k v r =
     (if k = ''TYPE'' then map_option (\<lambda>x. r\<lparr>cr_Type := x\<rparr>) (dec_str v (cr_Type r))
      else if k = ''VMID'' then map_option (\<lambda>x. r\<lparr>cr_VMID := x\<rparr>) (dec_int64 v (cr_VMID r))
      else if k = ''NAME'' then map_option (\<lambda>x. r\<lparr>cr_Name := x\<rparr>) (dec_str v (cr_Name r))
      else if k = ''NODE'' then map_option (\<lambda>x. r\<lparr>cr_Node := x\<rparr>) (dec_str v (cr_Node r))
      else if k = ''STATUS'' then map_option (\<lambda>x. r\<lparr>cr_Status := x\<rparr>) (dec_str v (cr_Status r))
      else if k = ''MAXCPU'' then map_option (\<lambda>x. r\<lparr>cr_MaxCPU := x\<rparr>) (dec_float v (cr_MaxCPU r))
      else if k = ''MAXMEM'' then map_option (\<lambda>x. r\<lparr>cr_MaxMem := x\<rparr>) (dec_int64 v (cr_MaxMem r))
      else if k = ''MAXDISK'' then map_option (\<lambda>x. r\<lparr>cr_MaxDisk := x\<rparr>) (dec_int64 v (cr_MaxDisk r))
      else if k = ''TEMPLATE'' then map_option (\<lambda>x. r\<lparr>cr_Template := x\<rparr>) (dec_int64 v (cr_Template r))
      else if k = ''TAGS'' then map_option (\<lambda>x. r\<lparr>cr_Tags := x\<rparr>) (dec_str v (cr_Tags r))
      else if k = ''UPTIME'' then map_option (\<lambda>x. r\<lparr>cr_Uptime := x\<rparr>) (dec_int64 v (cr_Uptime r))
      else if k = ''CPU'' then map_option (\<lambda>x. r\<lparr>cr_CPU := x\<rparr>) (dec_float v (cr_CPU r))
      else if k = ''MEM'' then map_option (\<lambda>x. r\<lparr>cr_Mem := x\<rparr>) (dec_int64 v (cr_Mem r))
      else Some r)"

record InventoryItem =
  ii_VMID :: int
  ii_Name :: string
  ii_Node :: string
  ii_Status :: string
  ii_Cores :: int
  ii_MemoryMB :: int
  ii_DiskGB :: int
  ii_Template :: bool
  ii_Tags :: string
  ii_UptimeSec :: int
  ii_CPUUsage :: float64
  ii_MemBytes :: int

text \<open>Go's integer division truncates.\<close>

definition quot_int :: "int \<Rightarrow> int \<Rightarrow> int" where
  "quot_int a b = (if a \<ge> 0 then a div b else - ((- a) div b))"

definition inventory_item :: "clusterResource \<Rightarrow> InventoryItem" where
  "inventory_item r =
     \<lparr>ii_VMID = cr_VMID r, ii_Name = cr_Name r, ii_Node = cr_Node r, ii_Status = cr_Status r,
      ii_Cores = float_int (cr_MaxCPU r), ii_MemoryMB = quot_int (cr_MaxMem r) (1024 * 1024),
      ii_DiskGB = quot_int (wrap64 (cr_MaxDisk r + 2 ^ 30 - 1)) (2 ^ 30), ii_Template = (cr_Template r = 1),
      ii_Tags = cr_Tags r, ii_UptimeSec = cr_Uptime r, ii_CPUUsage = cr_CPU r, ii_MemBytes = cr_Mem r\<rparr>"

text \<open>Fields tagged \<open>omitempty\<close> are left out when they have the zero value.\<close>

definition item_json :: "InventoryItem \<Rightarrow> json" where
  "item_json i = JObj
     ([(''vmid'', JNum (Itoa (ii_VMID i))), (''name'', JStr (ii_Name i)), (''node'', JStr (ii_Node i)),
       (''status'', JStr (ii_Status i)), (''cores'', JNum (Itoa (ii_Cores i))),
       (''memoryMb'', JNum (Itoa (ii_MemoryMB i))), (''diskGb'', JNum (Itoa (ii_DiskGB i))),
       (''template'', JBool (ii_Template i))] @
      (if ii_Tags i \<noteq> [] then [(''tags'', JStr (ii_Tags i))] else []) @
      (if ii_UptimeSec i \<noteq> 0 then [(''uptimeSec'', JNum (Itoa (ii_UptimeSec i)))] else []) @
      (case json_float (ii_CPUUsage i) of
         Some x \<Rightarrow> if ii_CPUUsage i \<noteq> Fin 0 then [(''cpuUsage'', JNum x)] else [] | None \<Rightarrow> []) @
      (if ii_MemBytes i \<noteq> 0 then [(''memBytes'', JNum (Itoa (ii_MemBytes i)))] else []))"

definition decode_resources :: "bytes \<Rightarrow> clusterResource list option" where
  "decode_resources out =
     Option.bind (json_lit out) (dec_slice (\<lambda>v. dec_struct set_resource_field v zero_resource))"

definition inventory :: "string \<Rightarrow> clusterResource list \<Rightarrow> InventoryItem list" where
  "inventory kind resources =
     map inventory_item (filter (\<lambda>r. \<not> (cr_Type r \<noteq> kind \<or> cr_VMID r \<le> 0)) resources)"

definition ListInventory :: "px_env \<Rightarrow> string \<Rightarrow> bytes px" where
  "ListInventory e kind =
     (if kind \<noteq> ''qemu'' \<and> kind \<noteq> ''lxc'' then px_fail (Refused ''unsupported kind'' kind)
      else px_bind (must ''inventory: pvesh cluster/resources''
             (Pvesh e [''get'', ''/cluster/resources'', ''--type'', ''vm'', ''--output-format'', ''json''])) (\<lambda>result.
        case decode_resources (xr_Stdout result) of
          None \<Rightarrow> px_fail (Refused ''inventory: parse pvesh output'' [])
        | Some resources \<Rightarrow>
            px_return (json_text (JObj [(if kind = ''lxc'' then ''containers'' else ''vms'',
              JArr (map item_json (inventory kind resources)))]))))"

subsection \<open>Every handler stays within what is permitted\<close>

lemma validate_create_VMID: "validate_create params = Inr c \<Longrightarrow> isNumericVMID (cp_VMID c)"
  by (auto simp: validate_create_def bind_result_def Let_def split: sum.splits if_splits dest: RequiredVMID_Inr)

lemmas vm_simps = qm_verbs_def px_lift_def RequiredVMID_Inr

lemma handler_ok_VMStatus [px_rules]: "isNumericVMID vmid \<Longrightarrow> handler_ok e (VMStatus e vmid)"
  unfolding VMStatus_def by (intro px_rules runs_only_bind) (auto simp: vm_simps split: list.split intro: px_rules)

lemma handler_ok_CreateVM [px_rules]: "handler_ok e (CreateVM e params)"
  unfolding CreateVM_def create_args_def attach_disk_def append_Cons
  by (intro px_rules runs_only_bind) (auto simp: vm_simps dest: validate_create_VMID)

lemma handler_ok_UpdateVM [px_rules]: "handler_ok e (UpdateVM e params)"
proof -
  have "handler_ok e (case params ''options'' of
       Some (AMap options) \<Rightarrow>
         if options = [] then px_fail (ParamRequired ''options'')
         else px_bind (px_lift (update_args options)) (\<lambda>rest.
                must_do ''vm.update'' (Qm e ([''set'', vmid] @ rest)))
     | _ \<Rightarrow> px_fail (ParamRequired ''options''))" if "isNumericVMID vmid" for vmid
    using that by (auto simp: vm_simps intro!: px_rules split: option.split any.split)
  then show ?thesis
    unfolding UpdateVM_def ensureVMExists_def
    by (intro px_rules runs_only_bind) (auto simp: vm_simps dest: RequiredVMID_Inr)
qed

lemma handler_ok_simple_vm: "verb \<in> set qm_verbs \<Longrightarrow> handler_ok e (simple_vm e params op verb)"
  unfolding simple_vm_def by (intro px_rules runs_only_bind) (auto simp: px_lift_def dest: RequiredVMID_Inr)

lemma handler_ok_lifecycle [px_rules]:
  "handler_ok e (StartVM e params)" "handler_ok e (RebootVM e params)" "handler_ok e (ResetVM e params)"
  "handler_ok e (SuspendVM e params)" "handler_ok e (ResumeVM e params)"
  unfolding StartVM_def RebootVM_def ResetVM_def SuspendVM_def ResumeVM_def
  by (rule handler_ok_simple_vm, simp add: qm_verbs_def)+

lemma runs_only_ignore:
  "runs_only j P m \<Longrightarrow>
     runs_only j P (\<lambda>w. case m w of (Inr x, w') \<Rightarrow> px_return (f x) w' | (Inl _, w') \<Rightarrow> px_return y w')"
  by (auto simp: runs_only_def px_return_def split: prod.split sum.split dest: spec) (metis snd_conv)+

lemma handler_ok_StopVM [px_rules]: "handler_ok e (StopVM e params)"
proof -
  have "handler_ok e (\<lambda>w. case VMStatus e vmid w of
      (Inr status, w') \<Rightarrow> px_return (status = ''stopped'') w' | (Inl _, w') \<Rightarrow> px_return False w')"
    if "isNumericVMID vmid" for vmid
    using runs_only_ignore [OF handler_ok_VMStatus [OF that]] .
  then show ?thesis
    unfolding StopVM_def by (intro px_rules runs_only_bind) (auto simp: vm_simps dest: RequiredVMID_Inr)
qed

lemma handler_ok_DeleteVM [px_rules]: "handler_ok e (DeleteVM e params)"
  unfolding DeleteVM_def by (intro px_rules runs_only_bind) (auto simp: vm_simps dest: RequiredVMID_Inr)

lemma handler_ok_MigrateVM [px_rules]: "handler_ok e (MigrateVM e params)"
  unfolding MigrateVM_def by (intro px_rules runs_only_bind) (auto simp: vm_simps dest: RequiredVMID_Inr)

lemma handler_ok_disks [px_rules]:
  "handler_ok e (DiskAttach e params)" "handler_ok e (DiskDetach e params)" "handler_ok e (DiskResize e params)"
  unfolding DiskAttach_def DiskDetach_def DiskResize_def Let_def
  by (intro px_rules runs_only_bind; auto simp: vm_simps dest: RequiredVMID_Inr)+

lemma handler_ok_ListInventory [px_rules]: "handler_ok e (ListInventory e kind)"
  unfolding ListInventory_def by (intro px_rules runs_only_bind)

end
