(* ===== verification/Hypervisor_CT.thy ===== *)
theory Hypervisor_CT
  imports Hypervisor_VM
begin

text \<open>
  Containers, snapshots, templates, ISO images, the cluster and cloud-init data:
  \<open>src/hypervisor/internal/ct/ct.go\<close>, \<open>snapshot/snapshot.go\<close>, \<open>template/template.go\<close>, \<open>iso/iso.go\<close>,
  \<open>cluster/cluster.go\<close> and \<open>provisioning/provisioning.go\<close>. Whether a text is YAML is a parameter.
\<close>

subsection \<open>Containers\<close>

definition ctUpdateAllowlist :: "string list" where
  "ctUpdateAllowlist =
     [''hostname'', ''memory'', ''swap'', ''cores'', ''onboot'', ''description'', ''tags'', ''net0'',
      ''net1'', ''net2'', ''protection'', ''unprivileged'', ''features'', ''startup'']"

definition isSafeContainerIP :: "string \<Rightarrow> bool" where
  "isSafeContainerIP value =
     (if value = ''dhcp'' then True
      else if TrimSpace value \<noteq> value then False
      else case ParseCIDR value of None \<Rightarrow> False | Some address \<Rightarrow> To4 address)"

definition boolInt :: "bool \<Rightarrow> string" where
  "boolInt value = (if value then ''1'' else ''0'')"

record CtParams =
  cc_CTID :: string
  cc_OSTemplate :: string
  cc_Hostname :: string
  cc_Memory :: int
  cc_Cores :: int
  cc_Storage :: string
  cc_Disk :: int
  cc_Bridge :: string
  cc_IP :: string
  cc_Unprivileged :: bool

definition validate_ct :: "params \<Rightarrow> px_error + CtParams" where
  "validate_ct params =
     bind_result (RequiredVMID params ''ctid'') (\<lambda>ctid.
     bind_result (RequiredSafeVolume params ''ostemplate'') (\<lambda>ostemplate.
     let hostname = StringParam params ''hostname'' [];
         storage = StringParam params ''storage'' ''local-lvm'';
         networkBridge = StringParam params ''network_bridge'' ''vmbr0'';
         networkIP = StringParam params ''network_ip'' ''dhcp''
     in if hostname \<noteq> [] \<and> \<not> IsSafeToken hostname then Inl (ParamUnsafe ''hostname'' hostname)
        else if \<not> IsSafeToken storage then Inl (ParamUnsafe ''storage'' storage)
        else if \<not> IsSafeToken networkBridge then Inl (ParamUnsafe ''network_bridge'' networkBridge)
        else if \<not> isSafeContainerIP networkIP then Inl (Refused ''network_ip must be dhcp or IPv4/CIDR'' networkIP)
        else Inr \<lparr>cc_CTID = ctid, cc_OSTemplate = ostemplate, cc_Hostname = hostname,
                  cc_Memory = IntParam params ''memory'' 512, cc_Cores = IntParam params ''cores'' 0,
                  cc_Storage = storage, cc_Disk = IntParam params ''disk_gb'' 8, cc_Bridge = networkBridge,
                  cc_IP = networkIP,
                  cc_Unprivileged = (if params ''unprivileged'' \<noteq> None then BoolParam params ''unprivileged'' else True)\<rparr>))"

definition ct_create_args :: "CtParams \<Rightarrow> string \<Rightarrow> string list" where
  "ct_create_args c storage =
     [''create'', cc_CTID c, cc_OSTemplate c, ''--memory'', Itoa (cc_Memory c),
      ''--rootfs'', storage @ '':'' @ Itoa (cc_Disk c),
      ''--net0'', ''name=eth0,bridge='' @ cc_Bridge c @ '',ip='' @ cc_IP c,
      ''--unprivileged'', boolInt (cc_Unprivileged c)] @
     (if cc_Cores c > 0 then [''--cores'', Itoa (cc_Cores c)] else []) @
     (if cc_Hostname c \<noteq> [] then [''--hostname'', cc_Hostname c] else [])"

definition CreateCT :: "px_env \<Rightarrow> params \<Rightarrow> unit px" where
  "CreateCT e params =
     px_bind (px_lift (validate_ct params)) (\<lambda>c.
     px_bind (Pct e [''config'', cc_CTID c]) (\<lambda>(result, _).
       if xr_ExitCode result = 0 then px_return ()
       else px_bind (ResolveStorage e (cc_Storage c) ''rootdir'') (\<lambda>storage.
              must_do ''ct.create'' (Pct e (ct_create_args c storage)))))"

fun ct_update_args :: "(string \<times> any) list \<Rightarrow> px_error + string list" where
  "ct_update_args [] = Inr []"
| "ct_update_args ((key, val) # options) =
     (if key \<notin> set ctUpdateAllowlist then Inl (Refused ''not in the allowlist'' key)
      else let sval = any_text val in
        if \<not> IsSafeToken sval then Inl (ParamUnsafe key sval)
        else bind_result (ct_update_args options) (\<lambda>rest. Inr ([''--'' @ key, sval] @ rest)))"

definition UpdateCT :: "px_env \<Rightarrow> params \<Rightarrow> unit px" where
  "UpdateCT e params =
     px_bind (px_lift (RequiredVMID params ''ctid'')) (\<lambda>ctid.
     case params ''options'' of
       Some (AMap options) \<Rightarrow>
         if options = [] then px_fail (ParamRequired ''options'')
         else px_bind (px_lift (ct_update_args options)) (\<lambda>rest.
                must_do ''ct.update'' (Pct e ([''set'', ctid] @ rest)))
     | _ \<Rightarrow> px_fail (ParamRequired ''options''))"

definition ctStatus :: "px_env \<Rightarrow> string \<Rightarrow> string px" where
  "ctStatus e ctid =
     px_bind (must (''ct.status '' @ ctid) (Pct e [''status'', ctid])) (\<lambda>result.
       let line = StdoutString result in
       px_return (if length line > 8 then drop 8 line else ''unknown''))"

definition DeleteCT :: "px_env \<Rightarrow> params \<Rightarrow> unit px" where
  "DeleteCT e params =
     px_bind (px_lift (RequiredVMID params ''ctid'')) (\<lambda>ctid.
     px_bind (Pct e [''config'', ctid]) (\<lambda>(result, _).
       if xr_ExitCode result \<noteq> 0 then px_return ()
       else px_bind (ctStatus e ctid) (\<lambda>status.
         if status = ''running'' then px_fail (Refused ''is running'' ctid)
         else must_do ''ct.delete'' (Pct e [''destroy'', ctid]))))"

definition simple_ct :: "px_env \<Rightarrow> params \<Rightarrow> string \<Rightarrow> string \<Rightarrow> unit px" where
  "simple_ct e params op verb =
     px_bind (px_lift (RequiredVMID params ''ctid'')) (\<lambda>ctid. must_do op (Pct e [verb, ctid]))"

definition StartCT :: "px_env \<Rightarrow> params \<Rightarrow> unit px" where
  "StartCT e params = simple_ct e params ''ct.start'' ''start''"

definition StopCT :: "px_env \<Rightarrow> params \<Rightarrow> unit px" where
  "StopCT e params = simple_ct e params ''ct.stop'' ''stop''"

definition RebootCT :: "px_env \<Rightarrow> params \<Rightarrow> unit px" where
  "RebootCT e params = simple_ct e params ''ct.reboot'' ''reboot''"

definition MountAdd :: "px_env \<Rightarrow> params \<Rightarrow> unit px" where
  "MountAdd e params =
     px_bind (px_lift (RequiredVMID params ''ctid'')) (\<lambda>ctid.
     px_bind (px_lift (RequiredSafeVolume params ''volume'')) (\<lambda>volume.
     px_bind (px_lift (RequiredAbsolutePath params ''mountpoint'')) (\<lambda>mountpoint.
       must_do ''ct.mount.add''
         (Pct e [''set'', ctid, ''--mp'' @ Itoa (IntParam params ''slot'' 0), volume @ '',mp='' @ mountpoint]))))"

definition MountRemove :: "px_env \<Rightarrow> params \<Rightarrow> unit px" where
  "MountRemove e params =
     px_bind (px_lift (RequiredVMID params ''ctid'')) (\<lambda>ctid.
       must_do ''ct.mount.remove''
         (Pct e [''set'', ctid, ''--delete'', ''mp'' @ Itoa (IntParam params ''slot'' 0)]))"

subsection \<open>Snapshots\<close>

definition CreateSnapshot :: "px_env \<Rightarrow> params \<Rightarrow> unit px" where
  "CreateSnapshot e params =
     px_bind (px_lift (RequiredVMID params ''vmid'')) (\<lambda>vmid.
     px_bind (px_lift (RequiredSafeToken params ''name'')) (\<lambda>name.
     let description = StringParam params ''description'' [];
         args = [''snapshot'', vmid, name] @ (if description \<noteq> [] then [''--description'', description] else [])
     in px_check
          (\<not> (description \<noteq> [] \<and>
              ContainsAny description [CHR '';'', CHR 0x0A, CHR 0x0D, CHR 0x60, CHR ''$'', CHR 0x5C]))
          (ParamUnsafe ''description'' description)
          (px_bind (Qm e args) (\<lambda>(_, err).
             case err of
               None \<Rightarrow> px_return ()
             | Some msg \<Rightarrow>
                 if Contains msg ''already exists'' then px_fail (Refused ''SNAPSHOT_EXISTS'' name)
                 else px_fail (CommandFailed ''vm.snapshot.create'' msg)))))"

definition snapshot_command :: "px_env \<Rightarrow> params \<Rightarrow> string \<Rightarrow> string \<Rightarrow> unit px" where
  "snapshot_command e params op verb =
     px_bind (px_lift (RequiredVMID params ''vmid'')) (\<lambda>vmid.
     px_bind (px_lift (RequiredSafeToken params ''name'')) (\<lambda>name. must_do op (Qm e [verb, vmid, name])))"

definition DeleteSnapshot :: "px_env \<Rightarrow> params \<Rightarrow> unit px" where
  "DeleteSnapshot e params = snapshot_command e params ''vm.snapshot.delete'' ''delsnapshot''"

definition RollbackSnapshot :: "px_env \<Rightarrow> params \<Rightarrow> unit px" where
  "RollbackSnapshot e params = snapshot_command e params ''vm.snapshot.rollback'' ''rollback''"

definition ListSnapshots :: "px_env \<Rightarrow> params \<Rightarrow> string px" where
  "ListSnapshots e params =
     px_bind (px_lift (RequiredVMID params ''vmid'')) (\<lambda>vmid.
     px_bind (must ''vm.snapshot.list'' (Qm e [''listsnapshot'', vmid])) (\<lambda>result.
       px_return (StdoutString result)))"

subsection \<open>Templates and ISO images\<close>

definition ConvertTemplate :: "px_env \<Rightarrow> params \<Rightarrow> unit px" where
  "ConvertTemplate e params =
     px_bind (px_lift (RequiredVMID params ''vmid'')) (\<lambda>vmid.
       must_do ''vm.template.convert'' (Qm e [''template'', vmid]))"

definition CloneTemplate :: "px_env \<Rightarrow> params \<Rightarrow> unit px" where
  "CloneTemplate e params =
     px_bind (px_lift (RequiredVMID params ''template_vmid'')) (\<lambda>templateVMID.
     px_bind (px_lift (RequiredVMID params ''new_vmid'')) (\<lambda>newVMID.
     let name = StringParam params ''name'' [];
         args = [''clone'', templateVMID, newVMID, ''--full''] @ (if name \<noteq> [] then [''--name'', name] else [])
     in px_check (\<not> (name \<noteq> [] \<and> \<not> IsSafeToken name)) (ParamUnsafe ''name'' name)
          (must_do ''vm.template.clone'' (Qm e args))))"

definition allowed_urls :: "params \<Rightarrow> string list" where
  "allowed_urls params =
     (case params ''allowed_urls'' of
        Some (AArr us) \<Rightarrow>
          List.map_filter (\<lambda>u. case u of AStr s \<Rightarrow> if HasPrefix s ''https://'' then Some s else None | _ \<Rightarrow> None) us
      | _ \<Rightarrow> [])"

definition UploadISO :: "px_env \<Rightarrow> params \<Rightarrow> unit px" where
  "UploadISO e params =
     px_bind (px_lift (RequiredSafeToken params ''storage'')) (\<lambda>storage.
     let allowlist = allowed_urls params; url = StringParam params ''url'' [] in
     if allowlist = [] then px_fail (ParamRequired ''allowed_urls'')
     else if url = [] then px_fail (ParamRequired ''url'')
     else if \<not> list_ex (\<lambda>allowed. url = allowed) allowlist then px_fail (Refused ''not in the allowlist'' url)
     else must_do ''iso.upload'' (Pvesm e [''upload'', storage, url]))"

subsection \<open>Cluster\<close>

fun hex_pairs :: "nat \<Rightarrow> string \<Rightarrow> bool" where
  "hex_pairs 0 s = (case s of [a, b] \<Rightarrow> is_hex a \<and> is_hex b | _ \<Rightarrow> False)"
| "hex_pairs (Suc n) s =
     (case s of a # b # c # t \<Rightarrow> is_hex a \<and> is_hex b \<and> c = CHR '':'' \<and> hex_pairs n t | _ \<Rightarrow> False)"

text \<open>The regular expression: 31 pairs of hexadecimal digits with a colon, and one pair.\<close>

definition fingerprintRe :: "string \<Rightarrow> bool" where
  "fingerprintRe s = hex_pairs 31 s"

definition JoinCluster :: "px_env \<Rightarrow> params \<Rightarrow> unit px" where
  "JoinCluster e params =
     (let leaderIP = StringParam params ''leader_ip'' []; fingerprint = StringParam params ''fingerprint'' [] in
      if leaderIP = [] then px_fail (ParamRequired ''leader_ip'')
      else if \<not> fingerprintRe fingerprint then px_fail (Refused ''FINGERPRINT_MISMATCH'' fingerprint)
      else if ContainsAny leaderIP [CHR '';'', CHR '' '', CHR 0x09, CHR 0x0A, CHR 0x0D, CHR 0x60, CHR ''$'']
      then px_fail (ParamUnsafe ''leader_ip'' leaderIP)
      else must_do ''pve.cluster.join'' (Pvecm e [''add'', leaderIP, ''--fingerprint'', fingerprint]))"

definition ClusterStatus :: "px_env \<Rightarrow> bytes px" where
  "ClusterStatus e =
     px_bind (must ''pve.cluster.status'' (Pvecm e [''status'', ''--output-format'', ''json''])) (\<lambda>result.
       px_return (xr_Stdout result))"

definition isOnlyQuorumNode :: "string \<Rightarrow> bool" where
  "isOnlyQuorumNode output =
     (let ls = map TrimSpace (Split output newline);
          singleNode = list_ex (\<lambda>l. HasPrefix l ''Nodes:'' \<and> Contains l ''1'') ls;
          quorate = list_ex (\<lambda>l. HasPrefix l ''Quorate:'' \<and> Contains l ''Yes'') ls
      in quorate \<and> singleNode)"

definition LeaveCluster :: "px_env \<Rightarrow> params \<Rightarrow> unit px" where
  "LeaveCluster e params =
     px_bind (px_lift (RequiredSafeToken params ''node'')) (\<lambda>nodeName.
     px_bind (must ''pve.cluster.leave: cannot read cluster status'' (Pvecm e [''status''])) (\<lambda>statusResult.
       if isOnlyQuorumNode (StdoutString statusResult) then px_fail (Refused ''only quorum-holder'' [])
       else must_do ''pve.cluster.leave'' (Pvecm e [''delnode'', nodeName])))"

subsection \<open>Cloud-init data\<close>

definition DefaultSnippetDir :: string where
  "DefaultSnippetDir = ''/var/lib/vz/snippets''"

definition snippetName :: "string \<Rightarrow> string \<Rightarrow> string" where
  "snippetName vmid jobID = ''userdata-'' @ vmid @ ''-'' @ jobID @ ''.yaml''"

definition snippet_ids :: "params \<Rightarrow> px_error + (string \<times> string)" where
  "snippet_ids params =
     bind_result (RequiredVMID params ''vmid'') (\<lambda>vmid.
     let jobID = StringParam params ''job_id'' [] in
     if jobID = [] then Inl (ParamRequired ''job_id'')
     else if \<not> IsJobID jobID then Inl (ParamUnsafe ''job_id'' jobID)
     else Inr (vmid, jobID))"

text \<open>How writing the snippet ends; a failed close leaves what was written.\<close>

datatype snippet_write = SnippetOk | SnippetMkdir | SnippetCreate | SnippetWrite | SnippetClose

definition write_snippet :: "snippet_write \<Rightarrow> string \<Rightarrow> string \<Rightarrow> unit px" where
  "write_snippet outcome path userdata w =
     (case outcome of
        SnippetMkdir \<Rightarrow> (Inl (CommandFailed ''provisioning.apply: mkdir'' []), w)
      | SnippetCreate \<Rightarrow> (Inl (CommandFailed ''provisioning.apply: create snippet'' []), w)
      | SnippetWrite \<Rightarrow>
          (Inl (CommandFailed ''provisioning.apply: write snippet'' []), w\<lparr>px_files := (px_files w)(path := None)\<rparr>)
      | SnippetClose \<Rightarrow>
          (Inl (CommandFailed ''provisioning.apply: close snippet'' []), w\<lparr>px_files := (px_files w)(path \<mapsto> userdata)\<rparr>)
      | SnippetOk \<Rightarrow> (Inr (), w\<lparr>px_files := (px_files w)(path \<mapsto> userdata)\<rparr>))"

definition ApplyWithDir ::
  "(string \<Rightarrow> bool) \<Rightarrow> snippet_write \<Rightarrow> px_env \<Rightarrow> params \<Rightarrow> string \<Rightarrow> unit px" where
  "ApplyWithDir is_yaml outcome e params dir =
     px_bind (px_lift (snippet_ids params)) (\<lambda>(vmid, jobID).
     case params ''userdata'' of
       Some (AStr userdata) \<Rightarrow>
         if userdata = [] then px_fail (ParamRequired ''userdata'')
         else if \<not> is_yaml userdata then px_fail (Refused ''userdata is not valid YAML'' [])
         else px_bind (write_snippet outcome (JoinPath [dir, snippetName vmid jobID]) userdata) (\<lambda>_.
                must_do ''provisioning.apply: qm set cicustom''
                  (Qm e [''set'', vmid, ''--cicustom'', ''user=local:snippets/'' @ snippetName vmid jobID]))
     | _ \<Rightarrow> px_fail (ParamRequired ''userdata''))"

definition Apply :: "(string \<Rightarrow> bool) \<Rightarrow> snippet_write \<Rightarrow> px_env \<Rightarrow> params \<Rightarrow> unit px" where
  "Apply is_yaml outcome e params = ApplyWithDir is_yaml outcome e params DefaultSnippetDir"

text \<open>Removing a file that does not exist is not an error; \<open>can_remove\<close> says whether the system allows it.\<close>

definition CleanupWithDir :: "bool \<Rightarrow> params \<Rightarrow> string \<Rightarrow> unit px" where
  "CleanupWithDir can_remove params dir =
     px_bind (px_lift (snippet_ids params)) (\<lambda>(vmid, jobID) w.
     let path = JoinPath [dir, snippetName vmid jobID] in
     if px_files w path = None then (Inr (), w)
     else if can_remove then (Inr (), w\<lparr>px_files := (px_files w)(path := None)\<rparr>)
     else (Inl (CommandFailed ''provisioning.cleanup'' []), w))"

definition Cleanup :: "bool \<Rightarrow> params \<Rightarrow> unit px" where
  "Cleanup can_remove params = CleanupWithDir can_remove params DefaultSnippetDir"

subsection \<open>Every handler stays within what is permitted\<close>

lemma validate_ct_CTID: "validate_ct params = Inr c \<Longrightarrow> isNumericVMID (cc_CTID c)"
  by (auto simp: validate_ct_def bind_result_def Let_def split: sum.splits if_splits dest: RequiredVMID_Inr)

lemmas ct_simps = qm_verbs_def pct_verbs_def px_lift_def

lemma handler_ok_CreateCT [px_rules]: "handler_ok e (CreateCT e params)"
  unfolding CreateCT_def ct_create_args_def append_Cons
  by (intro px_rules runs_only_bind) (auto simp: ct_simps dest: validate_ct_CTID)

lemma handler_ok_UpdateCT [px_rules]: "handler_ok e (UpdateCT e params)"
proof -
  have "handler_ok e (case params ''options'' of
       Some (AMap options) \<Rightarrow>
         if options = [] then px_fail (ParamRequired ''options'')
         else px_bind (px_lift (ct_update_args options)) (\<lambda>rest.
                must_do ''ct.update'' (Pct e ([''set'', ctid] @ rest)))
     | _ \<Rightarrow> px_fail (ParamRequired ''options''))" if "isNumericVMID ctid" for ctid
    using that by (auto simp: ct_simps intro!: px_rules split: option.split any.split)
  then show ?thesis
    unfolding UpdateCT_def by (intro runs_only_bind_lift) (auto dest: RequiredVMID_Inr)
qed

lemma handler_ok_ctStatus [px_rules]: "isNumericVMID ctid \<Longrightarrow> handler_ok e (ctStatus e ctid)"
  unfolding ctStatus_def Let_def by (intro px_rules runs_only_bind) (auto simp: ct_simps)

lemma handler_ok_DeleteCT [px_rules]: "handler_ok e (DeleteCT e params)"
  unfolding DeleteCT_def by (intro px_rules runs_only_bind) (auto simp: ct_simps dest: RequiredVMID_Inr)

lemma handler_ok_simple_ct: "verb \<in> set pct_verbs \<Longrightarrow> handler_ok e (simple_ct e params op verb)"
  unfolding simple_ct_def by (intro px_rules runs_only_bind) (auto simp: px_lift_def dest: RequiredVMID_Inr)

lemma handler_ok_ct_lifecycle [px_rules]:
  "handler_ok e (StartCT e params)" "handler_ok e (StopCT e params)" "handler_ok e (RebootCT e params)"
  unfolding StartCT_def StopCT_def RebootCT_def by (rule handler_ok_simple_ct, simp add: pct_verbs_def)+

lemma handler_ok_mounts [px_rules]: "handler_ok e (MountAdd e params)" "handler_ok e (MountRemove e params)"
  unfolding MountAdd_def MountRemove_def
  by (intro px_rules runs_only_bind; auto simp: ct_simps dest: RequiredVMID_Inr)+

lemma handler_ok_CreateSnapshot [px_rules]: "handler_ok e (CreateSnapshot e params)"
  unfolding CreateSnapshot_def Let_def append_Cons
  by (intro px_rules runs_only_bind) (auto simp: ct_simps dest: RequiredVMID_Inr)

lemma handler_ok_snapshot_command: "verb \<in> set qm_verbs \<Longrightarrow> handler_ok e (snapshot_command e params op verb)"
  unfolding snapshot_command_def by (intro px_rules runs_only_bind) (auto simp: px_lift_def dest: RequiredVMID_Inr)

lemma handler_ok_snapshots [px_rules]:
  "handler_ok e (DeleteSnapshot e params)" "handler_ok e (RollbackSnapshot e params)"
  unfolding DeleteSnapshot_def RollbackSnapshot_def by (rule handler_ok_snapshot_command, simp add: qm_verbs_def)+

lemma handler_ok_ListSnapshots [px_rules]: "handler_ok e (ListSnapshots e params)"
  unfolding ListSnapshots_def by (intro px_rules runs_only_bind) (auto simp: ct_simps dest: RequiredVMID_Inr)

lemma handler_ok_templates [px_rules]:
  "handler_ok e (ConvertTemplate e params)" "handler_ok e (CloneTemplate e params)"
  unfolding ConvertTemplate_def CloneTemplate_def Let_def append_Cons
  by (intro px_rules runs_only_bind; auto simp: ct_simps dest: RequiredVMID_Inr)+

lemma allowed_urls_https: "url \<in> set (allowed_urls params) \<Longrightarrow> HasPrefix url ''https://''"
  by (auto simp: allowed_urls_def List.map_filter_def split: option.splits any.splits if_splits)

lemma handler_ok_UploadISO [px_rules]: "handler_ok e (UploadISO e params)"
  unfolding UploadISO_def Let_def
  by (intro px_rules runs_only_bind)
    (auto simp: px_lift_def list_ex_iff dest: RequiredSafeToken_Inr allowed_urls_https)

lemma handler_ok_cluster [px_rules]:
  "handler_ok e (JoinCluster e params)" "handler_ok e (ClusterStatus e)" "handler_ok e (LeaveCluster e params)"
  unfolding JoinCluster_def ClusterStatus_def LeaveCluster_def Let_def
  by (intro px_rules runs_only_bind; auto)+

lemma runs_only_write_snippet: "runs_only j P (write_snippet outcome path userdata)"
  by (auto simp: runs_only_def write_snippet_def split: snippet_write.split)

lemma snippet_ids_Inr: "snippet_ids params = Inr (vmid, jobID) \<Longrightarrow> isNumericVMID vmid \<and> IsJobID jobID"
  by (auto simp: snippet_ids_def bind_result_def Let_def split: sum.splits if_splits dest: RequiredVMID_Inr)

lemma handler_ok_Apply [px_rules]: "handler_ok e (Apply is_yaml outcome e params)"
proof -
  have "handler_ok e (case params ''userdata'' of
       Some (AStr userdata) \<Rightarrow>
         if userdata = [] then px_fail (ParamRequired ''userdata'')
         else if \<not> is_yaml userdata then px_fail (Refused ''userdata is not valid YAML'' [])
         else px_bind (write_snippet outcome (JoinPath [DefaultSnippetDir, snippetName vmid jobID]) userdata) (\<lambda>_.
                must_do ''provisioning.apply: qm set cicustom''
                  (Qm e [''set'', vmid, ''--cicustom'', ''user=local:snippets/'' @ snippetName vmid jobID]))
     | _ \<Rightarrow> px_fail (ParamRequired ''userdata''))" if "isNumericVMID vmid" for vmid jobID
    using that
    by (auto simp: ct_simps intro!: px_rules runs_only_bind runs_only_write_snippet split: option.split any.split)
  then show ?thesis
    unfolding Apply_def ApplyWithDir_def
    by (intro runs_only_bind_lift runs_only_prod) (auto dest: snippet_ids_Inr)
qed

lemma handler_ok_Cleanup [px_rules]: "handler_ok e (Cleanup can_remove params)"
  unfolding Cleanup_def CleanupWithDir_def
  by (intro runs_only_bind_lift) (auto simp: runs_only_def Let_def split: prod.split)

subsection \<open>Cloud-init data stays in its directory\<close>

lemma no_slash: "isAlphaNum c \<or> c = CHR ''-'' \<or> c = CHR ''_'' \<Longrightarrow> c \<noteq> slash"
  by (auto simp: isAlphaNum_def byte_in_def slash_def)

lemma snippetName_plain:
  assumes "isNumericVMID vmid" and "IsJobID jobID"
  shows "plain_part (snippetName vmid jobID)"
proof -
  have "slash \<notin> set vmid"
    using assms(1) by (auto simp: isNumericVMID_def list_all_iff byte_in_def slash_def split: if_splits)
  moreover have "slash \<notin> set jobID"
    using assms(2) no_slash by (auto simp: IsJobID_def list_all_iff split: if_splits)
  ultimately show ?thesis by (simp add: plain_part_def snippetName_def slash_def)
qed

lemma must_do_files: "px_files (snd (must_do op (Qm e args) w)) = px_files w"
  by (simp add: must_do_def must_def px_bind_def Qm_def exec_run_def px_return_def px_fail_def Let_def
      split: option.split)

text \<open>
  C26: cloud-init data stays where it belongs. Whatever the request, applying it touches at most one
  file, a \<open>userdata-*.yaml\<close> directly in the snippet directory; a successful application leaves the
  user's data there, unchanged; and cleaning up under the same parameters removes exactly that file.
\<close>
theorem provisioning_confined_and_undone:
  assumes "ps \<noteq> []" and "\<forall>p \<in> set ps. plain_part p"
    and "ApplyWithDir is_yaml outcome e params (abs_path ps) w = (r, w')"
  shows "\<exists>n. plain_part n \<and> (\<forall>path. path \<noteq> abs_path (ps @ [n]) \<longrightarrow> px_files w' path = px_files w path) \<and>
    (\<forall>u. r = Inr u \<longrightarrow>
       map_option AStr (px_files w' (abs_path (ps @ [n]))) = params ''userdata'' \<and>
       CleanupWithDir True params (abs_path ps) w' =
         (Inr (), w'\<lparr>px_files := (px_files w')(abs_path (ps @ [n]) := None)\<rparr>))"
proof (cases "snippet_ids params")
  case (Inl err)
  with assms(3) have "w' = w" "r = Inl err" by (auto simp: ApplyWithDir_def px_bind_def px_lift_def)
  then show ?thesis by (intro exI [of _ "''x''"]) (simp add: plain_part_def slash_def)
next
  case (Inr ids)
  obtain vmid jobID where ids: "ids = (vmid, jobID)" by (cases ids)
  let ?n = "snippetName vmid jobID"
  have plain: "plain_part ?n" using snippet_ids_Inr [of params] Inr ids snippetName_plain by simp
  then have path: "JoinPath [abs_path ps, ?n] = abs_path (ps @ [?n])"
    using JoinPath_name [OF assms(2,1)] by simp
  show ?thesis
  proof (cases "\<exists>u. params ''userdata'' = Some (AStr u) \<and> u \<noteq> [] \<and> is_yaml u")
    case False
    with assms(3) Inr ids have "w' = w" "\<exists>err. r = Inl err"
      by (auto simp: ApplyWithDir_def px_bind_def px_lift_def px_fail_def split: option.splits any.splits if_splits)
    then show ?thesis using plain by auto
  next
    case True
    then obtain u where u: "params ''userdata'' = Some (AStr u)" "u \<noteq> []" "is_yaml u" by blast
    obtain r1 w1 where wr: "write_snippet outcome (abs_path (ps @ [?n])) u w = (r1, w1)" by fastforce
    then have other: "\<forall>path. path \<noteq> abs_path (ps @ [?n]) \<longrightarrow> px_files w1 path = px_files w path"
      and ok: "r1 = Inr x \<Longrightarrow> px_files w1 (abs_path (ps @ [?n])) = Some u" for x
      by (auto simp: write_snippet_def split: snippet_write.splits)
    have "px_files w' = px_files w1 \<and> (\<forall>x. r = Inr x \<longrightarrow> (\<exists>y. r1 = Inr y))"
      using assms(3) Inr ids u wr path must_do_files
      by (cases r1) (auto simp: ApplyWithDir_def px_bind_def px_lift_def dest!: arg_cong [of _ _ "\<lambda>p. px_files (snd p)"])
    with other ok u plain path Inr ids show ?thesis
      by (intro exI [of _ ?n]) (auto simp: CleanupWithDir_def px_bind_def px_lift_def Let_def)
  qed
qed

definition sample_cloud_init :: params where
  "sample_cloud_init = [''vmid'' \<mapsto> AStr ''100'', ''job_id'' \<mapsto> AStr ''job-1'', ''userdata'' \<mapsto> AStr ''#cloud-config'']"

definition quiet_env :: px_env where
  "quiet_env =
     \<lparr>pe_PveshPath = [], pe_QmPath = ''qm'', pe_PctPath = [], pe_PvesmPath = [], pe_PvecmPath = [], pe_JobID = [],
      pe_hostname = None,
      pe_host = (\<lambda>n b args. \<lparr>pa_stdout = [], pa_stderr = [], pa_end = Exited 0, pa_deadline = False, pa_text = []\<rparr>)\<rparr>"

theorem provisioning_confined_and_undone_witness:
  "\<exists>n w'. ApplyWithDir (\<lambda>_. True) SnippetOk quiet_env sample_cloud_init (abs_path [''snippets''])
       \<lparr>px_events = [], px_files = Map.empty\<rparr> = (Inr (), w') \<and> plain_part n \<and>
     CleanupWithDir True sample_cloud_init (abs_path [''snippets'']) w' =
       (Inr (), w'\<lparr>px_files := (px_files w')(abs_path [''snippets'', n] := None)\<rparr>)"
proof -
  have ids: "snippet_ids sample_cloud_init = Inr (''100'', ''job-1'')"
    by (simp add: snippet_ids_def sample_cloud_init_def RequiredVMID_def StringParam_def bind_result_def) code_simp
  obtain r w' where run: "ApplyWithDir (\<lambda>_. True) SnippetOk quiet_env sample_cloud_init (abs_path [''snippets''])
       \<lparr>px_events = [], px_files = Map.empty\<rparr> = (r, w')" by fastforce
  have "r = Inr ()"
    using run ids
    by (simp add: ApplyWithDir_def px_bind_def px_lift_def sample_cloud_init_def write_snippet_def must_do_def must_def
        Qm_def exec_run_def quiet_env_def error_text_def run_error_def px_return_def Let_def)
  moreover have "\<forall>p \<in> set [''snippets'']. plain_part p" by (simp add: plain_part_def slash_def)
  ultimately show ?thesis
    using provisioning_confined_and_undone [OF _ _ run] run by auto
qed

end
