(* ===== verification/Hypervisor_Main.thy ===== *)
theory Hypervisor_Main
  imports Hypervisor_CT Envelope_Verify
begin

text \<open>
  The command dispatcher of pmx-hypervisor, \<open>src/hypervisor/cmd/pmx-hypervisor/main.go\<close>, its
  configuration, \<open>src/hypervisor/internal/config/config.go\<close>, and the choice of a backend,
  \<open>src/hypervisor/internal/provider/detect.go\<close>. A semaphore is the number of its slots in use; a handler
  that finds no free slot would wait for ever, because handlers run one after the other: that is
  the value \<^const>\<open>None\<close>. The text of an error is the parameter \<open>show_err\<close>.
\<close>

subsection \<open>Configuration\<close>

record HvProxmoxConfig =
  hp_PveshPath :: string
  hp_QmPath :: string
  hp_PctPath :: string
  hp_PvesmPath :: string
  hp_PvecmPath :: string

record HvLimitsConfig =
  hl_MaxConcurrentVMCreate :: int
  hl_MaxConcurrentMigration :: int

record HvConfig =
  hc_URL :: string
  hc_CACert :: string
  hc_AuthToken :: string
  hc_Cert :: string
  hc_Key :: string
  hc_KeysetPath :: string
  hc_Proxmox :: HvProxmoxConfig
  hc_Limits :: HvLimitsConfig

datatype hv_config_error = HvRead string | HvParse string | HvUnknownKey string | HvURLRequired | HvURLScheme string

definition default_string :: "string \<Rightarrow> string \<Rightarrow> string" where
  "default_string s d = (if s = [] then d else s)"

definition default_positive :: "int \<Rightarrow> int \<Rightarrow> int" where
  "default_positive n d = (if n \<le> 0 then d else n)"

definition hv_validate :: "HvConfig \<Rightarrow> hv_config_error + HvConfig" where
  "hv_validate c =
     (if hc_URL c = [] then Inl HvURLRequired
      else if \<not> HasPrefix (hc_URL c) ''wss://'' \<and> \<not> HasPrefix (hc_URL c) ''ws://'' then Inl (HvURLScheme (hc_URL c))
      else Inr (c\<lparr>
        hc_KeysetPath := default_string (hc_KeysetPath c) ''/etc/pmx-cloud/keyset.pub'',
        hc_Proxmox :=
          \<lparr>hp_PveshPath = default_string (hp_PveshPath (hc_Proxmox c)) ''/usr/bin/pvesh'',
           hp_QmPath = default_string (hp_QmPath (hc_Proxmox c)) ''/usr/sbin/qm'',
           hp_PctPath = default_string (hp_PctPath (hc_Proxmox c)) ''/usr/sbin/pct'',
           hp_PvesmPath = default_string (hp_PvesmPath (hc_Proxmox c)) ''/usr/sbin/pvesm'',
           hp_PvecmPath = default_string (hp_PvecmPath (hc_Proxmox c)) ''/usr/sbin/pvecm''\<rparr>,
        hc_Limits :=
          \<lparr>hl_MaxConcurrentVMCreate = default_positive (hl_MaxConcurrentVMCreate (hc_Limits c)) 4,
           hl_MaxConcurrentMigration = default_positive (hl_MaxConcurrentMigration (hc_Limits c)) 2\<rparr>\<rparr>))"

definition hv_parse :: "(string \<Rightarrow> string + (HvConfig \<times> string list)) \<Rightarrow> bytes \<Rightarrow> hv_config_error + HvConfig" where
  "hv_parse toml data =
     (case toml data of
        Inl e \<Rightarrow> Inl (HvParse e)
      | Inr (cfg, undecoded) \<Rightarrow>
          (case undecoded of key # _ \<Rightarrow> Inl (HvUnknownKey key) | [] \<Rightarrow> hv_validate cfg))"

definition hv_load ::
  "(string \<Rightarrow> string + (HvConfig \<times> string list)) \<Rightarrow> (string \<rightharpoonup> bytes) \<Rightarrow> string \<Rightarrow> hv_config_error + HvConfig" where
  "hv_load toml fs path = (case fs path of None \<Rightarrow> Inl (HvRead path) | Some data \<Rightarrow> hv_parse toml data)"

definition hv_default :: HvConfig where
  "hv_default =
     \<lparr>hc_URL = ''wss://localhost:8443/ws/agent/hypervisor'', hc_CACert = ''/etc/pmx-cloud/backend-ca.crt'',
      hc_AuthToken = [], hc_Cert = ''/etc/pmx-cloud/pmx-hypervisor/client.crt'',
      hc_Key = ''/etc/pmx-cloud/pmx-hypervisor/client.key'', hc_KeysetPath = ''/etc/pmx-cloud/keyset.pub'',
      hc_Proxmox = \<lparr>hp_PveshPath = ''/usr/bin/pvesh'', hp_QmPath = ''/usr/sbin/qm'', hp_PctPath = ''/usr/sbin/pct'',
        hp_PvesmPath = ''/usr/sbin/pvesm'', hp_PvecmPath = ''/usr/sbin/pvecm''\<rparr>,
      hc_Limits = \<lparr>hl_MaxConcurrentVMCreate = 4, hl_MaxConcurrentMigration = 2\<rparr>\<rparr>"

subsection \<open>Backend\<close>

datatype Kind = KindProxmox | KindLibvirt | KindNone

definition hasBinary :: "(string \<Rightarrow> bool) \<Rightarrow> string \<Rightarrow> string \<Rightarrow> bool" where
  "hasBinary look_path name fallbackPath =
     (if look_path name then True else if fallbackPath = [] then False else look_path fallbackPath)"

definition Detect :: "(string \<Rightarrow> bool) \<Rightarrow> Kind" where
  "Detect look_path =
     (if hasBinary look_path ''pveversion'' ''/usr/bin/pveversion'' then KindProxmox
      else if hasBinary look_path ''virsh'' ''/usr/bin/virsh'' then KindLibvirt
      else KindNone)"

definition resolveProviderKind :: "(string \<Rightarrow> bool) \<Rightarrow> string \<Rightarrow> Kind" where
  "resolveProviderKind look_path arg =
     (if arg = ''auto'' \<or> arg = [] then Detect look_path
      else if arg = ''proxmox'' then KindProxmox
      else if arg = ''libvirt'' then KindLibvirt
      else if arg = ''none'' then KindNone
      else Detect look_path)"

subsection \<open>Dispatch\<close>

datatype sem = NoSem | VmCreateSem | MigrateSem

record hv_state =
  hv_px :: px_world
  hv_vmCreate :: nat
  hv_migrate :: nat

text \<open>What the handlers need besides the tools: YAML, and how the file system answers.\<close>

record hv_io =
  io_yaml :: "string \<Rightarrow> bool"
  io_snippet :: snippet_write
  io_remove :: bool

definition newExec :: "HvConfig \<Rightarrow> px_env \<Rightarrow> string \<Rightarrow> px_env" where
  "newExec cfg e jobID =
     e\<lparr>pe_PveshPath := hp_PveshPath (hc_Proxmox cfg), pe_QmPath := hp_QmPath (hc_Proxmox cfg),
       pe_PctPath := hp_PctPath (hc_Proxmox cfg), pe_PvesmPath := hp_PvesmPath (hc_Proxmox cfg),
       pe_PvecmPath := hp_PvecmPath (hc_Proxmox cfg), pe_JobID := jobID\<rparr>"

definition ok_json :: bytes where
  "ok_json = json_text (JObj [(''ok'', JBool True)])"

definition ok_px :: "unit px \<Rightarrow> bytes px" where
  "ok_px m = px_bind m (\<lambda>_. px_return ok_json)"

text \<open>The cases of the switch: the semaphore a command holds, and its handler.\<close>

definition hv_commands :: "hv_io \<Rightarrow> px_env \<Rightarrow> params \<Rightarrow> (string \<times> sem \<times> bytes px) list" where
  "hv_commands io e p =
     [(''vm.list'', NoSem, ListInventory e ''qemu''),
      (''ct.list'', NoSem, ListInventory e ''lxc''),
      (''vm.create'', VmCreateSem, ok_px (CreateVM e p)),
      (''vm.update'', NoSem, ok_px (UpdateVM e p)),
      (''vm.start'', NoSem, ok_px (StartVM e p)),
      (''vm.stop'', NoSem, ok_px (StopVM e p)),
      (''vm.reboot'', NoSem, ok_px (RebootVM e p)),
      (''vm.reset'', NoSem, ok_px (ResetVM e p)),
      (''vm.suspend'', NoSem, ok_px (SuspendVM e p)),
      (''vm.resume'', NoSem, ok_px (ResumeVM e p)),
      (''vm.delete'', NoSem, ok_px (DeleteVM e p)),
      (''vm.migrate'', MigrateSem, ok_px (MigrateVM e p)),
      (''vm.disk.attach'', NoSem, ok_px (DiskAttach e p)),
      (''vm.disk.detach'', NoSem, ok_px (DiskDetach e p)),
      (''vm.disk.resize'', NoSem, ok_px (DiskResize e p)),
      (''vm.snapshot.create'', NoSem, ok_px (CreateSnapshot e p)),
      (''vm.snapshot.delete'', NoSem, ok_px (DeleteSnapshot e p)),
      (''vm.snapshot.rollback'', NoSem, ok_px (RollbackSnapshot e p)),
      (''vm.snapshot.list'', NoSem,
         px_bind (ListSnapshots e p) (\<lambda>out. px_return (marshal_strings [(''snapshots'', out)]))),
      (''vm.template.convert'', NoSem, ok_px (ConvertTemplate e p)),
      (''vm.template.clone'', NoSem, ok_px (CloneTemplate e p)),
      (''vm.iso.upload'', NoSem, ok_px (UploadISO e p)),
      (''ct.create'', VmCreateSem, ok_px (CreateCT e p)),
      (''ct.update'', NoSem, ok_px (UpdateCT e p)),
      (''ct.delete'', NoSem, ok_px (DeleteCT e p)),
      (''ct.start'', NoSem, ok_px (StartCT e p)),
      (''ct.stop'', NoSem, ok_px (StopCT e p)),
      (''ct.reboot'', NoSem, ok_px (RebootCT e p)),
      (''ct.mount.add'', NoSem, ok_px (MountAdd e p)),
      (''ct.mount.remove'', NoSem, ok_px (MountRemove e p)),
      (''pve.cluster.join'', NoSem, ok_px (JoinCluster e p)),
      (''pve.cluster.leave'', NoSem, ok_px (LeaveCluster e p)),
      (''pve.cluster.status'', NoSem, ClusterStatus e),
      (''provisioning.apply'', NoSem, ok_px (Apply (io_yaml io) (io_snippet io) e p)),
      (''provisioning.cleanup'', NoSem, ok_px (Cleanup (io_remove io) p)),
      (''vm.create.synology-dsm'', VmCreateSem, ok_px (CreateVM e (SynologyDSMParams p))),
      (''vm.create.zimaos'', VmCreateSem, ok_px (CreateVM e (ZimaOSParams p)))]"

definition acquire :: "HvConfig \<Rightarrow> sem \<Rightarrow> hv_state \<Rightarrow> hv_state option" where
  "acquire cfg s st =
     (case s of
        NoSem \<Rightarrow> Some st
      | VmCreateSem \<Rightarrow>
          if int (hv_vmCreate st) < hl_MaxConcurrentVMCreate (hc_Limits cfg)
          then Some (st\<lparr>hv_vmCreate := Suc (hv_vmCreate st)\<rparr>) else None
      | MigrateSem \<Rightarrow>
          if int (hv_migrate st) < hl_MaxConcurrentMigration (hc_Limits cfg)
          then Some (st\<lparr>hv_migrate := Suc (hv_migrate st)\<rparr>) else None)"

definition release :: "sem \<Rightarrow> hv_state \<Rightarrow> hv_state" where
  "release s st =
     (case s of
        NoSem \<Rightarrow> st
      | VmCreateSem \<Rightarrow> st\<lparr>hv_vmCreate := hv_vmCreate st - 1\<rparr>
      | MigrateSem \<Rightarrow> st\<lparr>hv_migrate := hv_migrate st - 1\<rparr>)"

definition errJSON :: "string \<Rightarrow> bytes" where
  "errJSON msg = marshal_strings [(''error'', msg)]"

definition job_params :: "Envelope \<Rightarrow> params" where
  "job_params env =
     (case Params env of Some p \<Rightarrow> p | None \<Rightarrow> Map.empty)(''job_id'' \<mapsto> AStr (JobID env))"

definition hv_dispatch ::
  "(px_error \<Rightarrow> string) \<Rightarrow> hv_io \<Rightarrow> HvConfig \<Rightarrow> px_env \<Rightarrow> Envelope \<Rightarrow> hv_state \<Rightarrow>
   ((bytes \<times> px_error option) \<times> hv_state) option" where
  "hv_dispatch show_err io cfg e env st =
     (case map_of (hv_commands io e (job_params env)) (Command env) of
        None \<Rightarrow> Some ((errJSON (''UNSUPPORTED: '' @ Command env), None), st)
      | Some (s, handler) \<Rightarrow>
          (case acquire cfg s st of
             None \<Rightarrow> None
           | Some st1 \<Rightarrow>
               (let (r, w) = handler (hv_px st1); st2 = release s (st1\<lparr>hv_px := w\<rparr>)
                in Some (case r of Inr payload \<Rightarrow> ((payload, None), st2)
                                 | Inl err \<Rightarrow> ((errJSON (show_err err), Some err), st2)))))"

definition OnEnvelopeHv ::
  "(px_error \<Rightarrow> string) \<Rightarrow> hv_io \<Rightarrow> HvConfig \<Rightarrow> px_env \<Rightarrow> Envelope \<Rightarrow> hv_state \<Rightarrow>
   ((bytes \<times> px_error option) \<times> hv_state) option" where
  "OnEnvelopeHv show_err io cfg e env st =
     (case hv_dispatch show_err io cfg (newExec cfg e (JobID env)) env st of
        None \<Rightarrow> None
      | Some ((result, err), st1) \<Rightarrow>
          (let entry = PxAudit (JobID env) (Command env) ''complete'' (if err \<noteq> None then 1 else 0);
               w = hv_px st1
           in Some ((result, err), st1\<lparr>hv_px := w\<lparr>px_events := px_events w @ [entry]\<rparr>\<rparr>)))"

subsection \<open>Every command of the dispatcher\<close>

lemma hv_commands_ok: "(c, s, h) \<in> set (hv_commands io e p) \<Longrightarrow> handler_ok e h"
  unfolding hv_commands_def ok_px_def
  by (auto intro!: runs_only_bind intro: px_rules)

lemma hv_dispatch_trace:
  assumes "hv_dispatch show_err io cfg e env st = Some (r, st')"
  shows "\<exists>es. px_events (hv_px st') = px_events (hv_px st) @ es \<and> bracketed (pe_JobID e) es \<and>
    (\<forall>b args. PxRun b args \<in> set es \<longrightarrow> permitted e b args)"
proof (cases "map_of (hv_commands io e (job_params env)) (Command env)")
  case None
  with assms show ?thesis by (auto simp: hv_dispatch_def)
next
  case (Some sh)
  obtain s h where sh: "sh = (s, h)" by (cases sh)
  from Some have "handler_ok e h" using hv_commands_ok map_of_SomeD sh by metis
  moreover obtain st1 where st1: "acquire cfg s st = Some st1"
    using assms Some sh by (auto simp: hv_dispatch_def split: option.splits)
  then have "hv_px st1 = hv_px st" by (auto simp: acquire_def split: sem.splits if_splits)
  moreover have "hv_px st' = snd (h (hv_px st1))"
    using assms Some sh st1
    by (auto simp: hv_dispatch_def release_def Let_def split: prod.splits sum.splits sem.splits)
  ultimately show ?thesis by (simp add: runs_only_def)
qed

lemma newExec_JobID [simp]: "pe_JobID (newExec cfg e j) = j"
  by (simp add: newExec_def)

lemma OnEnvelopeHv_Some:
  assumes "OnEnvelopeHv show_err io cfg e env st = Some ((payload, err), st')"
  obtains st1 where "hv_dispatch show_err io cfg (newExec cfg e (JobID env)) env st = Some ((payload, err), st1)"
    "px_events (hv_px st') = px_events (hv_px st1) @ [PxAudit (JobID env) (Command env) ''complete'' (if err \<noteq> None then 1 else 0)]"
    "hv_vmCreate st' = hv_vmCreate st1" "hv_migrate st' = hv_migrate st1" "px_files (hv_px st') = px_files (hv_px st1)"
  using assms by (fastforce simp: OnEnvelopeHv_def Let_def split: option.splits prod.splits)

text \<open>
  C2: whatever an envelope asks for, with whatever parameters and however the tools answer, the agent
  runs only the five configured tools, with the verbs it knows; \<open>qm\<close> and \<open>pct\<close> only on a decimal guest
  id from 100 to 999999999, \<open>pvesh\<close> only to read, \<open>pvesm\<close> only to upload from an https URL. Every
  execution is audited before and after under the envelope's job id, and the audit trail of the
  envelope ends with its outcome.
\<close>
theorem hypervisor_runs_only_permitted_commands:
  assumes "OnEnvelopeHv show_err io cfg e env st = Some ((payload, err), st')"
  shows "\<exists>es. px_events (hv_px st') = px_events (hv_px st) @ es @
      [PxAudit (JobID env) (Command env) ''complete'' (if err \<noteq> None then 1 else 0)] \<and>
    bracketed (JobID env) es \<and>
    (\<forall>b args. PxRun b args \<in> set es \<longrightarrow> permitted (newExec cfg e (JobID env)) b args)"
  using assms
proof (rule OnEnvelopeHv_Some)
  fix st1
  assume d: "hv_dispatch show_err io cfg (newExec cfg e (JobID env)) env st = Some ((payload, err), st1)"
    and ev: "px_events (hv_px st') = px_events (hv_px st1) @
      [PxAudit (JobID env) (Command env) ''complete'' (if err \<noteq> None then 1 else 0)]"
  from hv_dispatch_trace [OF d] ev show ?thesis by auto
qed

definition sample_env :: px_env where
  "sample_env =
     \<lparr>pe_PveshPath = [], pe_QmPath = [], pe_PctPath = [], pe_PvesmPath = [], pe_PvecmPath = [], pe_JobID = [],
      pe_hostname = Some ''node1'',
      pe_host = (\<lambda>n b args. \<lparr>pa_stdout = ''status: stopped'', pa_stderr = [], pa_end = Exited 0, pa_deadline = False, pa_text = []\<rparr>)\<rparr>"

definition sample_job :: "string \<Rightarrow> params \<Rightarrow> Envelope" where
  "sample_job command params = (sample_envelope 0)\<lparr>Command := command, Params := Some params\<rparr>"

definition sample_hv :: hv_state where
  "sample_hv = \<lparr>hv_px = \<lparr>px_events = [], px_files = Map.empty\<rparr>, hv_vmCreate = 0, hv_migrate = 0\<rparr>"

definition sample_io :: hv_io where
  "sample_io = \<lparr>io_yaml = (\<lambda>_. True), io_snippet = SnippetOk, io_remove = True\<rparr>"

theorem hypervisor_runs_only_permitted_commands_witness:
  "\<exists>payload st' es. OnEnvelopeHv (\<lambda>_. []) sample_io hv_default sample_env
      (sample_job ''vm.start'' [''vmid'' \<mapsto> AStr ''100'']) sample_hv = Some ((payload, None), st') \<and>
     px_events (hv_px st') = es @ [PxAudit (JobID (sample_envelope 0)) ''vm.start'' ''complete'' 0] \<and>
     PxRun ''/usr/sbin/qm'' [''start'', ''100''] \<in> set es \<and> bracketed (JobID (sample_envelope 0)) es"
proof -
  have id: "RequiredVMID [''vmid'' \<mapsto> AStr ''100'', ''job_id'' \<mapsto> AStr x] ''vmid'' = Inr ''100''" for x
    by (simp add: RequiredVMID_def StringParam_def) code_simp
  obtain payload err st' where run: "OnEnvelopeHv (\<lambda>_. []) sample_io hv_default sample_env
      (sample_job ''vm.start'' [''vmid'' \<mapsto> AStr ''100'']) sample_hv = Some ((payload, err), st')"
    and ok: "err = None" "PxRun ''/usr/sbin/qm'' [''start'', ''100''] \<in> set (px_events (hv_px st'))"
    by (simp add: OnEnvelopeHv_def hv_dispatch_def hv_commands_def sample_job_def job_params_def acquire_def release_def
        StartVM_def simple_vm_def px_bind_def px_lift_def id must_do_def must_def Qm_def exec_run_def error_text_def
        run_error_def exit_code_def sample_env_def newExec_def hv_default_def ok_px_def px_return_def Let_def sample_hv_def)
  from hypervisor_runs_only_permitted_commands [OF run] ok run show ?thesis
    by (auto simp: sample_hv_def sample_job_def)
qed

text \<open>A sequence of envelopes, handled one after the other.\<close>

fun hv_session ::
  "(px_error \<Rightarrow> string) \<Rightarrow> hv_io \<Rightarrow> HvConfig \<Rightarrow> px_env \<Rightarrow> Envelope list \<Rightarrow> hv_state \<Rightarrow> hv_state option" where
  "hv_session show_err io cfg e [] st = Some st"
| "hv_session show_err io cfg e (env # envs) st =
     (case OnEnvelopeHv show_err io cfg e env st of
        None \<Rightarrow> None
      | Some (_, st') \<Rightarrow> hv_session show_err io cfg e envs st')"

definition idle :: "hv_state \<Rightarrow> bool" where
  "idle st \<longleftrightarrow> hv_vmCreate st = 0 \<and> hv_migrate st = 0"

definition limits_positive :: "HvConfig \<Rightarrow> bool" where
  "limits_positive cfg \<longleftrightarrow>
     0 < hl_MaxConcurrentVMCreate (hc_Limits cfg) \<and> 0 < hl_MaxConcurrentMigration (hc_Limits cfg)"

lemma hv_parse_limits: "hv_parse toml data = Inr cfg \<Longrightarrow> limits_positive cfg"
  by (auto simp: hv_parse_def hv_validate_def limits_positive_def default_positive_def
      split: sum.splits list.splits if_splits)

lemma acquire_idle:
  assumes "limits_positive cfg" and "idle st"
  obtains st1 where "acquire cfg s st = Some st1" "\<And>w. idle (release s (st1\<lparr>hv_px := w\<rparr>))"
  using assms by (cases s) (simp_all add: acquire_def release_def idle_def limits_positive_def)

lemma OnEnvelopeHv_idle:
  assumes "limits_positive cfg" and "idle st"
  shows "\<exists>r st'. OnEnvelopeHv show_err io cfg e env st = Some (r, st') \<and> idle st'"
proof -
  have "\<exists>r st'. hv_dispatch show_err io cfg e' env st = Some (r, st') \<and> idle st'" for e'
  proof (cases "map_of (hv_commands io e' (job_params env)) (Command env)")
    case (Some sh)
    obtain s h where sh: "sh = (s, h)" by (cases sh)
    obtain st1 where "acquire cfg s st = Some st1" "\<And>w. idle (release s (st1\<lparr>hv_px := w\<rparr>))"
      using acquire_idle [OF assms] by blast
    with Some sh show ?thesis by (auto simp: hv_dispatch_def Let_def split: prod.split sum.split)
  qed (use assms in \<open>auto simp: hv_dispatch_def\<close>)
  then obtain r st1 where "hv_dispatch show_err io cfg (newExec cfg e (JobID env)) env st = Some (r, st1)" "idle st1"
    by blast
  then show ?thesis by (cases r) (simp add: OnEnvelopeHv_def idle_def Let_def)
qed



subsection \<open>Commands that do not do what they are for\<close>

text \<open>
  The guided build of a Synology system is refused whenever the request does not name a network:
  its default network card is one that \<open>vm.create\<close> does not accept. No command is run.
\<close>
lemma synology_default_build_refused:
  assumes "p ''net0'' = None"
  shows "\<exists>err. CreateVM e (SynologyDSMParams p) w = (Inl err, w)"
proof -
  have "StringParam (SynologyDSMParams p) ''net0'' d = ''e1000,bridge=vmbr0''" for d
  proof -
    have "TrimSpace ''e1000,bridge=vmbr0'' = ''e1000,bridge=vmbr0''" by code_simp
    with assms show ?thesis by (simp add: StringParam_def SynologyDSMParams_def)
  qed
  moreover have "\<not> isSafeCreateNet0 ''e1000,bridge=vmbr0''" by code_simp
  ultimately have "\<exists>err. validate_create (SynologyDSMParams p) = Inl err"
    by (auto simp: validate_create_def bind_result_def Let_def split: sum.split)
  then show ?thesis by (auto simp: CreateVM_def px_bind_def px_lift_def)
qed

lemma synology_default_build_refused_witness:
  "\<exists>err. CreateVM sample_env (SynologyDSMParams [''vmid'' \<mapsto> AStr ''100'', ''name'' \<mapsto> AStr ''nas'']) (hv_px sample_hv) =
     (Inl err, hv_px sample_hv)"
  using synology_default_build_refused [of "[''vmid'' \<mapsto> AStr ''100'', ''name'' \<mapsto> AStr ''nas'']" sample_env "hv_px sample_hv"]
  by simp

text \<open>
  Every network specification that \<open>vm.create\<close> accepts is refused by \<open>vm.update\<close>, although \<open>net0\<close> is on
  its allowlist: the specification has a comma and an equals sign, and a safe token has neither.
\<close>
lemma update_refuses_valid_networks:
  assumes "isSafeCreateNet0 spec"
  shows "update_args ((''net0'', AStr spec) # options) = Inl (ParamUnsafe ''net0'' spec)"
proof -
  have "HasPrefix spec ''virtio,bridge=''" using assms by (auto simp: isSafeCreateNet0_def Let_def split: if_splits)
  then have "CHR '','' \<in> set spec" by (auto simp: HasPrefix_iff)
  then have "\<not> IsSafeToken spec" using IsSafeToken_excludes [of spec "CHR '',''"] by auto
  then show ?thesis by (simp add: vmUpdateAllowlist_def)
qed

lemma update_refuses_valid_networks_witness:
  "update_args [(''net0'', AStr ''virtio,bridge=vmbr1'')] = Inl (ParamUnsafe ''net0'' ''virtio,bridge=vmbr1'')"
proof -
  have "isSafeCreateNet0 ''virtio,bridge=vmbr1''" by code_simp
  from update_refuses_valid_networks [OF this] show ?thesis .
qed

text \<open>
  An existing snapshot is never recognised. However \<open>qm snapshot\<close> explains its failure, the error
  the agent looks at is the exit status alone, so the answer is the generic failure and not
  \<open>SNAPSHOT_EXISTS\<close>.
\<close>
lemma existing_snapshot_not_recognised:
  assumes "RequiredVMID p ''vmid'' = Inr vmid" and "RequiredSafeToken p ''name'' = Inr name"
    and "p ''description'' = None"
    and "pe_host e (length (filter is_run (px_events w))) (pe_QmPath e) [''snapshot'', vmid, name] = a"
    and "pa_end a = Exited n" and "n \<noteq> 0" and "\<not> pa_deadline a"
  shows "fst (CreateSnapshot e p w) = Inl (CommandFailed ''vm.snapshot.create'' (''exit status '' @ nat_digits n))"
proof -
  have "CHR ''y'' \<notin> set (''exit status '' @ nat_digits n)" using nat_digits_digits [of "CHR ''y''" n] by (auto simp: is_digit_def digit_val_def)
  then have "\<not> Contains (''exit status '' @ nat_digits n) ''already exists''"
    using set_mono_sublist [of "''already exists''" "''exit status '' @ nat_digits n"]
    unfolding Contains_iff_sublist by auto
  with assms show ?thesis
    by (simp add: CreateSnapshot_def StringParam_def px_check_def px_bind_def px_lift_def Qm_def exec_run_def
        error_text_def run_error_def px_fail_def Let_def)
qed

definition sample_snapshot_params :: params where
  "sample_snapshot_params = [''vmid'' \<mapsto> AStr ''100'', ''name'' \<mapsto> AStr ''nightly'']"

definition failing_env :: "nat \<Rightarrow> px_env" where
  "failing_env n = sample_env\<lparr>pe_host := (\<lambda>k b args. \<lparr>pa_stdout = [], pa_stderr = ''snapshot already exists'',
     pa_end = Exited n, pa_deadline = False, pa_text = []\<rparr>)\<rparr>"

lemma existing_snapshot_not_recognised_witness:
  "fst (CreateSnapshot (failing_env 255) sample_snapshot_params (hv_px sample_hv)) =
     Inl (CommandFailed ''vm.snapshot.create'' (''exit status '' @ nat_digits 255))"
proof -
  have "RequiredVMID sample_snapshot_params ''vmid'' = Inr ''100''"
    "RequiredSafeToken sample_snapshot_params ''name'' = Inr ''nightly''"
    by (simp_all add: RequiredVMID_def RequiredSafeToken_def StringParam_def sample_snapshot_params_def) code_simp+
  from existing_snapshot_not_recognised [OF this _ refl, of "failing_env 255" "hv_px sample_hv" 255]
  show ?thesis by (simp add: sample_snapshot_params_def failing_env_def)
qed

text \<open>
  Deleting a container reports success without deleting anything when the probe for its existence
  fails for any reason, a timeout included: the probe is the only command that runs.
\<close>
lemma container_delete_trusts_failed_probe:
  assumes "RequiredVMID p ''ctid'' = Inr ctid"
    and "exit_code (pe_host e (length (filter is_run (px_events w))) (pe_PctPath e) [''config'', ctid]) \<noteq> 0"
  shows "fst (DeleteCT e p w) = Inr () \<and>
    filter is_run (px_events (snd (DeleteCT e p w))) =
      filter is_run (px_events w) @ [PxRun (pe_PctPath e) [''config'', ctid]]"
  using assms
  by (simp add: DeleteCT_def px_bind_def px_lift_def Pct_def exec_run_def px_return_def is_run_def Let_def)

definition timeout_env :: px_env where
  "timeout_env = sample_env\<lparr>pe_host := (\<lambda>k b args. \<lparr>pa_stdout = [], pa_stderr = [], pa_end = Signalled ''killed'',
     pa_deadline = True, pa_text = ''1m0s''\<rparr>)\<rparr>"

lemma container_delete_trusts_failed_probe_witness:
  "fst (DeleteCT timeout_env [''ctid'' \<mapsto> AStr ''100''] (hv_px sample_hv)) = Inr ()"
proof -
  have "RequiredVMID [''ctid'' \<mapsto> AStr ''100''] ''ctid'' = Inr ''100''"
    by (simp add: RequiredVMID_def StringParam_def) code_simp
  from container_delete_trusts_failed_probe [OF this, of timeout_env "hv_px sample_hv"] show ?thesis
    by (simp add: timeout_env_def exit_code_def run_error_def)
qed

text \<open>
  A node of a quorate cluster of ten cannot leave it: the check for the last remaining node looks
  for the digit 1 anywhere in the number of nodes. \<open>pvecm delnode\<close> is not run.
\<close>
lemma tenth_node_cannot_leave:
  assumes "RequiredSafeToken p ''node'' = Inr node"
    and "pe_host e (length (filter is_run (px_events w))) (pe_PvecmPath e) [''status''] = a"
    and "pa_end a = Exited 0" and "pa_stdout a = ''Quorate: Yes'' @ newline # ''Nodes: 10''"
  shows "fst (LeaveCluster e p w) = Inl (Refused ''only quorum-holder'' []) \<and>
    filter is_run (px_events (snd (LeaveCluster e p w))) =
      filter is_run (px_events w) @ [PxRun (pe_PvecmPath e) [''status'']]"
proof -
  have "isOnlyQuorumNode (TrimSpace (''Quorate: Yes'' @ newline # ''Nodes: 10''))" by code_simp
  with assms show ?thesis
    by (simp add: LeaveCluster_def px_bind_def px_lift_def Pvecm_def exec_run_def must_def px_return_def px_fail_def
        StdoutString_def error_text_def run_error_def is_run_def Let_def)
qed

definition ten_nodes_env :: px_env where
  "ten_nodes_env = sample_env\<lparr>pe_host := (\<lambda>k b args. \<lparr>pa_stdout = ''Quorate: Yes'' @ newline # ''Nodes: 10'',
     pa_stderr = [], pa_end = Exited 0, pa_deadline = False, pa_text = []\<rparr>)\<rparr>"

lemma tenth_node_cannot_leave_witness:
  "fst (LeaveCluster ten_nodes_env [''node'' \<mapsto> AStr ''pve3''] (hv_px sample_hv)) = Inl (Refused ''only quorum-holder'' [])"
proof -
  have "RequiredSafeToken [''node'' \<mapsto> AStr ''pve3''] ''node'' = Inr ''pve3''"
    by (simp add: RequiredSafeToken_def StringParam_def) code_simp
  from tenth_node_cannot_leave [OF this refl, of ten_nodes_env "hv_px sample_hv"] show ?thesis
    by (simp add: ten_nodes_env_def)
qed

end
