(* ===== verification/Archive_Roots.thy ===== *)
theory Archive_Roots
  imports Go_Paths
begin

text \<open>
  The allowlist of backup directories, \<open>src/backup/internal/archive/roots.go\<close>. The file system is a map
  from absolute clean paths to nodes; a symbolic link holds its target. Whether the system lets a
  node be removed is the argument \<open>can_remove\<close>. Paths are resolved as \<open>filepath.EvalSymlinks\<close> does, with at
  most 255 links.
\<close>

datatype node = RegFile | DirNode | LinkTo string

type_synonym nodes = "string \<rightharpoonup> node"

datatype archive_error =
    PathRequired
  | NotAbsolute string
  | Unresolved string
  | OutsideRoots string
  | StatFailed string
  | NotADirectory string
  | NotRegular string
  | RemoveFailed string

subsection \<open>Resolving paths\<close>

function eval_parts :: "nat \<Rightarrow> nodes \<Rightarrow> string list \<Rightarrow> string list \<Rightarrow> string list option" where
  "eval_parts k nodes done [] = Some done"
| "eval_parts k nodes done (p # ps) =
     (if p = [] \<or> p = ''.'' then eval_parts k nodes done ps
      else if p = ''..'' then eval_parts k nodes (butlast done) ps
      else case nodes (abs_path (done @ [p])) of
          None \<Rightarrow> None
        | Some RegFile \<Rightarrow> if ps = [] then Some (done @ [p]) else None
        | Some DirNode \<Rightarrow> eval_parts k nodes (done @ [p]) ps
        | Some (LinkTo t) \<Rightarrow>
            if k = 0 then None
            else eval_parts (k - 1) nodes (if HasPrefix t [slash] then [] else done) (Split t slash @ ps))"
  by pat_completeness auto
termination
  by (relation "measures [\<lambda>(k, _, _, _). k, \<lambda>(_, _, _, ps). length ps]") auto

definition EvalSymlinks :: "nodes \<Rightarrow> string \<Rightarrow> string option" where
  "EvalSymlinks nodes path =
     (if HasPrefix path [slash] then map_option abs_path (eval_parts 255 nodes [] (Split path slash)) else None)"

definition stat_node :: "nodes \<Rightarrow> string \<Rightarrow> node option" where
  "stat_node nodes path =
     (case EvalSymlinks nodes path of
        None \<Rightarrow> None
      | Some r \<Rightarrow> if r = [slash] then Some DirNode else nodes r)"

definition path_parts :: "string \<Rightarrow> string list" where
  "path_parts path = clean_parts True [] (Split path slash)"

text \<open>The relative path from \<open>root\<close> to the absolute \<open>candidate\<close> exists only for an absolute root.\<close>

definition isPathInsideRoot :: "string \<Rightarrow> string \<Rightarrow> bool" where
  "isPathInsideRoot root candidate =
     (if \<not> HasPrefix root [slash] then False
      else if prefix (path_parts root) (path_parts candidate)
      then (case drop (length (path_parts root)) (path_parts candidate) of
              [] \<Rightarrow> True
            | p # _ \<Rightarrow> \<not> HasPrefix p ''..'')
      else False)"

fun matchingAllowedRoot :: "nodes \<Rightarrow> string \<Rightarrow> string list \<Rightarrow> string option" where
  "matchingAllowedRoot nodes resolved [] = None"
| "matchingAllowedRoot nodes resolved (root # roots) =
     (let r = Clean (TrimSpace root) in
      if r = [] then matchingAllowedRoot nodes resolved roots
      else let r = (case EvalSymlinks nodes r of Some evaluated \<Rightarrow> Clean evaluated | None \<Rightarrow> r)
           in if isPathInsideRoot r resolved then Some r else matchingAllowedRoot nodes resolved roots)"

definition ensureInsideAllowedRoots :: "nodes \<Rightarrow> string \<Rightarrow> string list \<Rightarrow> archive_error + string" where
  "ensureInsideAllowedRoots nodes path roots =
     (let normalized = TrimSpace path in
      if normalized = [] then Inl PathRequired
      else if \<not> HasPrefix normalized [slash] then Inl (NotAbsolute path)
      else case EvalSymlinks nodes (Clean normalized) of
          None \<Rightarrow> Inl (Unresolved path)
        | Some resolved \<Rightarrow>
            (let resolved = Clean resolved in
             if matchingAllowedRoot nodes resolved roots \<noteq> None then Inr resolved else Inl (OutsideRoots path)))"

text \<open>The nearest existing ancestor of a path that does not exist, by its components.\<close>

function anchor_parts :: "nodes \<Rightarrow> string list \<Rightarrow> string list" where
  "anchor_parts nodes ps =
     (if ps = [] then []
      else let q = butlast ps in if stat_node nodes (abs_path q) \<noteq> None then q else anchor_parts nodes q)"
  by pat_completeness auto
termination
  by (relation "measure (\<lambda>(_, ps). length ps)") (auto simp: Let_def)

declare anchor_parts.simps [simp del]

definition resolveForCreate :: "nodes \<Rightarrow> string \<Rightarrow> archive_error + string" where
  "resolveForCreate nodes cleaned =
     (case EvalSymlinks nodes cleaned of
        Some resolved \<Rightarrow> Inr (Clean resolved)
      | None \<Rightarrow>
          (let anchor = anchor_parts nodes (path_parts cleaned);
               rel = drop (length anchor) (path_parts cleaned)
           in case EvalSymlinks nodes (abs_path anchor) of
                None \<Rightarrow> Inl (Unresolved cleaned)
              | Some resolvedAnchor \<Rightarrow> Inr (JoinPath [resolvedAnchor, Join rel [slash]])))"

definition ensureInsideAllowedRootsForCreate :: "nodes \<Rightarrow> string \<Rightarrow> string list \<Rightarrow> archive_error + string" where
  "ensureInsideAllowedRootsForCreate nodes path roots =
     (let normalized = TrimSpace path in
      if normalized = [] then Inl PathRequired
      else if \<not> HasPrefix normalized [slash] then Inl (NotAbsolute path)
      else let cleaned = Clean normalized in
        bind_result (resolveForCreate nodes cleaned) (\<lambda>resolved.
          if matchingAllowedRoot nodes resolved roots \<noteq> None then Inr cleaned else Inl (OutsideRoots path)))"

subsection \<open>Operations\<close>

definition EnsureWritableDirectory :: "nodes \<Rightarrow> string \<Rightarrow> string list \<Rightarrow> archive_error + string" where
  "EnsureWritableDirectory nodes target roots =
     bind_result (ensureInsideAllowedRoots nodes target roots) (\<lambda>resolved.
       case stat_node nodes resolved of
         None \<Rightarrow> Inl (StatFailed resolved)
       | Some n \<Rightarrow> if n \<noteq> DirNode then Inl (NotADirectory resolved) else Inr resolved)"

definition EnsureExistingArchive :: "nodes \<Rightarrow> string \<Rightarrow> string list \<Rightarrow> archive_error + string" where
  "EnsureExistingArchive nodes path roots =
     bind_result (ensureInsideAllowedRoots nodes path roots) (\<lambda>resolved.
       case stat_node nodes resolved of
         None \<Rightarrow> Inl (StatFailed resolved)
       | Some n \<Rightarrow> if n \<noteq> RegFile then Inl (NotRegular resolved) else Inr resolved)"

definition EnsureInsideAllowedRoots :: "nodes \<Rightarrow> string \<Rightarrow> string list \<Rightarrow> archive_error + string" where
  "EnsureInsideAllowedRoots nodes path roots = ensureInsideAllowedRoots nodes path roots"

definition EnsurePathForCreate :: "nodes \<Rightarrow> string \<Rightarrow> string list \<Rightarrow> archive_error + string" where
  "EnsurePathForCreate nodes path roots = ensureInsideAllowedRootsForCreate nodes path roots"

definition Ext :: "string \<Rightarrow> string" where
  "Ext path =
     (let name = last (Split path slash)
      in if CHR ''.'' \<in> set name then CHR ''.'' # last (Split name (CHR ''.'')) else [])"

definition sidecarCandidates :: "string \<Rightarrow> string list" where
  "sidecarCandidates path =
     (let base = TrimSuffix path (Ext path)
      in [path, path @ ''.notes'', path @ ''.log'', base @ ''.notes'', base @ ''.log''])"

text \<open>
  \<open>os.Remove\<close>: the directory of the path is resolved, the last component is not. The result says
  whether a node was removed, or none was there, or the system refused.
\<close>

datatype remove_result = Removed | NotExist | RemoveRefused

definition Remove :: "(string \<Rightarrow> bool) \<Rightarrow> nodes \<Rightarrow> string \<Rightarrow> remove_result \<times> nodes" where
  "Remove can_remove nodes path =
     (case EvalSymlinks nodes (Dir path) of
        None \<Rightarrow> (NotExist, nodes)
      | Some d \<Rightarrow>
          (let p = JoinPath [d, Base path] in
           if nodes p = None then (NotExist, nodes)
           else if can_remove p then (Removed, nodes(p := None))
           else (RemoveRefused, nodes)))"

fun delete_candidates ::
  "(string \<Rightarrow> bool) \<Rightarrow> nodes \<Rightarrow> string list \<Rightarrow> string list \<Rightarrow> string list \<Rightarrow> (archive_error + string list) \<times> nodes" where
  "delete_candidates can_remove nodes roots [] deleted = (Inr deleted, nodes)"
| "delete_candidates can_remove nodes roots (candidate # candidates) deleted =
     (case ensureInsideAllowedRootsForCreate nodes candidate roots of
        Inl e \<Rightarrow> (Inl e, nodes)
      | Inr inside \<Rightarrow>
          (case Remove can_remove nodes inside of
             (Removed, nodes') \<Rightarrow> delete_candidates can_remove nodes' roots candidates (deleted @ [inside])
           | (NotExist, nodes') \<Rightarrow> delete_candidates can_remove nodes' roots candidates deleted
           | (RemoveRefused, nodes') \<Rightarrow> (Inl (RemoveFailed inside), nodes')))"

definition DeleteArchiveWithSidecars ::
  "(string \<Rightarrow> bool) \<Rightarrow> nodes \<Rightarrow> string \<Rightarrow> string list \<Rightarrow> (archive_error + string list) \<times> nodes" where
  "DeleteArchiveWithSidecars can_remove nodes path roots =
     (case EnsureExistingArchive nodes path roots of
        Inl e \<Rightarrow> (Inl e, nodes)
      | Inr resolved \<Rightarrow> delete_candidates can_remove nodes roots (sidecarCandidates resolved) [])"

subsection \<open>Removal stays inside the roots\<close>

text \<open>Every node but those at the top has a directory above it, and the top itself is not a node.\<close>

definition tree :: "nodes \<Rightarrow> bool" where
  "tree nodes \<longleftrightarrow> nodes (abs_path []) = None \<and>
     (\<forall>ps p. ps \<noteq> [] \<longrightarrow> nodes (abs_path (ps @ [p])) \<noteq> None \<longrightarrow> nodes (abs_path ps) = Some DirNode)"

text \<open>The system removes no directory with something in it.\<close>

definition only_leaves :: "(string \<Rightarrow> bool) \<Rightarrow> nodes \<Rightarrow> bool" where
  "only_leaves can_remove nodes \<longleftrightarrow>
     (\<forall>ps p. ps \<noteq> [] \<longrightarrow> can_remove (abs_path ps) \<longrightarrow> nodes (abs_path (ps @ [p])) = None)"

definition root_path :: "nodes \<Rightarrow> string \<Rightarrow> string" where
  "root_path nodes root =
     (let r = Clean (TrimSpace root) in case EvalSymlinks nodes r of Some evaluated \<Rightarrow> Clean evaluated | None \<Rightarrow> r)"

definition inside_roots :: "nodes \<Rightarrow> string list \<Rightarrow> string \<Rightarrow> bool" where
  "inside_roots nodes roots path \<longleftrightarrow> (\<exists>root \<in> set roots. isPathInsideRoot (root_path nodes root) path)"

lemma matchingAllowedRoot_inside:
  "matchingAllowedRoot nodes resolved roots \<noteq> None \<Longrightarrow> inside_roots nodes roots resolved"
  by (induction roots) (auto simp: inside_roots_def root_path_def Let_def split: if_splits)

abbreviation plain_parts :: "string list \<Rightarrow> bool" where
  "plain_parts ps \<equiv> \<forall>p \<in> set ps. plain_part p"

text \<open>The ways a non-empty walk can succeed.\<close>

lemma eval_parts_ConsE:
  assumes "eval_parts k nodes done (p # ps) = Some ds"
  obtains (stay) "p = [] \<or> p = ''.''" "eval_parts k nodes done ps = Some ds"
  | (parent) "p = ''..''" "eval_parts k nodes (butlast done) ps = Some ds"
  | (reg) "p \<noteq> []" "p \<noteq> ''.''" "p \<noteq> ''..''" "nodes (abs_path (done @ [p])) = Some RegFile" "ps = []" "ds = done @ [p]"
  | (dir) "p \<noteq> []" "p \<noteq> ''.''" "p \<noteq> ''..''" "nodes (abs_path (done @ [p])) = Some DirNode"
      "eval_parts k nodes (done @ [p]) ps = Some ds"
  | (link) t where "p \<noteq> []" "p \<noteq> ''.''" "p \<noteq> ''..''" "nodes (abs_path (done @ [p])) = Some (LinkTo t)" "k \<noteq> 0"
      "eval_parts (k - 1) nodes (if HasPrefix t [slash] then [] else done) (Split t slash @ ps) = Some ds"
  using assms by (simp split: if_splits option.splits node.splits)

lemma eval_parts_plain:
  "eval_parts k nodes done ps = Some ds \<Longrightarrow> plain_parts done \<Longrightarrow> \<forall>p \<in> set ps. slash \<notin> set p \<Longrightarrow> plain_parts ds"
proof (induction k nodes "done" ps rule: eval_parts.induct)
  case (2 k nodes "done" p ps)
  note rest = "2.prems"(3)
  from "2.prems"(1) show ?case
  proof (cases rule: eval_parts_ConsE)
    case stay
    show ?thesis using "2.IH"(1) [OF stay] "2.prems"(2,3) by simp
  next
    case parent
    show ?thesis using "2.IH"(2) [OF _ parent] parent(1) "2.prems"(2,3) by (simp add: in_set_butlastD)
  next
    case reg
    then show ?thesis using "2.prems"(2,3) by (simp add: plain_part_def)
  next
    case dir
    have "plain_parts (done @ [p])" using dir(1-3) "2.prems"(2,3) by (simp add: plain_part_def)
    moreover have "\<not> (p = [] \<or> p = ''.'')" "\<forall>q \<in> set ps. slash \<notin> set q" using dir(1,2) "2.prems"(3) by simp_all
    ultimately show ?thesis by (intro "2.IH"(3) [OF _ dir(3,4) refl dir(5)])
  next
    case (link t)
    have "\<forall>q \<in> set (Split t slash @ ps). slash \<notin> set q" using "2.prems"(3) Split_no_sep by auto
    moreover have "\<not> (p = [] \<or> p = ''.'')" "plain_parts (if HasPrefix t [slash] then [] else done)"
      using link(1,2) "2.prems"(2) by simp_all
    ultimately show ?thesis by (intro "2.IH"(4) [OF _ link(3,4) refl link(5,6)])
  qed
qed simp

text \<open>Appending the name of a file or directory to a resolved directory.\<close>

lemma eval_parts_snoc:
  assumes "eval_parts k nodes done xs = Some ds" and "ds = [] \<or> nodes (abs_path ds) = Some DirNode"
    and "plain_part b" and "nodes (abs_path (ds @ [b])) = Some RegFile \<or> nodes (abs_path (ds @ [b])) = Some DirNode"
  shows "eval_parts k nodes done (xs @ [b]) = Some (ds @ [b])"
  using assms
proof (induction k nodes "done" xs rule: eval_parts.induct)
  case (1 k nodes "done")
  then show ?case by (auto simp: plain_part_def)
next
  case (2 k nodes "done" p ps)
  note ds = "2.prems"(2-4)
  from "2.prems"(1) show ?case
  proof (cases rule: eval_parts_ConsE)
    case stay
    then show ?thesis using "2.IH"(1) [OF stay ds] by auto
  next
    case parent
    then show ?thesis using "2.IH"(2) [OF _ parent ds] by simp
  next
    case reg
    then show ?thesis using ds(1) by simp
  next
    case dir
    then show ?thesis using "2.IH"(3) [OF _ dir(3,4) refl dir(5) ds] by simp
  next
    case (link t)
    then show ?thesis using "2.IH"(4) [OF _ link(3,4) refl link(5,6) ds] by simp
  qed
qed

lemma clean_parts_rooted_plain:
  "plain_parts out \<Longrightarrow> \<forall>p \<in> set ps. slash \<notin> set p \<Longrightarrow> plain_parts (clean_parts True out ps)"
proof (induction ps arbitrary: out)
  case (Cons p ps)
  have rest: "\<forall>q \<in> set ps. slash \<notin> set q" and p: "slash \<notin> set p" using Cons.prems(2) by simp_all
  show ?case
  proof (cases "plain_part p")
    case True
    then have eq: "clean_parts True out (p # ps) = clean_parts True (p # out) ps" by (simp add: plain_part_def)
    have "plain_parts (p # out)" using True Cons.prems(1) by simp
    from Cons.IH [OF this rest] show ?thesis unfolding eq .
  next
    case False
    then have "clean_parts True out (p # ps) = clean_parts True out ps \<or>
        clean_parts True out (p # ps) = clean_parts True (tl out) ps"
      using Cons.prems(1) p by (cases out) (auto simp: plain_part_def)
    then consider "clean_parts True out (p # ps) = clean_parts True out ps"
      | "clean_parts True out (p # ps) = clean_parts True (tl out) ps" by blast
    then show ?thesis
    proof cases
      case 1
      show ?thesis unfolding 1 by (rule Cons.IH [OF Cons.prems(1) rest])
    next
      case 2
      have "plain_parts (tl out)" using Cons.prems(1) by (cases out) simp_all
      from Cons.IH [OF this rest] show ?thesis unfolding 2 .
    qed
  qed
qed simp

lemma Clean_absolute:
  assumes "HasPrefix s [slash]"
  shows "Clean s = abs_path (path_parts s)" and "plain_parts (path_parts s)"
proof -
  show "plain_parts (path_parts s)"
    unfolding path_parts_def using Split_no_sep by (intro clean_parts_rooted_plain) auto
  show "Clean s = abs_path (path_parts s)"
    using assms by (cases s) (auto simp: Clean_def path_parts_def abs_path_def Let_def HasPrefix_def)
qed

lemma EvalSymlinks_abs_path:
  assumes "plain_parts ps"
  shows "EvalSymlinks nodes (abs_path ps) = map_option abs_path (eval_parts 255 nodes [] ps)"
proof (cases "ps = []")
  case True
  then show ?thesis by (simp add: EvalSymlinks_def abs_path_def HasPrefix_def)
next
  case False
  then show ?thesis using assms by (simp add: EvalSymlinks_def Split_abs_path) (simp add: abs_path_def HasPrefix_def)
qed

lemma path_parts_abs_path: "plain_parts ps \<Longrightarrow> path_parts (abs_path ps) = ps"
  using clean_parts_plain [of ps True "[]" "[]"] Split_abs_path [of ps]
  by (cases "ps = []") (auto simp: path_parts_def, simp add: abs_path_def)

lemma Clean_abs: "plain_parts ps \<Longrightarrow> Clean (abs_path ps) = abs_path ps"
  using Clean_absolute(1) [of "abs_path ps"] by (simp add: path_parts_abs_path) (simp add: abs_path_def HasPrefix_def)

lemma abs_path_snoc: "abs_path (ps @ [b]) = (if ps = [] then [] else abs_path ps) @ slash # b"
  by (simp add: abs_path_def Join_snoc)

lemma Dir_abs_path:
  assumes "plain_parts ps" and "plain_part b"
  shows "Dir (abs_path (ps @ [b])) = abs_path ps"
proof -
  let ?X = "if ps = [] then [] else abs_path ps"
  have "rev (dropWhile (\<lambda>c. c \<noteq> slash) (rev (abs_path (ps @ [b])))) = ?X @ [slash]"
    using assms(2) unfolding abs_path_snoc by (auto simp: plain_part_def dropWhile_append3)
  moreover have "path_parts (?X @ [slash]) = ps"
    using clean_parts_plain [OF assms(1), of True "[]" "[[]]"] assms(1) Split_append [of "abs_path ps" slash "[]"]
    by (simp add: path_parts_def Split_abs_path)
  moreover have "HasPrefix (?X @ [slash]) [slash]" by (simp add: abs_path_def HasPrefix_def)
  ultimately show ?thesis using Clean_absolute(1) [of "?X @ [slash]"] by (simp only: Dir_def)
qed

lemma Base_abs_path:
  assumes "plain_part b"
  shows "Base (abs_path (ps @ [b])) = b"
proof -
  have b: "b \<noteq> []" "slash \<notin> set b" using assms by (auto simp: plain_part_def)
  then have "last b \<noteq> slash" by (metis last_in_set)
  then have "TrimRight (abs_path (ps @ [b])) slash = abs_path (ps @ [b])"
    using b(1) unfolding abs_path_snoc by (cases b rule: rev_cases) (simp_all add: TrimRight_def)
  moreover have "last (Split (abs_path (ps @ [b])) slash) = b"
    unfolding abs_path_snoc Split_append using Split_plain [OF b(2)] by simp
  ultimately show ?thesis unfolding Base_def by (simp add: abs_path_def)
qed

lemma JoinPath_abs_path:
  assumes "plain_parts ps" and "plain_part b"
  shows "JoinPath [abs_path ps, b] = abs_path (ps @ [b])"
proof (cases "ps = []")
  case True
  have b: "b \<noteq> []" "slash \<notin> set b" using assms(2) by (auto simp: plain_part_def)
  have "path_parts (slash # slash # b) = [b]"
    using Split_plain [OF b(2)] assms(2) by (simp add: path_parts_def plain_part_def)
  then show ?thesis
    using True b(1) Clean_absolute(1) [of "slash # slash # b"] by (simp add: JoinPath_def abs_path_def HasPrefix_def)
next
  case False
  then show ?thesis using JoinPath_name [OF assms(1) False assms(2)] by blast
qed

text \<open>
  The path that \<open>os.Remove\<close> acts on, where it is not a symbolic link, is the one that was checked.
\<close>

lemma checked_path_is_removed_path:
  assumes "tree nodes" and cs: "plain_parts cs" and b: "plain_part b"
    and ds: "eval_parts 255 nodes [] cs = Some ds" and plain: "plain_parts ds"
    and at: "nodes (abs_path (ds @ [b])) = Some RegFile \<or> nodes (abs_path (ds @ [b])) = Some DirNode"
  shows "resolveForCreate nodes (abs_path (cs @ [b])) = Inr (abs_path (ds @ [b]))"
proof -
  have "ds = [] \<or> nodes (abs_path ds) = Some DirNode" using assms(1) at by (auto simp: tree_def)
  from eval_parts_snoc [OF ds this b at]
  have "EvalSymlinks nodes (abs_path (cs @ [b])) = Some (abs_path (ds @ [b]))"
    using EvalSymlinks_abs_path [of "cs @ [b]"] cs b by simp
  then show ?thesis using plain b by (simp add: resolveForCreate_def Clean_abs)
qed

lemma Remove_cases:
  assumes "tree nodes" and inside: "ensureInsideAllowedRootsForCreate nodes c roots = Inr inside"
    and removed: "Remove can_remove nodes inside = (r, nodes')"
  shows "nodes' = nodes \<or> (\<exists>ps. ps \<noteq> [] \<and> nodes' = nodes(abs_path ps := None) \<and> can_remove (abs_path ps)
           \<and> ((\<exists>t. nodes (abs_path ps) = Some (LinkTo t)) \<or> inside_roots nodes roots (abs_path ps)))"
proof -
  let ?n = "TrimSpace c"
  have abs: "HasPrefix ?n [slash]" and "inside = Clean ?n"
    and ok: "\<exists>res. resolveForCreate nodes inside = Inr res \<and> matchingAllowedRoot nodes res roots \<noteq> None"
    using inside by (auto simp: ensureInsideAllowedRootsForCreate_def Let_def bind_result_def
        split: if_splits sum.splits)
  then have cs: "inside = abs_path (path_parts ?n)" "plain_parts (path_parts ?n)" using Clean_absolute [OF abs] by simp_all
  show ?thesis
  proof (cases "path_parts ?n" rule: rev_cases)
    case Nil
    then have "inside = [slash]" using cs by (simp add: abs_path_def)
    moreover have "Dir [slash] = [slash]" "Base [slash] = [slash]" "JoinPath [[slash], [slash]] = [slash]"
      by (simp_all add: Dir_def Base_def JoinPath_def Clean_def Let_def TrimRight_def slash_def)
    moreover have "EvalSymlinks nodes [slash] = Some [slash]" "nodes [slash] = None"
      using EvalSymlinks_abs_path [of "[]" nodes] assms(1) by (simp_all add: abs_path_def tree_def)
    ultimately show ?thesis using removed by (simp add: Remove_def)
  next
    case (snoc ps b)
    then have plain: "plain_parts ps" "plain_part b" and eq: "inside = abs_path (ps @ [b])" using cs by simp_all
    show ?thesis
    proof (cases "eval_parts 255 nodes [] ps")
      case None
      then show ?thesis using removed plain eq
        by (simp add: Remove_def Dir_abs_path EvalSymlinks_abs_path)
    next
      case (Some ds)
      have ds: "plain_parts ds" using eval_parts_plain [OF Some] plain by (simp add: plain_part_def)
      have "nodes' = nodes \<or> nodes' = nodes(abs_path (ds @ [b]) := None) \<and> can_remove (abs_path (ds @ [b]))
          \<and> nodes (abs_path (ds @ [b])) \<noteq> None"
        using removed plain eq ds Some
        by (auto simp: Remove_def Dir_abs_path Base_abs_path EvalSymlinks_abs_path JoinPath_abs_path Let_def
            split: if_splits)
      moreover have "inside_roots nodes roots (abs_path (ds @ [b]))"
        if "nodes (abs_path (ds @ [b])) = Some RegFile \<or> nodes (abs_path (ds @ [b])) = Some DirNode"
        using checked_path_is_removed_path [OF assms(1) plain Some ds that] ok eq matchingAllowedRoot_inside by auto
      ultimately show ?thesis by (cases "nodes (abs_path (ds @ [b]))" rule: option.exhaust) (auto, metis node.exhaust snoc_eq_iff_butlast)
    qed
  qed
qed

definition removed_inside :: "string list \<Rightarrow> nodes \<Rightarrow> nodes \<Rightarrow> bool" where
  "removed_inside roots nodes nodes' \<longleftrightarrow>
     nodes' \<subseteq>\<^sub>m nodes \<and>
     (\<forall>p. nodes' p \<noteq> nodes p \<longrightarrow>
        (\<exists>t. nodes p = Some (LinkTo t)) \<or> (\<exists>m. m \<subseteq>\<^sub>m nodes \<and> inside_roots m roots p))"

lemma removed_inside_refl [simp]: "removed_inside roots nodes nodes"
  by (simp add: removed_inside_def)

lemma removed_inside_trans:
  assumes "removed_inside roots a b" and "removed_inside roots b c"
  shows "removed_inside roots a c"
  using assms unfolding removed_inside_def by (metis map_le_trans)

lemma Remove_keeps:
  assumes "tree nodes" and "only_leaves can_remove nodes"
    and "ensureInsideAllowedRootsForCreate nodes c roots = Inr inside"
    and "Remove can_remove nodes inside = (r, nodes')"
  shows "tree nodes' \<and> only_leaves can_remove nodes' \<and> removed_inside roots nodes nodes'"
  using Remove_cases [OF assms(1,3,4)]
proof
  assume "\<exists>ps. ps \<noteq> [] \<and> nodes' = nodes(abs_path ps := None) \<and> can_remove (abs_path ps)
      \<and> ((\<exists>t. nodes (abs_path ps) = Some (LinkTo t)) \<or> inside_roots nodes roots (abs_path ps))"
  then obtain ps where ps: "ps \<noteq> []" "nodes' = nodes(abs_path ps := None)" "can_remove (abs_path ps)"
      "(\<exists>t. nodes (abs_path ps) = Some (LinkTo t)) \<or> inside_roots nodes roots (abs_path ps)" by blast
  have "tree nodes'" unfolding tree_def
  proof (intro conjI allI impI)
    show "nodes' (abs_path []) = None" using assms(1) ps(2) by (simp add: tree_def)
    fix qs q
    assume qs: "qs \<noteq> []" "nodes' (abs_path (qs @ [q])) \<noteq> None"
    then have there: "nodes (abs_path (qs @ [q])) \<noteq> None" using ps(2) by (auto split: if_splits)
    then have "abs_path qs \<noteq> abs_path ps"
      using assms(2) qs(1) ps(3) unfolding only_leaves_def by metis
    moreover have "nodes (abs_path qs) = Some DirNode" using there qs(1) assms(1) unfolding tree_def by blast
    ultimately show "nodes' (abs_path qs) = Some DirNode" using ps(2) by simp
  qed
  moreover have "only_leaves can_remove nodes'" using assms(2) ps(2) by (simp add: only_leaves_def)
  moreover have "removed_inside roots nodes nodes'"
    using ps(2,4) unfolding removed_inside_def by (auto simp: map_le_def)
  ultimately show ?thesis by blast
qed (use assms in simp)

lemma delete_candidates_keeps:
  "tree nodes \<Longrightarrow> only_leaves can_remove nodes \<Longrightarrow>
   delete_candidates can_remove nodes roots cs deleted = (r, nodes') \<Longrightarrow>
   tree nodes' \<and> only_leaves can_remove nodes' \<and> removed_inside roots nodes nodes'"
proof (induction cs arbitrary: nodes deleted)
  case (Cons c cs)
  show ?case
  proof (cases "ensureInsideAllowedRootsForCreate nodes c roots")
    case (Inr inside)
    obtain x m where x: "Remove can_remove nodes inside = (x, m)" by fastforce
    note step = Remove_keeps [OF Cons.prems(1,2) Inr x]
    show ?thesis
      using Cons.prems(3) Inr x step Cons.IH [of m] removed_inside_trans [of roots nodes m nodes']
      by (cases x) auto
  qed (use Cons.prems in auto)
qed auto

lemma DeleteArchiveWithSidecars_keeps:
  "tree nodes \<Longrightarrow> only_leaves can_remove nodes \<Longrightarrow>
   DeleteArchiveWithSidecars can_remove nodes path roots = (r, nodes') \<Longrightarrow>
   tree nodes' \<and> only_leaves can_remove nodes' \<and> removed_inside roots nodes nodes'"
  by (auto simp: DeleteArchiveWithSidecars_def split: sum.splits dest: delete_candidates_keeps)

end
