(* ===== verification/Retention.thy ===== *)
theory Retention
  imports Archive_Roots Go_Json
begin

text \<open>
  Backup retention, \<open>src/backup/internal/retention/retention.go\<close>. A directory listing is sorted by name, as
  \<open>os.ReadDir\<close> returns it. \<open>sort.Slice\<close> sorts up to twelve elements by insertion and so keeps the order of
  equal ones; for longer slices its result is the parameter \<open>big_sort\<close>.
\<close>

record Policy =
  po_KeepDailies :: int
  po_KeepWeeklies :: int
  po_KeepMonthlies :: int

record Archive =
  ar_Path :: string
  ar_FileName :: string
  ar_VMID :: string
  ar_Timestamp :: instant

record ApplyParams =
  ap_ArchiveRoot :: string
  ap_ArchiveRoots :: "string list"
  ap_VMID :: string
  ap_Policy :: Policy
  ap_DryRun :: bool

record ApplyResult =
  as_ArchiveRoot :: string
  as_DryRun :: bool
  as_Evaluated :: nat
  as_Kept :: "string list"
  as_WouldDelete :: "string list"
  as_Deleted :: "string list"

datatype retention_error = ReadDirFailed string | NegativePolicy | ArchiveError archive_error

subsection \<open>File names\<close>

text \<open>\<open>n\<close> digits and what follows them.\<close>

definition digits_n :: "nat \<Rightarrow> string \<Rightarrow> (nat \<times> string) option" where
  "digits_n n s =
     (if length s < n then None else map_option (\<lambda>v. (v, drop n s)) (digits_val 0 (take n s)))"

definition archive_stamp :: "string \<Rightarrow> instant option" where
  "archive_stamp s =
     Option.bind (digits_n 4 s) (\<lambda>(y, s). Option.bind (skip_char (CHR ''_'') s) (\<lambda>s.
     Option.bind (digits_n 2 s) (\<lambda>(mo, s). Option.bind (skip_char (CHR ''_'') s) (\<lambda>s.
     Option.bind (digits_n 2 s) (\<lambda>(d, s). Option.bind (skip_char (CHR ''-'') s) (\<lambda>s.
     Option.bind (digits_n 2 s) (\<lambda>(h, s). Option.bind (skip_char (CHR ''_'') s) (\<lambda>s.
     Option.bind (digits_n 2 s) (\<lambda>(mi, s). Option.bind (skip_char (CHR ''_'') s) (\<lambda>s.
     Option.bind (digits_n 2 s) (\<lambda>(sec, s).
       if mo = 0 \<or> 12 < mo \<or> 24 \<le> h \<or> 60 \<le> mi \<or> 60 \<le> sec \<or> d < 1 \<or> days_in mo (int y) < d then None
       else Some (date_instant (int y) mo d h mi sec 0))))))))))))"

definition ParseArchiveFileName :: "string \<Rightarrow> Archive option" where
  "ParseArchiveFileName name =
     (let kind = (if HasPrefix name ''vzdump-qemu-'' then Some (drop 12 name)
                  else if HasPrefix name ''vzdump-lxc-'' then Some (drop 11 name) else None)
      in Option.bind kind (\<lambda>s.
         let vmid = takeWhile is_digit s in
         if vmid = [] then None
         else Option.bind (skip_char (CHR ''-'') (drop (length vmid) s)) (\<lambda>s.
           map_option (\<lambda>stamp. \<lparr>ar_Path = [], ar_FileName = name, ar_VMID = vmid, ar_Timestamp = stamp\<rparr>)
             (archive_stamp s))))"

subsection \<open>Enumeration\<close>

fun insert_newest :: "Archive \<Rightarrow> Archive list \<Rightarrow> Archive list" where
  "insert_newest a [] = [a]"
| "insert_newest a (b # bs) =
     (if After (ar_Timestamp a) (ar_Timestamp b) then a # b # bs else b # insert_newest a bs)"

definition insertion_sort :: "Archive list \<Rightarrow> Archive list" where
  "insertion_sort xs = fold insert_newest xs []"

definition sort_archives :: "(Archive list \<Rightarrow> Archive list) \<Rightarrow> Archive list \<Rightarrow> Archive list" where
  "sort_archives big_sort xs = (if length xs \<le> 12 then insertion_sort xs else big_sort xs)"

type_synonym listing = "string \<Rightarrow> (string \<times> bool) list option"

definition select_archive :: "string \<Rightarrow> string \<Rightarrow> string \<times> bool \<Rightarrow> Archive option" where
  "select_archive root vmidFilter de =
     (if snd de then None
      else case ParseArchiveFileName (fst de) of
          None \<Rightarrow> None
        | Some parsed \<Rightarrow>
            if vmidFilter \<noteq> [] \<and> ar_VMID parsed \<noteq> vmidFilter then None
            else Some (parsed\<lparr>ar_Path := JoinPath [root, fst de]\<rparr>))"

definition Enumerate ::
  "(Archive list \<Rightarrow> Archive list) \<Rightarrow> listing \<Rightarrow> string \<Rightarrow> string \<Rightarrow> retention_error + Archive list" where
  "Enumerate big_sort readdir root vmidFilter =
     (case readdir root of
        None \<Rightarrow> Inl (ReadDirFailed root)
      | Some dirEntries \<Rightarrow>
          Inr (sort_archives big_sort (List.map_filter (select_archive root vmidFilter) dirEntries)))"

subsection \<open>Which archives are kept\<close>

definition day_key :: "instant \<Rightarrow> string" where
  "day_key t = (let (y, m, d) = format_date t
     in format_year y @ ''-'' @ pad 2 (nat_digits m) @ ''-'' @ pad 2 (nat_digits d))"

definition month_key :: "instant \<Rightarrow> string" where
  "month_key t = (let (y, m, d) = format_date t in format_year y @ ''-'' @ pad 2 (nat_digits m))"

text \<open>The ISO year and week: those of the Thursday of the same week. Day 0 is a Monday.\<close>

definition ISOWeek :: "instant \<Rightarrow> int \<times> int" where
  "ISOWeek t =
     (let d = t div (24 * Hour); (y, yday) = year_of_days (d + 3 - d mod 7) in (y, yday div 7 + 1))"

text \<open>\<open>fmt\<close>'s \<open>%04d\<close>, whose width counts the sign.\<close>

definition pad_04d :: "int \<Rightarrow> string" where
  "pad_04d y = (if y < 0 then CHR ''-'' # pad 3 (nat_digits (nat (- y))) else pad 4 (nat_digits (nat y)))"

definition week_key :: "instant \<Rightarrow> string" where
  "week_key t = (let (y, w) = ISOWeek t in pad_04d y @ ''-W'' @ pad 2 (nat_digits (nat w)))"

text \<open>One of the three loops: the first archive of each bucket, until \<open>n\<close> buckets have been seen.\<close>

fun keep_loop :: "(instant \<Rightarrow> string) \<Rightarrow> int \<Rightarrow> Archive list \<Rightarrow> string list \<Rightarrow> string list" where
  "keep_loop key n [] seen = []"
| "keep_loop key n (a # as) seen =
     (let k = key (ar_Timestamp a) in
      if k \<in> set seen then keep_loop key n as seen
      else ar_Path a # (if int (length (k # seen)) \<ge> n then [] else keep_loop key n as (k # seen)))"

definition ComputeKeepSet :: "Archive list \<Rightarrow> Policy \<Rightarrow> string list" where
  "ComputeKeepSet archives policy =
     (if archives = [] then []
      else (if po_KeepDailies policy > 0 then keep_loop day_key (po_KeepDailies policy) archives [] else []) @
           (if po_KeepWeeklies policy > 0 then keep_loop week_key (po_KeepWeeklies policy) archives [] else []) @
           (if po_KeepMonthlies policy > 0 then keep_loop month_key (po_KeepMonthlies policy) archives [] else []))"

subsection \<open>Applying a policy\<close>

fun delete_all ::
  "(string \<Rightarrow> bool) \<Rightarrow> nodes \<Rightarrow> string list \<Rightarrow> string list \<Rightarrow> string list \<Rightarrow> (archive_error + string list) \<times> nodes" where
  "delete_all can_remove nodes roots [] deleted = (Inr deleted, nodes)"
| "delete_all can_remove nodes roots (path # paths) deleted =
     (case DeleteArchiveWithSidecars can_remove nodes path roots of
        (Inl e, nodes') \<Rightarrow> (Inl e, nodes')
      | (Inr ds, nodes') \<Rightarrow> delete_all can_remove nodes' roots paths (deleted @ ds))"

definition ApplyRetention ::
  "(Archive list \<Rightarrow> Archive list) \<Rightarrow> (string \<Rightarrow> bool) \<Rightarrow> listing \<Rightarrow> nodes \<Rightarrow> ApplyParams \<Rightarrow>
   (retention_error + ApplyResult) \<times> nodes" where
  "ApplyRetention big_sort can_remove readdir nodes params =
     (let policy = ap_Policy params in
      if po_KeepDailies policy < 0 \<or> po_KeepWeeklies policy < 0 \<or> po_KeepMonthlies policy < 0
      then (Inl NegativePolicy, nodes)
      else case EnsureWritableDirectory nodes (ap_ArchiveRoot params) (ap_ArchiveRoots params) of
        Inl e \<Rightarrow> (Inl (ArchiveError e), nodes)
      | Inr root \<Rightarrow>
          (case Enumerate big_sort readdir root (TrimSpace (ap_VMID params)) of
             Inl e \<Rightarrow> (Inl e, nodes)
           | Inr archives \<Rightarrow>
               (let keepSet = ComputeKeepSet archives policy;
                    res = \<lparr>as_ArchiveRoot = root, as_DryRun = ap_DryRun params, as_Evaluated = length archives,
                           as_Kept = filter (\<lambda>p. p \<in> set keepSet) (map ar_Path archives),
                           as_WouldDelete = filter (\<lambda>p. p \<notin> set keepSet) (map ar_Path archives),
                           as_Deleted = []\<rparr>
                in if ap_DryRun params then (Inr res, nodes)
                   else case delete_all can_remove nodes (ap_ArchiveRoots params) (as_WouldDelete res) [] of
                       (Inl e, nodes') \<Rightarrow> (Inl (ArchiveError e), nodes')
                     | (Inr ds, nodes') \<Rightarrow> (Inr (res\<lparr>as_Deleted := ds\<rparr>), nodes'))))"

subsection \<open>What is kept\<close>

text \<open>
  \<open>newest_of_bucket key n archives a\<close>: \<open>a\<close> is the first archive of its bucket and fewer than \<open>n\<close> buckets come
  before it.
\<close>

definition newest_of_bucket :: "(instant \<Rightarrow> string) \<Rightarrow> int \<Rightarrow> Archive list \<Rightarrow> Archive \<Rightarrow> bool" where
  "newest_of_bucket key n archives a \<longleftrightarrow>
     (\<exists>xs ys. archives = xs @ a # ys \<and> key (ar_Timestamp a) \<notin> (key \<circ> ar_Timestamp) ` set xs
        \<and> int (card ((key \<circ> ar_Timestamp) ` set xs)) < n)"

lemma ex_split_Cons:
  "(\<exists>xs a ys. b # bs = xs @ a # ys \<and> P xs a) \<longleftrightarrow> P [] b \<or> (\<exists>xs a ys. bs = xs @ a # ys \<and> P (b # xs) a)"
  by (auto simp: Cons_eq_append_conv)

lemma keep_loop_iff:
  assumes "distinct seen" and "int (length seen) < n"
  shows "p \<in> set (keep_loop key n as seen) \<longleftrightarrow>
    (\<exists>xs a ys. as = xs @ a # ys \<and> ar_Path a = p
       \<and> key (ar_Timestamp a) \<notin> set seen \<union> (key \<circ> ar_Timestamp) ` set xs
       \<and> int (card (set seen \<union> (key \<circ> ar_Timestamp) ` set xs)) < n)"
    (is "_ \<longleftrightarrow> ?spec as seen")
  using assms
proof (induction as arbitrary: seen)
  case Nil
  then show ?case by simp
next
  case (Cons b bs)
  let ?k = "key (ar_Timestamp b)"
  have step: "?spec (b # bs) seen \<longleftrightarrow>
      (ar_Path b = p \<and> ?k \<notin> set seen) \<or> ?spec bs (?k # seen)"
    using Cons.prems by (subst ex_split_Cons) (simp add: distinct_card conj_ac)
  show ?case
  proof (cases "?k \<in> set seen")
    case True
    have "?spec bs (?k # seen) = ?spec bs seen" using True by (simp add: insert_absorb)
    with True step Cons show ?thesis by (simp add: Let_def)
  next
    case False
    have "card (set (?k # seen)) = length (?k # seen)"
      using False Cons.prems by (intro distinct_card) simp
    then have "int (length (?k # seen)) \<le> int (card (set (?k # seen) \<union> f ` set xs))" for f :: "Archive \<Rightarrow> string" and xs
      by (metis (no_types, lifting) List.finite_set Un_upper1 card_mono finite_UnI finite_imageI of_nat_mono)
    then have full: "\<not> ?spec bs (?k # seen)" if "int (length (?k # seen)) \<ge> n"
      using that by (meson leD order_trans)
    show ?thesis
    proof (cases "int (length (?k # seen)) \<ge> n")
      case True
      then show ?thesis using False step full by (simp add: Let_def) blast
    next
      case more: False
      have "p \<in> set (keep_loop key n bs (?k # seen)) \<longleftrightarrow> ?spec bs (?k # seen)"
        using Cons.IH [of "?k # seen"] more False Cons.prems by simp
      then show ?thesis using False more step by (simp add: Let_def) blast
    qed
  qed
qed

lemma newest_of_bucket_pos: "newest_of_bucket key n as a \<Longrightarrow> 0 < n \<and> as \<noteq> []"
  by (auto simp: newest_of_bucket_def)

lemma keep_loop_newest:
  "p \<in> set (if 0 < n then keep_loop key n as [] else []) \<longleftrightarrow>
     (\<exists>a. ar_Path a = p \<and> newest_of_bucket key n as a)"
proof (cases "0 < n")
  case True
  then show ?thesis using keep_loop_iff [of "[]" n p key as] by (auto simp: newest_of_bucket_def)
next
  case False
  then show ?thesis by (auto dest: newest_of_bucket_pos)
qed


subsection \<open>A backup next to its log\<close>

text \<open>A directory with one backup and the log that \<open>vzdump\<close> writes beside it, in the order of \<open>os.ReadDir\<close>.\<close>

definition log_name :: string where
  "log_name = ''vzdump-qemu-100-2026_03_01-02_00_00.log''"

definition backup_name :: string where
  "backup_name = ''vzdump-qemu-100-2026_03_01-02_00_00.vma.zst''"

definition one_backup_nodes :: nodes where
  "one_backup_nodes = map_of [(''/b'', DirNode), (''/b/'' @ log_name, RegFile), (''/b/'' @ backup_name, RegFile)]"

definition one_backup_listing :: listing where
  "one_backup_listing root = (if root = ''/b'' then Some [(log_name, False), (backup_name, False)] else None)"

definition keep_all_week :: ApplyParams where
  "keep_all_week = \<lparr>ap_ArchiveRoot = ''/b'', ap_ArchiveRoots = [''/b''], ap_VMID = ''100'',
     ap_Policy = \<lparr>po_KeepDailies = 7, po_KeepWeeklies = 4, po_KeepMonthlies = 12\<rparr>, ap_DryRun = False\<rparr>"

lemma split_second_slash:
  assumes "abs_path ps @ slash # p = slash # d @ slash # n" and "slash \<notin> set d" and "slash \<notin> set n"
  shows "abs_path ps = slash # d"
proof -
  have "Join ps [slash] @ slash # p = d @ slash # n" using assms(1) by (simp add: abs_path_def)
  then have "Join ps [slash] = d" using assms(2,3)
    by (auto simp: append_eq_append_conv2 append_eq_Cons_conv Cons_eq_append_conv)
  then show ?thesis by (simp add: abs_path_def)
qed

lemma one_backup_parent:
  assumes "ps \<noteq> []" and "one_backup_nodes (abs_path (ps @ [p])) \<noteq> None"
  shows "abs_path ps = ''/b''"
proof -
  have "abs_path (ps @ [p]) \<in> {''/b'', ''/b/'' @ log_name, ''/b/'' @ backup_name}"
    using assms(2) by (auto simp: one_backup_nodes_def split: if_splits)
  moreover have "abs_path (ps @ [p]) = abs_path ps @ slash # p" using assms(1) by (simp add: abs_path_snoc)
  moreover have "abs_path ps @ slash # p \<noteq> ''/b''"
    by (auto simp: abs_path_def slash_def append_eq_Cons_conv)
  ultimately have "abs_path ps @ slash # p = slash # ''b'' @ slash # log_name \<or>
      abs_path ps @ slash # p = slash # ''b'' @ slash # backup_name" by (simp add: slash_def)
  moreover have "slash \<notin> set ''b''" "slash \<notin> set log_name" "slash \<notin> set backup_name" by code_simp+
  ultimately have "abs_path ps = slash # ''b''"
    using split_second_slash [of ps p "''b''"] by metis
  then show ?thesis by (simp add: slash_def)
qed

lemma one_backup_tree: "tree one_backup_nodes"
proof -
  have "one_backup_nodes ''/b'' = Some DirNode" "one_backup_nodes (abs_path []) = None" by code_simp+
  then show ?thesis unfolding tree_def using one_backup_parent by metis
qed

lemma one_backup_leaves: "only_leaves (\<lambda>p. p \<noteq> ''/b'') one_backup_nodes"
  unfolding only_leaves_def using one_backup_parent by metis

subsection \<open>What is deleted\<close>

lemma delete_all_keeps:
  "tree nodes \<Longrightarrow> only_leaves can_remove nodes \<Longrightarrow>
   delete_all can_remove nodes roots paths deleted = (r, nodes') \<Longrightarrow> removed_inside roots nodes nodes'"
proof (induction paths arbitrary: nodes deleted)
  case (Cons path paths)
  obtain x m where x: "DeleteArchiveWithSidecars can_remove nodes path roots = (x, m)" by fastforce
  note step = DeleteArchiveWithSidecars_keeps [OF Cons.prems(1,2) x]
  show ?case
    using Cons.prems(3) x step Cons.IH [of m] removed_inside_trans [of roots nodes m nodes'] by (cases x) auto
qed simp

lemma ApplyRetention_removes:
  assumes "tree nodes" and "only_leaves can_remove nodes"
    and "ApplyRetention big_sort can_remove readdir nodes params = (r, nodes')"
  shows "removed_inside (ap_ArchiveRoots params) nodes nodes' \<and> (ap_DryRun params \<longrightarrow> nodes' = nodes)"
  using assms(3) delete_all_keeps [OF assms(1,2)]
  by (auto simp: ApplyRetention_def Let_def split: if_splits sum.splits prod.splits)

text \<open>
  C10: whatever symbolic links the file system holds, retention deletes no file or directory outside the
  allowed roots as they resolve at that time, creates nothing, and deletes nothing in a dry run. Only
  symbolic links themselves may go elsewhere.
\<close>

theorem retention_deletes_inside_roots:
  assumes "tree nodes" and "only_leaves can_remove nodes"
    and "ApplyRetention big_sort can_remove readdir nodes params = (r, nodes')"
  shows "nodes' \<subseteq>\<^sub>m nodes \<and>
    (\<forall>p. nodes' p \<noteq> nodes p \<longrightarrow> (\<forall>t. nodes p \<noteq> Some (LinkTo t)) \<longrightarrow>
       \<not> ap_DryRun params \<and> (\<exists>m. m \<subseteq>\<^sub>m nodes \<and> inside_roots m (ap_ArchiveRoots params) p))"
  using ApplyRetention_removes [OF assms] unfolding removed_inside_def by metis

theorem retention_deletes_inside_roots_witness:
  "let nodes' = snd (ApplyRetention id (\<lambda>p. p \<noteq> ''/b'') one_backup_listing one_backup_nodes keep_all_week)
   in nodes' (''/b/'' @ backup_name) = None \<and> nodes' \<subseteq>\<^sub>m one_backup_nodes \<and>
      (\<exists>m. m \<subseteq>\<^sub>m one_backup_nodes \<and> inside_roots m [''/b''] (''/b/'' @ backup_name))"
proof -
  let ?run = "ApplyRetention id (\<lambda>p. p \<noteq> ''/b'') one_backup_listing one_backup_nodes keep_all_week"
  have "snd ?run (''/b/'' @ backup_name) = None" "one_backup_nodes (''/b/'' @ backup_name) = Some RegFile"
    "ap_ArchiveRoots keep_all_week = [''/b'']"
    by code_simp+
  then show ?thesis
    using retention_deletes_inside_roots [OF one_backup_tree one_backup_leaves prod.collapse [of ?run, symmetric]]
    by (simp add: Let_def)
qed


end
