(* ===== verification/Console_Replay.thy ===== *)
theory Console_Replay
  imports Envelope_Verify Audit_Log
begin

text \<open>
  The console broker runs once per session and keeps its replay protection in a file:
  \<open>replay_store.go\<close> and \<open>readAndVerifyEnvelope\<close> of \<open>src/console-broker/cmd/pmx-console-broker\<close>. The file is its
  content, the outcome of each system call and the order in which Go iterates over the map are
  arguments. Times are written in UTC, as \<open>Remember\<close> takes them.
\<close>

record replayRecord =
  rr_JobID :: string
  rr_ObservedAt :: instant

record replayStore =
  rs_open :: bool
  rs_ttl :: duration
  rs_seen :: "string \<rightharpoonup> instant"

datatype store_error =
    StorePathRequired
  | StoreOpenFailed
  | StoreReadFailed
  | StoreRewriteFailed
  | StoreJobIDRequired
  | StoreMarshalFailed
  | StoreSeekFailed
  | StoreWriteFailed
  | StoreSyncFailed

text \<open>How far rewriting the file gets: an interrupted write leaves the first bytes of the new text.\<close>

datatype rewrite_fault = RwNone | RwTruncate | RwRewind | RwWrite nat | RwSync

subsection \<open>Records\<close>

definition record_json :: "replayRecord \<Rightarrow> json" where
  "record_json r =
     JObj [(''job_id'', JStr (rr_JobID r)), (''observed_at'', JStr (format_RFC3339Nano_in 0 (rr_ObservedAt r)))]"

definition MarshalRecord :: "replayRecord \<Rightarrow> string option" where
  "MarshalRecord r = (if printable_time 0 (rr_ObservedAt r) then Some (json_text (record_json r)) else None)"

definition set_record_field :: "string \<Rightarrow> lit \<Rightarrow> replayRecord \<Rightarrow> replayRecord option" where
  "set_record_field k v r =
     (if k = ''JOB_ID'' then map_option (\<lambda>x. r\<lparr>rr_JobID := x\<rparr>) (dec_str v (rr_JobID r))
      else if k = ''OBSERVED_AT'' then map_option (\<lambda>x. r\<lparr>rr_ObservedAt := x\<rparr>) (dec_time v (rr_ObservedAt r))
      else Some r)"

definition UnmarshalRecord :: "string \<Rightarrow> replayRecord option" where
  "UnmarshalRecord s =
     (case json_lit s of
        None \<Rightarrow> None
      | Some v \<Rightarrow>
          (case dec_struct set_record_field v \<lparr>rr_JobID = [], rr_ObservedAt = 0\<rparr> of
             (r, True) \<Rightarrow> Some r
           | (r, False) \<Rightarrow> None))"

subsection \<open>The store\<close>

fun load_lines :: "instant \<Rightarrow> string list \<Rightarrow> (string \<rightharpoonup> instant) \<Rightarrow> (string \<rightharpoonup> instant)" where
  "load_lines cutoff [] seen = seen"
| "load_lines cutoff (l # ls) seen =
     load_lines cutoff ls
       (case UnmarshalRecord l of
          None \<Rightarrow> seen
        | Some r \<Rightarrow>
            if TrimSpace (rr_JobID r) = [] \<or> Before (rr_ObservedAt r) cutoff then seen
            else seen(rr_JobID r \<mapsto> rr_ObservedAt r))"

definition load_store :: "duration \<Rightarrow> instant \<Rightarrow> bytes \<Rightarrow> store_error + (string \<rightharpoonup> instant)" where
  "load_store ttl now content =
     (let sc = scan_lines content; seen = load_lines (Add now (- ttl)) (tokens sc) Map.empty
      in if too_long sc then Inl StoreReadFailed else Inr seen)"

fun active_text :: "(string \<rightharpoonup> instant) \<Rightarrow> string list \<Rightarrow> bytes \<times> bool" where
  "active_text seen [] = ([], True)"
| "active_text seen (jobID # ids) =
     (case MarshalRecord \<lparr>rr_JobID = jobID, rr_ObservedAt = the (seen jobID)\<rparr> of
        None \<Rightarrow> ([], False)
      | Some line \<Rightarrow> (let (text, complete) = active_text seen ids in (line @ [newline] @ text, complete)))"

definition rewriteActive ::
  "rewrite_fault \<Rightarrow> string list \<Rightarrow> (string \<rightharpoonup> instant) \<Rightarrow> bytes \<Rightarrow> store_error option \<times> bytes" where
  "rewriteActive fault order seen content =
     (let (text, complete) = active_text seen order in
      case fault of
        RwTruncate \<Rightarrow> (Some StoreRewriteFailed, content)
      | RwRewind \<Rightarrow> (Some StoreRewriteFailed, [])
      | RwWrite n \<Rightarrow> (Some StoreRewriteFailed, take n text)
      | RwSync \<Rightarrow> (Some StoreRewriteFailed, text)
      | RwNone \<Rightarrow> if complete then (None, text) else (Some StoreMarshalFailed, text))"

definition openReplayStore ::
  "bool \<Rightarrow> rewrite_fault \<Rightarrow> instant \<Rightarrow> string list \<Rightarrow> string \<Rightarrow> duration \<Rightarrow> bytes \<Rightarrow> (store_error + replayStore) \<times> bytes" where
  "openReplayStore can_open fault now order path ttl content =
     (if TrimSpace path = [] then (Inl StorePathRequired, content)
      else if \<not> can_open then (Inl StoreOpenFailed, content)
      else case load_store ttl now content of
          Inl err \<Rightarrow> (Inl err, content)
        | Inr seen \<Rightarrow>
            (case rewriteActive fault order seen content of
               (Some err, content') \<Rightarrow> (Inl err, content')
             | (None, content') \<Rightarrow> (Inr \<lparr>rs_open = True, rs_ttl = ttl, rs_seen = seen\<rparr>, content')))"

definition StoreClose :: "replayStore \<Rightarrow> replayStore" where
  "StoreClose s = s\<lparr>rs_open := False\<rparr>"

definition StoreSeen :: "replayStore \<Rightarrow> instant \<Rightarrow> string \<Rightarrow> bool" where
  "StoreSeen s now jobID =
     (case rs_seen s (TrimSpace jobID) of None \<Rightarrow> False | Some observed \<Rightarrow> Sub now observed < rs_ttl s)"

definition StoreRemember ::
  "disk \<Rightarrow> instant \<Rightarrow> string \<Rightarrow> replayStore \<Rightarrow> bytes \<Rightarrow> store_error option \<times> replayStore \<times> bytes" where
  "StoreRemember d now jobID s content =
     (let trimmed = TrimSpace jobID in
      if trimmed = [] then (Some StoreJobIDRequired, s, content)
      else case MarshalRecord \<lparr>rr_JobID = trimmed, rr_ObservedAt = now\<rparr> of
          None \<Rightarrow> (Some StoreMarshalFailed, s, content)
        | Some line \<Rightarrow>
            (if \<not> rs_open s then (Some StoreSeekFailed, s, content)
             else case d of
               ShortWrite n \<Rightarrow> (Some StoreWriteFailed, s, content @ take n (line @ [newline]))
             | SyncFails \<Rightarrow> (Some StoreSyncFailed, s, content @ line @ [newline])
             | DiskOk \<Rightarrow> (None, s\<lparr>rs_seen := (rs_seen s)(trimmed \<mapsto> now)\<rparr>, content @ line @ [newline])))"

text \<open>The cache built from the store: \<open>order\<close> lists its job ids, \<open>nows\<close> the clock at each of them.\<close>

fun remember_each :: "ReplayCache \<Rightarrow> nat \<Rightarrow> (nat \<Rightarrow> instant) \<Rightarrow> string list \<Rightarrow> ReplayCache" where
  "remember_each c i nows [] = c"
| "remember_each c i nows (jobID # ids) = remember_each (Remember c (nows i) jobID) (Suc i) nows ids"

definition StoreReplayCache :: "replayStore \<Rightarrow> (nat \<Rightarrow> instant) \<Rightarrow> string list \<Rightarrow> ReplayCache" where
  "StoreReplayCache s nows order =
     remember_each (NewReplayCache (int (length order) + 1) (rs_ttl s)) 0 nows order"

subsection \<open>One process\<close>

text \<open>What one broker process finds: its input, the files it reads, the clock and the system calls.\<close>

record broker_run =
  br_stdin :: "bytes option"
  br_keyset :: "keyset_error + KeySet"
  br_path :: string
  br_can_open :: bool
  br_fault :: rewrite_fault
  br_open_time :: instant
  br_write_order :: "string list"
  br_cache_order :: "string list"
  br_cache_times :: "nat \<Rightarrow> instant"
  br_fingerprint :: "string option"
  br_clock :: verify_clock
  br_disk :: disk
  br_remember_time :: instant

datatype broker_error =
    StdinFailed
  | EmptyStdin
  | DecodeFailed envelope_error
  | KeysetFailed keyset_error
  | StoreFailed store_error
  | FingerprintFailed
  | FingerprintEmpty
  | VerifyFailed envelope_error

definition broker_class :: string where "broker_class = ''pmx-console-broker''"
definition store_ttl :: duration where "store_ttl = 2 * Hour"

text \<open>
  What follows once the store is open: verification against a cache built from it, and the new
  record. The result is the error and the envelope, as the caller gets them.
\<close>

definition verify_and_record ::
  "cbor_codec \<Rightarrow> ed25519 \<Rightarrow> broker_run \<Rightarrow> Envelope \<Rightarrow> KeySet \<Rightarrow> replayStore \<Rightarrow> bytes \<Rightarrow>
   (broker_error option \<times> Envelope option) \<times> bytes" where
  "verify_and_record cbor ed_verify r env ks store content1 =
     (let replay = StoreReplayCache store (br_cache_times r) (br_cache_order r) in
      case br_fingerprint r of
        None \<Rightarrow> ((Some FingerprintFailed, None), content1)
      | Some hostFingerprintRaw \<Rightarrow>
          (let hostFingerprint = TrimSpace hostFingerprintRaw in
           if hostFingerprint = [] then ((Some FingerprintEmpty, None), content1)
           else case fst (VerifyEnvelope cbor ed_verify (br_clock r) env ks broker_class hostFingerprint replay) of
               Some err \<Rightarrow> ((Some (VerifyFailed err), Some env), content1)
             | None \<Rightarrow>
                 (case StoreRemember (br_disk r) (br_remember_time r) (JobID env) store content1 of
                    (Some err, _, content2) \<Rightarrow> ((Some (StoreFailed err), Some env), content2)
                  | (None, _, content2) \<Rightarrow> ((None, Some env), content2))))"

definition readAndVerifyEnvelope ::
  "(bytes \<Rightarrow> string + Envelope) \<Rightarrow> cbor_codec \<Rightarrow> ed25519 \<Rightarrow> broker_run \<Rightarrow> bytes \<Rightarrow>
   (broker_error option \<times> Envelope option) \<times> bytes" where
  "readAndVerifyEnvelope cbor_read cbor ed_verify r content =
     (case br_stdin r of
        None \<Rightarrow> ((Some StdinFailed, None), content)
      | Some raw \<Rightarrow>
          (if raw = [] then ((Some EmptyStdin, None), content)
           else case UnmarshalEnvelope cbor_read raw of
               Inl err \<Rightarrow> ((Some (DecodeFailed err), None), content)
             | Inr env \<Rightarrow>
                 (case br_keyset r of
                    Inl err \<Rightarrow> ((Some (KeysetFailed err), None), content)
                  | Inr ks \<Rightarrow>
                      (case openReplayStore (br_can_open r) (br_fault r) (br_open_time r) (br_write_order r)
                              (br_path r) store_ttl content of
                         (Inl err, content1) \<Rightarrow> ((Some (StoreFailed err), None), content1)
                       | (Inr store, content1) \<Rightarrow> verify_and_record cbor ed_verify r env ks store content1))))"

subsection \<open>Records are read back as written\<close>

definition rec_ok :: "replayRecord \<Rightarrow> bool" where
  "rec_ok r \<longleftrightarrow> utf8_valid (rr_JobID r) \<and> printable_time 0 (rr_ObservedAt r) \<and>
     length (json_text (record_json r)) < max_token"

lemma record_keys:
  "fold_name (unquote (json_escape ''job_id'')) = ''JOB_ID''"
  "fold_name (unquote (json_escape ''observed_at'')) = ''OBSERVED_AT''"
  by (simp_all add: unquote_ascii fold_name_ascii byte_in_def char_of_def bit_0 del: fold_name.simps(2))

lemma record_json_wf: "json_wf max_depth (record_json r)"
  by (simp add: record_json_def max_depth_def)

lemma UnmarshalRecord_text:
  assumes "rec_ok r"
  shows "UnmarshalRecord (json_text (record_json r)) = Some r"
proof -
  have time: "parse_RFC3339 (json_escape (format_RFC3339Nano_in 0 (rr_ObservedAt r))) = Some (rr_ObservedAt r)"
    using parse_format [of 0 "rr_ObservedAt r"] assms by (simp add: json_escape_safe format_safe rec_ok_def)
  show ?thesis
    using assms unfolding UnmarshalRecord_def json_lit_text [OF record_json_wf]
    by (simp add: record_json_def dec_struct_def set_record_field_def record_keys time dec_str_def dec_time_def
        unquote_escape rec_ok_def)
qed

lemma record_text_clean:
  "newline \<notin> set (json_text (record_json r)) \<and> drop_cr (json_text (record_json r)) = json_text (record_json r)"
proof -
  have "\<forall>c \<in> set (json_text (record_json r)). (32 :: nat) \<le> of_char c"
    using json_text_clean [OF record_json_wf] by blast
  moreover have "last (json_text (record_json r)) = CHR ''}''" by (simp add: record_json_def)
  ultimately show ?thesis by (auto simp: newline_def drop_cr_def)
qed

lemma length_record_text:
  assumes "printable_time 0 t"
  shows "length (json_text (record_json \<lparr>rr_JobID = j, rr_ObservedAt = t\<rparr>)) \<le> 100 + 6 * length j"
proof -
  have "length (json_escape (format_RFC3339Nano_in 0 t)) \<le> 35"
    using length_format [OF assms] by (simp add: json_escape_safe format_safe)
  moreover have "length (json_escape ''job_id'') = 6" "length (json_escape ''observed_at'') = 11"
    by (simp_all add: json_escape_safe json_safe_def backslash_def dquote_def)
  ultimately show ?thesis using json_escape_text [of j] by (simp add: record_json_def json_string_def)
qed

subsection \<open>What a file holds\<close>

text \<open>
  The file can be read, and every line that is a record can be written again. The last record of
  \<open>j\<close>, and every one after it, is from \<open>t\<close> or later.
\<close>

definition file_inv :: "bytes \<Rightarrow> bool" where
  "file_inv content \<longleftrightarrow> \<not> too_long (scan_lines content) \<and>
     (\<forall>l \<in> set (tokens (scan_lines content)). \<forall>r. UnmarshalRecord l = Some r \<longrightarrow> rec_ok r)"

definition about :: "string \<Rightarrow> instant \<Rightarrow> string \<Rightarrow> bool" where
  "about j t l \<longleftrightarrow> (\<exists>r. UnmarshalRecord l = Some r \<and> rr_JobID r = j \<and> t \<le> rr_ObservedAt r)"

definition never_older :: "string \<Rightarrow> instant \<Rightarrow> string \<Rightarrow> bool" where
  "never_older j t l \<longleftrightarrow> (\<forall>r. UnmarshalRecord l = Some r \<and> rr_JobID r = j \<longrightarrow> t \<le> rr_ObservedAt r)"

definition records :: "bytes \<Rightarrow> string \<Rightarrow> instant \<Rightarrow> bool" where
  "records content j t \<longleftrightarrow>
     (\<exists>pre l post. tokens (scan_lines content) = pre @ l # post \<and> about j t l \<and> (\<forall>l' \<in> set post. never_older j t l'))"

lemma load_lines_append: "load_lines cutoff (xs @ ys) seen = load_lines cutoff ys (load_lines cutoff xs seen)"
  by (induction xs arbitrary: seen) auto

lemma load_lines_origin:
  "load_lines cutoff ls seen j = Some t \<Longrightarrow>
     seen j = Some t \<or> (\<exists>l \<in> set ls. UnmarshalRecord l = Some \<lparr>rr_JobID = j, rr_ObservedAt = t\<rparr>)"
proof (induction ls arbitrary: seen)
  case (Cons l ls)
  let ?seen = "case UnmarshalRecord l of None \<Rightarrow> seen
    | Some r \<Rightarrow> if TrimSpace (rr_JobID r) = [] \<or> Before (rr_ObservedAt r) cutoff then seen
        else seen(rr_JobID r \<mapsto> rr_ObservedAt r)"
  have "?seen j = Some t \<Longrightarrow> seen j = Some t \<or> UnmarshalRecord l = Some \<lparr>rr_JobID = j, rr_ObservedAt = t\<rparr>"
    by (cases "UnmarshalRecord l") (auto split: if_splits)
  then show ?case using Cons.prems Cons.IH [of ?seen] by auto
qed simp

lemma load_lines_keeps:
  assumes "\<forall>l \<in> set ls. never_older j t l" and "seen j = Some t0" and "t \<le> t0"
  shows "\<exists>t'. load_lines cutoff ls seen j = Some t' \<and> t \<le> t'"
  using assms
proof (induction ls arbitrary: seen t0)
  case (Cons l ls)
  let ?seen = "case UnmarshalRecord l of None \<Rightarrow> seen
    | Some r \<Rightarrow> if TrimSpace (rr_JobID r) = [] \<or> Before (rr_ObservedAt r) cutoff then seen
        else seen(rr_JobID r \<mapsto> rr_ObservedAt r)"
  have "\<exists>t1. ?seen j = Some t1 \<and> t \<le> t1"
    using Cons.prems by (auto simp: never_older_def split: option.splits)
  then show ?case using Cons.IH Cons.prems(1) by auto
qed auto

lemma load_store_records:
  assumes "records content j t" and "TrimSpace j \<noteq> []" and "now - ttl \<le> t"
    and "load_store ttl now content = Inr seen"
  shows "\<exists>t'. seen j = Some t' \<and> t \<le> t'"
proof -
  obtain pre l post r where ls: "tokens (scan_lines content) = pre @ l # post"
    and r: "UnmarshalRecord l = Some r" "rr_JobID r = j" "t \<le> rr_ObservedAt r"
    and post: "\<forall>l' \<in> set post. never_older j t l'"
    using assms(1) by (auto simp: records_def about_def)
  have "seen = load_lines (now - ttl) (pre @ l # post) Map.empty"
    using assms(4) ls by (auto simp: load_store_def Let_def Add_def split: if_splits)
  then have "seen = load_lines (now - ttl) post ((load_lines (now - ttl) pre Map.empty)(j \<mapsto> rr_ObservedAt r))"
    using r assms(2,3) by (simp add: load_lines_append Before_def)
  then show ?thesis using load_lines_keeps [OF post _ r(3)] by simp
qed

subsection \<open>Rewriting and appending\<close>

abbreviation line_for :: "(string \<rightharpoonup> instant) \<Rightarrow> string \<Rightarrow> string" where
  "line_for seen j \<equiv> json_text (record_json \<lparr>rr_JobID = j, rr_ObservedAt = the (seen j)\<rparr>)"

definition all_ok :: "(string \<rightharpoonup> instant) \<Rightarrow> bool" where
  "all_ok seen \<longleftrightarrow> (\<forall>j t. seen j = Some t \<longrightarrow> rec_ok \<lparr>rr_JobID = j, rr_ObservedAt = t\<rparr>)"

lemma load_store_ok:
  assumes "file_inv content" and "load_store ttl now content = Inr seen"
  shows "all_ok seen"
  using assms load_lines_origin [of "Add now (- ttl)" "tokens (scan_lines content)" Map.empty]
  by (fastforce simp: all_ok_def file_inv_def load_store_def Let_def split: if_splits)

lemma active_text_file:
  "all_ok seen \<Longrightarrow> set ids \<subseteq> dom seen \<Longrightarrow> active_text seen ids = (file_of (map (line_for seen) ids), True)"
proof (induction ids)
  case (Cons j ids)
  then obtain t where "seen j = Some t" by auto
  with Cons have "MarshalRecord \<lparr>rr_JobID = j, rr_ObservedAt = the (seen j)\<rparr> = Some (line_for seen j)"
    by (simp add: all_ok_def rec_ok_def MarshalRecord_def)
  with Cons show ?case by (simp add: file_of_def)
qed (simp add: file_of_def)

lemma scan_record_lines:
  assumes "\<forall>r \<in> set rs. rec_ok r"
  shows "scan_lines (file_of (map (\<lambda>r. json_text (record_json r)) rs)) =
    \<lparr>tokens = map (\<lambda>r. json_text (record_json r)) rs, too_long = False\<rparr>"
  using assms record_text_clean by (intro scan_clean_file) (auto simp: rec_ok_def)

text \<open>A file of records, given as the list of them.\<close>

definition file_of_records :: "replayRecord list \<Rightarrow> bytes" where
  "file_of_records rs = file_of (map (\<lambda>r. json_text (record_json r)) rs)"

lemma file_of_records_inv:
  assumes "\<forall>r \<in> set rs. rec_ok r"
  shows "file_inv (file_of_records rs)"
  using assms scan_record_lines [OF assms] by (auto simp: file_inv_def file_of_records_def UnmarshalRecord_text)

lemma file_of_records_records:
  assumes "\<forall>r \<in> set rs. rec_ok r" and "rs = pre @ r # post" and "rr_JobID r = j" and "t \<le> rr_ObservedAt r"
    and "\<forall>x \<in> set post. rr_JobID x = j \<longrightarrow> t \<le> rr_ObservedAt x"
  shows "records (file_of_records rs) j t"
proof -
  let ?text = "\<lambda>r. json_text (record_json r)"
  have "tokens (scan_lines (file_of_records rs)) = map ?text pre @ ?text r # map ?text post"
    using scan_record_lines [OF assms(1)] assms(2) by (simp add: file_of_records_def)
  moreover have "about j t (?text r)" using assms by (simp add: about_def UnmarshalRecord_text)
  moreover have "\<forall>l \<in> set (map ?text post). never_older j t l"
    using assms(1,2,5) by (auto simp: never_older_def UnmarshalRecord_text)
  ultimately show ?thesis unfolding records_def by blast
qed

definition records_in :: "(string \<rightharpoonup> instant) \<Rightarrow> string list \<Rightarrow> replayRecord list" where
  "records_in seen ids = map (\<lambda>j. \<lparr>rr_JobID = j, rr_ObservedAt = the (seen j)\<rparr>) ids"

lemma active_text_records:
  "all_ok seen \<Longrightarrow> set ids \<subseteq> dom seen \<Longrightarrow>
     active_text seen ids = (file_of_records (records_in seen ids), True) \<and> (\<forall>r \<in> set (records_in seen ids). rec_ok r)"
  using active_text_file [of seen ids]
  by (auto simp: file_of_records_def records_in_def comp_def all_ok_def)

lemma records_in_split:
  assumes "j \<in> set ids" and "distinct ids"
  obtains pre post where "records_in seen ids = pre @ \<lparr>rr_JobID = j, rr_ObservedAt = the (seen j)\<rparr> # post"
    "\<forall>x \<in> set post. rr_JobID x \<noteq> j"
proof -
  obtain xs ys where "ids = xs @ j # ys" using assms(1) by (auto simp: in_set_conv_decomp)
  then show ?thesis
    using assms(2) by (intro that [of "records_in seen xs" "records_in seen ys"]) (auto simp: records_in_def)
qed

lemma file_of_records_append:
  "file_of_records rs @ json_text (record_json r) @ [newline] = file_of_records (rs @ [r])"
  by (simp add: file_of_records_def file_of_def)

subsection \<open>What one process does to the file\<close>

text \<open>
  The conditions of a run: Go iterates over the map entry by entry, no write is cut short (truncating
  may fail, and so may the final syncs), the clock is in the range JSON can print, and job ids
  are text of at most 10000 bytes.
\<close>

definition iterates :: "broker_run \<Rightarrow> bytes \<Rightarrow> bool" where
  "iterates r content \<longleftrightarrow>
     (\<forall>seen. load_store store_ttl (br_open_time r) content = Inr seen \<longrightarrow>
        distinct (br_write_order r) \<and> set (br_write_order r) = dom seen \<and>
        distinct (br_cache_order r) \<and> set (br_cache_order r) = dom seen)"

definition not_cut :: "broker_run \<Rightarrow> bool" where
  "not_cut r \<longleftrightarrow> br_fault r \<in> {RwNone, RwTruncate, RwSync} \<and> br_disk r \<in> {DiskOk, SyncFails} \<and>
     printable_time 0 (br_remember_time r)"

definition ids_fit :: "(bytes \<Rightarrow> string + Envelope) \<Rightarrow> bool" where
  "ids_fit cbor_read \<longleftrightarrow>
     (\<forall>raw e. cbor_read raw = Inr e \<longrightarrow> utf8_valid (TrimSpace (JobID e)) \<and> length (TrimSpace (JobID e)) \<le> 10000)"

lemma new_record_ok:
  assumes "ids_fit cbor_read" and "cbor_read raw = Inr e" and "printable_time 0 t"
  shows "rec_ok \<lparr>rr_JobID = TrimSpace (JobID e), rr_ObservedAt = t\<rparr>"
proof -
  have "utf8_valid (TrimSpace (JobID e))" "length (TrimSpace (JobID e)) \<le> 10000"
    using assms(1,2) unfolding ids_fit_def by blast+
  then show ?thesis
    using length_record_text [OF assms(3), of "TrimSpace (JobID e)"] assms(3) by (simp add: rec_ok_def max_token_def)
qed

lemma openReplayStore_cases:
  assumes "file_inv content" and "iterates r content" and "not_cut r"
    and "openReplayStore (br_can_open r) (br_fault r) (br_open_time r) (br_write_order r) (br_path r) store_ttl content
           = (res, content')"
  obtains (unchanged) err where "res = Inl err" "content' = content"
  | (rewritten) seen where "load_store store_ttl (br_open_time r) content = Inr seen" "all_ok seen"
      "content' = file_of_records (records_in seen (br_write_order r))"
      "\<forall>x \<in> set (records_in seen (br_write_order r)). rec_ok x"
      "res = Inr \<lparr>rs_open = True, rs_ttl = store_ttl, rs_seen = seen\<rparr> \<or> (\<exists>err. res = Inl err)"
proof (cases "load_store store_ttl (br_open_time r) content")
  case (Inl err)
  then show ?thesis using assms(4) unchanged by (auto simp: openReplayStore_def split: if_splits)
next
  case (Inr seen)
  have ok: "all_ok seen" by (rule load_store_ok [OF assms(1) Inr])
  have txts: "active_text seen (br_write_order r) = (file_of_records (records_in seen (br_write_order r)), True)"
    "\<forall>x \<in> set (records_in seen (br_write_order r)). rec_ok x"
    using active_text_records [OF ok] assms(2) Inr by (auto simp: iterates_def)
  then show ?thesis
    using assms(3,4) Inr unchanged rewritten [OF Inr ok _ txts(2)]
    by (auto simp: openReplayStore_def rewriteActive_def not_cut_def split: if_splits)
qed

lemma StoreRemember_cases:
  assumes "StoreRemember d now j s content = (err, s', content')" and "d \<in> {DiskOk, SyncFails}" and "printable_time 0 now"
  obtains (refused) "err \<noteq> None" "content' = content"
  | (written) "TrimSpace j \<noteq> []"
      "content' = content @ json_text (record_json \<lparr>rr_JobID = TrimSpace j, rr_ObservedAt = now\<rparr>) @ [newline]"
  using assms by (auto simp: StoreRemember_def MarshalRecord_def Let_def split: if_splits)

lemma run_stages:
  assumes "readAndVerifyEnvelope cbor_read cbor ed_verify r content = ((err, env), content')"
  obtains (early) "err \<noteq> None" "content' = content"
  | (opened) raw e ks res content1 where "br_stdin r = Some raw" "cbor_read raw = Inr e" "br_keyset r = Inr ks"
      "openReplayStore (br_can_open r) (br_fault r) (br_open_time r) (br_write_order r) (br_path r) store_ttl content
         = (res, content1)"
      "(\<exists>x. res = Inl x) \<and> err \<noteq> None \<and> content' = content1 \<or>
       (\<exists>store. res = Inr store \<and> verify_and_record cbor ed_verify r e ks store content1 = ((err, env), content'))"
proof (cases "br_stdin r")
  case None
  then show ?thesis using assms early by (auto simp: readAndVerifyEnvelope_def)
next
  case (Some raw)
  note stdin = Some
  show ?thesis
  proof (cases "cbor_read raw")
    case (Inl x)
    then show ?thesis using assms stdin early
      by (auto simp: readAndVerifyEnvelope_def UnmarshalEnvelope_def split: if_splits)
  next
    case (Inr e)
    note read = Inr
    show ?thesis
    proof (cases "br_keyset r")
      case (Inl x)
      then show ?thesis using assms stdin read early
        by (auto simp: readAndVerifyEnvelope_def UnmarshalEnvelope_def split: if_splits)
    next
      case (Inr ks)
      obtain res content1 where store: "openReplayStore (br_can_open r) (br_fault r) (br_open_time r)
          (br_write_order r) (br_path r) store_ttl content = (res, content1)" by fastforce
      then show ?thesis
        using assms stdin read Inr early opened [OF stdin read Inr store]
        by (cases res) (auto simp: readAndVerifyEnvelope_def UnmarshalEnvelope_def split: if_splits)
    qed
  qed
qed

lemma verify_and_record_cases:
  assumes "verify_and_record cbor ed_verify r e ks store content1 = ((err, env), content')" and "not_cut r"
  obtains (rejected) "err \<noteq> None" "content' = content1"
  | (recorded) host where "TrimSpace (JobID e) \<noteq> []" "env = Some e"
      "content' = content1 @ json_text (record_json \<lparr>rr_JobID = TrimSpace (JobID e),
         rr_ObservedAt = br_remember_time r\<rparr>) @ [newline]"
      "fst (VerifyEnvelope cbor ed_verify (br_clock r) e ks broker_class host
         (StoreReplayCache store (br_cache_times r) (br_cache_order r))) = None"
proof (cases "br_fingerprint r")
  case None
  then show ?thesis using assms rejected by (auto simp: verify_and_record_def)
next
  case (Some raw)
  let ?host = "TrimSpace raw"
  let ?v = "fst (VerifyEnvelope cbor ed_verify (br_clock r) e ks broker_class ?host
      (StoreReplayCache store (br_cache_times r) (br_cache_order r)))"
  obtain x s' c' where rem: "StoreRemember (br_disk r) (br_remember_time r) (JobID e) store content1 = (x, s', c')"
    by (cases "StoreRemember (br_disk r) (br_remember_time r) (JobID e) store content1") auto
  show ?thesis
  proof (cases "?host = [] \<or> ?v \<noteq> None")
    case True
    then show ?thesis using assms Some rejected by (auto simp: verify_and_record_def Let_def split: if_splits)
  next
    case False
    then have res: "((err, env), content') = ((map_option StoreFailed x, Some e), c')"
      using assms(1) Some rem by (cases x) (auto simp: verify_and_record_def Let_def)
    from rem show ?thesis
      by (cases rule: StoreRemember_cases)
        (use assms(2) res False rejected recorded in \<open>auto simp: not_cut_def\<close>)
  qed
qed

text \<open>The three things a run can do to the file.\<close>

lemma run_cases:
  assumes "file_inv content" and "iterates r content" and "not_cut r" and "ids_fit cbor_read"
    and "readAndVerifyEnvelope cbor_read cbor ed_verify r content = ((err, env), content')"
  obtains (kept) "err \<noteq> None" "content' = content"
  | (wrote) seen new where "load_store store_ttl (br_open_time r) content = Inr seen"
      "content' = file_of_records (records_in seen (br_write_order r) @ new)"
      "\<forall>x \<in> set (records_in seen (br_write_order r) @ new). rec_ok x"
      "new = [] \<and> err \<noteq> None \<or>
       (\<exists>raw e ks host. br_stdin r = Some raw \<and> cbor_read raw = Inr e \<and> br_keyset r = Inr ks \<and> env = Some e \<and>
          TrimSpace (JobID e) \<noteq> [] \<and> new = [\<lparr>rr_JobID = TrimSpace (JobID e), rr_ObservedAt = br_remember_time r\<rparr>] \<and>
          fst (VerifyEnvelope cbor ed_verify (br_clock r) e ks broker_class host
            (StoreReplayCache \<lparr>rs_open = True, rs_ttl = store_ttl, rs_seen = seen\<rparr> (br_cache_times r) (br_cache_order r))) = None)"
  using assms(5)
proof (cases rule: run_stages)
  case early
  then show ?thesis by (rule kept)
next
  case (opened raw e ks res content1)
  from assms(1-3) opened(4) show ?thesis
  proof (cases rule: openReplayStore_cases)
    case (unchanged x)
    then show ?thesis using opened(5) kept by auto
  next
    case (rewritten seen)
    show ?thesis
    proof (cases res)
      case (Inl x)
      then show ?thesis using rewritten opened(5) wrote [of seen "[]"] by auto
    next
      case (Inr store)
      then have store: "store = \<lparr>rs_open = True, rs_ttl = store_ttl, rs_seen = seen\<rparr>" using rewritten(5) by auto
      have "verify_and_record cbor ed_verify r e ks store content1 = ((err, env), content')"
        using opened(5) Inr by auto
      then show ?thesis using assms(3)
      proof (cases rule: verify_and_record_cases)
        case rejected
        then show ?thesis using rewritten wrote [of seen "[]"] by auto
      next
        case (recorded host)
        have "rec_ok \<lparr>rr_JobID = TrimSpace (JobID e), rr_ObservedAt = br_remember_time r\<rparr>"
          using new_record_ok [OF assms(4) opened(2)] assms(3) by (simp add: not_cut_def)
        then show ?thesis
          using rewritten(1,3,4) recorded store opened(1-3) file_of_records_append
          by (intro wrote [of seen "[\<lparr>rr_JobID = TrimSpace (JobID e), rr_ObservedAt = br_remember_time r\<rparr>]"]) auto
      qed
    qed
  qed
qed

subsection \<open>Records survive\<close>

lemma records_after_write:
  assumes "\<forall>x \<in> set (records_in seen ids @ new). rec_ok x" and "j \<in> set ids" and "distinct ids"
    and "seen j = Some t'" and "t \<le> t'" and "\<forall>x \<in> set new. t \<le> rr_ObservedAt x"
  shows "records (file_of_records (records_in seen ids @ new)) j t"
proof -
  obtain pre post where split: "records_in seen ids = pre @ \<lparr>rr_JobID = j, rr_ObservedAt = the (seen j)\<rparr> # post"
    "\<forall>x \<in> set post. rr_JobID x \<noteq> j"
    by (rule records_in_split [OF assms(2,3)])
  show ?thesis
    by (rule file_of_records_records [OF assms(1), of pre "\<lparr>rr_JobID = j, rr_ObservedAt = the (seen j)\<rparr>" "post @ new"])
      (use split assms(4-6) in auto)
qed

lemma run_keeps_record:
  assumes "file_inv content" and "iterates r content" and "not_cut r" and "ids_fit cbor_read"
    and "records content j t" and "TrimSpace j \<noteq> []" and "t \<le> br_remember_time r" and "br_open_time r \<le> t + store_ttl"
  shows "file_inv (snd (readAndVerifyEnvelope cbor_read cbor ed_verify r content)) \<and>
    records (snd (readAndVerifyEnvelope cbor_read cbor ed_verify r content)) j t"
proof -
  obtain err env content' where run: "readAndVerifyEnvelope cbor_read cbor ed_verify r content = ((err, env), content')"
    by (metis prod.collapse)
  from assms(1-4) run show ?thesis
  proof (cases rule: run_cases)
    case kept
    then show ?thesis using run assms(1,5) by simp
  next
    case (wrote seen new)
    obtain t' where t': "seen j = Some t'" "t \<le> t'"
      using load_store_records [OF assms(5,6) _ wrote(1)] assms(8) by auto
    then have "j \<in> set (br_write_order r)" "distinct (br_write_order r)"
      using assms(2) wrote(1) by (auto simp: iterates_def)
    moreover have "\<forall>x \<in> set new. t \<le> rr_ObservedAt x" using wrote(4) assms(7) by auto
    ultimately show ?thesis
      using run wrote(2,3) file_of_records_inv [OF wrote(3)] records_after_write [OF wrote(3) _ _ t'] by simp
  qed
qed

text \<open>Broker processes one after the other (the lock on the file keeps them apart).\<close>

fun broker_runs ::
  "(bytes \<Rightarrow> string + Envelope) \<Rightarrow> cbor_codec \<Rightarrow> ed25519 \<Rightarrow> broker_run list \<Rightarrow> bytes \<Rightarrow> bytes" where
  "broker_runs cbor_read cbor ed_verify [] content = content"
| "broker_runs cbor_read cbor ed_verify (r # rs) content =
     broker_runs cbor_read cbor ed_verify rs (snd (readAndVerifyEnvelope cbor_read cbor ed_verify r content))"

fun runs_ok ::
  "(bytes \<Rightarrow> string + Envelope) \<Rightarrow> cbor_codec \<Rightarrow> ed25519 \<Rightarrow> broker_run list \<Rightarrow> bytes \<Rightarrow> bool" where
  "runs_ok cbor_read cbor ed_verify [] content \<longleftrightarrow> True"
| "runs_ok cbor_read cbor ed_verify (r # rs) content \<longleftrightarrow> iterates r content \<and> not_cut r \<and>
     runs_ok cbor_read cbor ed_verify rs (snd (readAndVerifyEnvelope cbor_read cbor ed_verify r content))"

lemma runs_keep_record:
  assumes "ids_fit cbor_read" and "TrimSpace j \<noteq> []" and "file_inv content" and "records content j t"
    and "runs_ok cbor_read cbor ed_verify rs content"
    and "\<forall>r \<in> set rs. t \<le> br_remember_time r \<and> br_open_time r \<le> t + store_ttl"
  shows "file_inv (broker_runs cbor_read cbor ed_verify rs content) \<and>
    records (broker_runs cbor_read cbor ed_verify rs content) j t"
  using assms(3-6)
proof (induction rs arbitrary: content)
  case (Cons r rs)
  then show ?case using run_keeps_record [OF Cons.prems(1) _ _ assms(1) Cons.prems(2) assms(2)] by simp
qed simp

subsection \<open>The cache of a run\<close>

lemma remember_each_abs:
  assumes "rc_inv c" and "distinct ids" and "set ids \<inter> fst ` set (rc_abs c) = {}"
    and "int (length (rc_abs c) + length ids) \<le> rc_capacity c"
  shows "rc_inv (remember_each c i nows ids) \<and> rc_ttl (remember_each c i nows ids) = rc_ttl c \<and>
    rc_abs (remember_each c i nows ids) = rc_abs c @ zip ids (map nows [i..<i + length ids])"
  using assms
proof (induction ids arbitrary: c i)
  case (Cons j ids)
  have abs: "rc_abs (Remember c (nows i) j) = rc_abs c @ [(j, nows i)]"
    using Cons.prems by (auto simp: Remember_refines log_remember_def)
  have "rc_inv (remember_each (Remember c (nows i) j) (Suc i) nows ids) \<and>
      rc_ttl (remember_each (Remember c (nows i) j) (Suc i) nows ids) = rc_ttl (Remember c (nows i) j) \<and>
      rc_abs (remember_each (Remember c (nows i) j) (Suc i) nows ids) =
        rc_abs (Remember c (nows i) j) @ zip ids (map nows [Suc i..<Suc i + length ids])"
    using Cons.prems by (intro Cons.IH) (auto simp: abs Remember_inv)
  moreover have "[i..<i + length (j # ids)] = i # [Suc i..<Suc i + length ids]" by (simp add: upt_conv_Cons del: upt_Suc)
  ultimately show ?case by (simp add: abs del: upt_Suc)
qed simp

lemma stored_id_seen:
  assumes "distinct order" and "j \<in> set order" and "\<forall>k. now - nows k < store_ttl"
  shows "Seen (StoreReplayCache \<lparr>rs_open = True, rs_ttl = store_ttl, rs_seen = seen\<rparr> nows order) now j"
proof -
  let ?c = "StoreReplayCache \<lparr>rs_open = True, rs_ttl = store_ttl, rs_seen = seen\<rparr> nows order"
  have c: "rc_inv ?c" "rc_ttl ?c = store_ttl" "rc_abs ?c = zip order (map nows [0..<length order])"
    using remember_each_abs [OF rc_inv_new [of "int (length order) + 1" store_ttl] assms(1), of 0 nows]
    by (simp_all add: StoreReplayCache_def NewReplayCache_def rc_abs_def)
  have "map_of (rc_abs ?c) j \<noteq> None" using c(3) assms(2) by (simp add: map_of_zip_is_None)
  then obtain t where "map_of (rc_abs ?c) j = Some t" by blast
  moreover then have "now - t < store_ttl"
    using c(3) assms(3) by (auto dest!: map_of_SomeD simp: set_zip)
  ultimately show ?thesis
    using c by (simp add: Seen_refines log_seen_def Sub_less_iff store_ttl_def duration_defs min_int64_def max_int64_def)
qed

text \<open>Only a current envelope gets through.\<close>

lemma accepted_run_current:
  assumes "readAndVerifyEnvelope cbor_read cbor ed_verify r content = ((None, env), content')" and "not_cut r"
    and "br_stdin r = Some raw" and "cbor_read raw = Inr e"
  shows "vc_now (br_clock r) \<le> IssuedAt e + MaxLifetime + NTPSkewTolerance"
  using assms(1)
proof (cases rule: run_stages)
  case (opened raw' e' ks res content1)
  then obtain store where "verify_and_record cbor ed_verify r e ks store content1 = ((None, env), content')"
    using assms(3,4) by auto
  then show ?thesis using assms(2)
    by (cases rule: verify_and_record_cases) (auto simp: VerifyEnvelope_accepts first_rejection_None)
qed simp

subsection \<open>Runs without faults\<close>

text \<open>A run in which every file can be read and written and the envelope passes all checks but replay.\<close>

definition smooth_run ::
  "(bytes \<Rightarrow> string + Envelope) \<Rightarrow> cbor_codec \<Rightarrow> ed25519 \<Rightarrow> broker_run \<Rightarrow> Envelope \<Rightarrow> bool" where
  "smooth_run cbor_read cbor ed_verify r e \<longleftrightarrow>
     (\<exists>raw ks host. br_stdin r = Some raw \<and> raw \<noteq> [] \<and> cbor_read raw = Inr e \<and> br_keyset r = Inr ks \<and>
        TrimSpace (br_path r) \<noteq> [] \<and> br_can_open r \<and> br_fault r = RwNone \<and> br_disk r = DiskOk \<and>
        br_fingerprint r = Some host \<and> TrimSpace host \<noteq> [] \<and> printable_time 0 (br_remember_time r) \<and>
        first_rejection cbor ed_verify (br_clock r) e ks broker_class (TrimSpace host) = None)"

lemma smooth_run_accepts:
  assumes "smooth_run cbor_read cbor ed_verify r e" and "TrimSpace (JobID e) \<noteq> []"
    and "load_store store_ttl (br_open_time r) content = Inr seen" and "all_ok seen"
    and "set (br_write_order r) \<subseteq> dom seen"
    and "\<not> Seen (StoreReplayCache \<lparr>rs_open = True, rs_ttl = store_ttl, rs_seen = seen\<rparr> (br_cache_times r) (br_cache_order r))
           (vc_seen (br_clock r)) (JobID e)"
  shows "readAndVerifyEnvelope cbor_read cbor ed_verify r content = ((None, Some e),
    file_of_records (records_in seen (br_write_order r) @
      [\<lparr>rr_JobID = TrimSpace (JobID e), rr_ObservedAt = br_remember_time r\<rparr>]))"
proof -
  obtain raw ks host where r: "br_stdin r = Some raw" "raw \<noteq> []" "cbor_read raw = Inr e" "br_keyset r = Inr ks"
    "TrimSpace (br_path r) \<noteq> []" "br_can_open r" "br_fault r = RwNone" "br_disk r = DiskOk"
    "br_fingerprint r = Some host" "TrimSpace host \<noteq> []" "printable_time 0 (br_remember_time r)"
    "first_rejection cbor ed_verify (br_clock r) e ks broker_class (TrimSpace host) = None"
    using assms(1) by (auto simp: smooth_run_def)
  let ?store = "\<lparr>rs_open = True, rs_ttl = store_ttl, rs_seen = seen\<rparr>"
  have "openReplayStore (br_can_open r) (br_fault r) (br_open_time r) (br_write_order r) (br_path r) store_ttl content
      = (Inr ?store, file_of_records (records_in seen (br_write_order r)))"
    using r(5-7) assms(3) active_text_records [OF assms(4,5)] by (simp add: openReplayStore_def rewriteActive_def)
  moreover have "fst (VerifyEnvelope cbor ed_verify (br_clock r) e ks broker_class (TrimSpace host)
      (StoreReplayCache ?store (br_cache_times r) (br_cache_order r))) = None"
    using r(12) assms(6) by (simp add: VerifyEnvelope_accepts)
  ultimately show ?thesis
    using r assms(2) file_of_records_append
    by (simp add: readAndVerifyEnvelope_def UnmarshalEnvelope_def verify_and_record_def StoreRemember_def
        MarshalRecord_def Let_def)
qed

lemma load_store_empty: "load_store ttl now [] = Inr Map.empty"
  by (simp add: load_store_def scan_lines_def)

lemma load_store_single:
  assumes "rec_ok r" and "TrimSpace (rr_JobID r) \<noteq> []" and "now \<le> rr_ObservedAt r + ttl"
  shows "load_store ttl now (file_of_records [r]) = Inr [rr_JobID r \<mapsto> rr_ObservedAt r]"
  using assms scan_record_lines [of "[r]"]
  by (simp add: load_store_def file_of_records_def UnmarshalRecord_text Before_def Add_def)

lemma empty_cache_unseen: "\<not> Seen (StoreReplayCache s nows []) now j"
  by (simp add: StoreReplayCache_def Seen_def NewReplayCache_def)

text \<open>The first run on an empty store.\<close>

lemma first_run:
  assumes "smooth_run cbor_read cbor ed_verify r e" and "TrimSpace (JobID e) \<noteq> []"
    and "br_write_order r = []" and "br_cache_order r = []"
  shows "readAndVerifyEnvelope cbor_read cbor ed_verify r [] = ((None, Some e),
    file_of_records [\<lparr>rr_JobID = TrimSpace (JobID e), rr_ObservedAt = br_remember_time r\<rparr>])"
  using smooth_run_accepts [OF assms(1,2) load_store_empty] assms(3,4) empty_cache_unseen
  by (simp add: all_ok_def records_in_def)

subsection \<open>A sample session\<close>

definition sample_console :: "string \<Rightarrow> Envelope" where
  "sample_console j =
     \<lparr>Version = SupportedVersion, JobID = j, IssuedAt = 0, ExpiresAt = Minute, Issuer = ''backend'',
      Audience = broker_class, Host = ''h'', Command = ''console.open'', Params = None,
      Signature = EncodeToString (''K'' @ j @ ''console.open'')\<rparr>"

definition sample_run :: "rewrite_fault \<Rightarrow> string list \<Rightarrow> instant \<Rightarrow> broker_run" where
  "sample_run fault ids t =
     \<lparr>br_stdin = Some ''x'', br_keyset = Inr sample_keys, br_path = ''/s'', br_can_open = True, br_fault = fault,
      br_open_time = t, br_write_order = ids, br_cache_order = ids, br_cache_times = (\<lambda>_. t),
      br_fingerprint = Some ''h'', br_clock = instant_clock t, br_disk = DiskOk, br_remember_time = t\<rparr>"

lemma sample_printable: "0 \<le> t \<Longrightarrow> t \<le> Minute \<Longrightarrow> printable_time 0 t"
proof -
  assume "0 \<le> t" "t \<le> Minute"
  then have "t div (24 * Hour) = 0" by (simp add: duration_defs)
  then show ?thesis by (simp add: printable_time_def fst_format_date year_of_days_def)
qed

lemma sample_run_smooth:
  assumes "0 \<le> t" and "t \<le> Minute"
  shows "smooth_run (\<lambda>_. Inr (sample_console j)) sample_cbor sample_verify (sample_run RwNone ids t) (sample_console j)"
proof -
  have "TrimSpace ''/s'' = ''/s''" "TrimSpace ''h'' = ''h''" by code_simp+
  moreover have "first_rejection sample_cbor sample_verify (instant_clock t) (sample_console j) sample_keys
      broker_class ''h'' = None"
    using assms
    by (simp add: first_rejection_None sample_defs sample_console_def CanonicalBytes_def sig_payload_def
        VerifyKeySet_def isActive_def IsZero_def MaxLifetime_def NTPSkewTolerance_def duration_defs
        del: EncodeToString.simps)
  ultimately show ?thesis
    using sample_printable [OF assms] by (auto simp: smooth_run_def sample_run_def)
qed

lemma sample_ids_fit: "plain j \<Longrightarrow> utf8_valid j \<Longrightarrow> length j \<le> 10000 \<Longrightarrow> ids_fit (\<lambda>_. Inr (sample_console j))"
  by (simp add: ids_fit_def sample_console_def TrimSpace_plain)

subsection \<open>Properties\<close>



lemma single_cache_unseen:
  assumes "j \<noteq> k"
  shows "\<not> Seen (StoreReplayCache \<lparr>rs_open = True, rs_ttl = store_ttl, rs_seen = seen\<rparr> nows [j]) now k"
proof -
  let ?c = "StoreReplayCache \<lparr>rs_open = True, rs_ttl = store_ttl, rs_seen = seen\<rparr> nows [j]"
  have "rc_inv ?c" "rc_abs ?c = [(j, nows 0)]"
    using remember_each_abs [OF rc_inv_new [of 2 store_ttl], of "[j]" 0 nows]
    by (simp_all add: StoreReplayCache_def NewReplayCache_def rc_abs_def)
  then show ?thesis using assms by (simp add: Seen_refines log_seen_def)
qed

text \<open>
  The store keeps the trimmed job id, but verification looks up the id as it stands in the
  envelope. An envelope whose job id has white space around it is accepted by every run until it
  expires.
\<close>

lemma spaced_job_id_used_twice:
  assumes "ids_fit cbor_read" and "smooth_run cbor_read cbor ed_verify r1 e" and "smooth_run cbor_read cbor ed_verify r2 e"
    and "TrimSpace (JobID e) = j" and "plain j" and "j \<noteq> []" and "JobID e \<noteq> j"
    and "br_write_order r1 = []" and "br_cache_order r1 = []" and "br_write_order r2 = [j]" and "br_cache_order r2 = [j]"
    and "br_open_time r2 \<le> br_remember_time r1 + store_ttl"
  shows "fst (readAndVerifyEnvelope cbor_read cbor ed_verify r1 []) = (None, Some e) \<and>
    fst (readAndVerifyEnvelope cbor_read cbor ed_verify r2
      (snd (readAndVerifyEnvelope cbor_read cbor ed_verify r1 []))) = (None, Some e)"
proof -
  let ?r = "\<lparr>rr_JobID = j, rr_ObservedAt = br_remember_time r1\<rparr>"
  have run1: "readAndVerifyEnvelope cbor_read cbor ed_verify r1 [] = ((None, Some e), file_of_records [?r])"
    using first_run [OF assms(2) _ assms(8,9)] assms(4,6) by simp
  have ok: "rec_ok ?r" using new_record_ok [OF assms(1)] assms(2,4) by (auto simp: smooth_run_def)
  then have "load_store store_ttl (br_open_time r2) (file_of_records [?r]) = Inr [j \<mapsto> br_remember_time r1]"
    using load_store_single [OF ok] assms(5,6,12) by (simp add: TrimSpace_plain)
  then show ?thesis
    using smooth_run_accepts [OF assms(3)] single_cache_unseen [of j "JobID e"] ok run1 assms(4,6,7,10,11)
    by (simp add: all_ok_def)
qed

lemma spaced_job_id_used_twice_witness:
  "fst (readAndVerifyEnvelope (\<lambda>_. Inr (sample_console '' j1'')) sample_cbor sample_verify
     (sample_run RwNone [''j1''] 9)
     (snd (readAndVerifyEnvelope (\<lambda>_. Inr (sample_console '' j1'')) sample_cbor sample_verify (sample_run RwNone [] 5) [])))
   = (None, Some (sample_console '' j1''))"
proof -
  have trim: "TrimSpace '' j1'' = ''j1''" "plain ''j1''" "utf8_valid ''j1''" by code_simp+
  then have "ids_fit (\<lambda>_. Inr (sample_console '' j1''))" by (simp add: ids_fit_def sample_console_def)
  from spaced_job_id_used_twice [OF this sample_run_smooth [of 5 "'' j1''" "[]"] sample_run_smooth [of 9 "'' j1''" "[''j1'']"]]
  show ?thesis using trim
    by (simp add: duration_defs) (simp add: sample_console_def sample_run_def store_ttl_def duration_defs)
qed

text \<open>
  The store is rewritten in place: the file is truncated before the records are written back. A
  run that fails there (a full disk, a crash) is rejected, but leaves an empty file, and the next
  run accepts an envelope that was used before.
\<close>

lemma interrupted_rewrite_forgets:
  assumes "ids_fit cbor_read" and "smooth_run cbor_read cbor ed_verify r1 e"
    and "smooth_run cbor_read cbor ed_verify (rf\<lparr>br_fault := RwNone\<rparr>) e'" and "smooth_run cbor_read cbor ed_verify r2 e"
    and "TrimSpace (JobID e) \<noteq> []" and "br_fault rf = RwWrite 0"
    and "br_write_order r1 = []" and "br_cache_order r1 = []" and "br_write_order r2 = []" and "br_cache_order r2 = []"
  shows "fst (readAndVerifyEnvelope cbor_read cbor ed_verify r1 []) = (None, Some e) \<and>
    readAndVerifyEnvelope cbor_read cbor ed_verify rf (snd (readAndVerifyEnvelope cbor_read cbor ed_verify r1 [])) =
      ((Some (StoreFailed StoreRewriteFailed), None), []) \<and>
    fst (readAndVerifyEnvelope cbor_read cbor ed_verify r2 []) = (None, Some e)"
proof -
  let ?r = "\<lparr>rr_JobID = TrimSpace (JobID e), rr_ObservedAt = br_remember_time r1\<rparr>"
  have "rec_ok ?r" using new_record_ok [OF assms(1)] assms(2) by (auto simp: smooth_run_def)
  then have "\<not> too_long (scan_lines (file_of_records [?r]))"
    using file_of_records_inv [of "[?r]"] by (simp add: file_inv_def)
  then have "\<exists>seen. load_store store_ttl (br_open_time rf) (file_of_records [?r]) = Inr seen"
    by (simp add: load_store_def Let_def)
  then have "readAndVerifyEnvelope cbor_read cbor ed_verify rf (file_of_records [?r]) =
      ((Some (StoreFailed StoreRewriteFailed), None), [])"
    using assms(3,6)
    by (auto simp: smooth_run_def readAndVerifyEnvelope_def UnmarshalEnvelope_def openReplayStore_def rewriteActive_def
        split: prod.splits)
  then show ?thesis using first_run [OF assms(2,5,7,8)] first_run [OF assms(4,5,9,10)] by simp
qed

lemma interrupted_rewrite_forgets_witness:
  "readAndVerifyEnvelope (\<lambda>_. Inr (sample_console ''j1'')) sample_cbor sample_verify (sample_run (RwWrite 0) [''j1''] 7)
     (snd (readAndVerifyEnvelope (\<lambda>_. Inr (sample_console ''j1'')) sample_cbor sample_verify (sample_run RwNone [] 5) [])) =
     ((Some (StoreFailed StoreRewriteFailed), None), []) \<and>
   fst (readAndVerifyEnvelope (\<lambda>_. Inr (sample_console ''j1'')) sample_cbor sample_verify (sample_run RwNone [] 9) [])
     = (None, Some (sample_console ''j1''))"
proof -
  have trim: "plain ''j1''" "utf8_valid ''j1''" by code_simp+
  have fit: "ids_fit (\<lambda>_. Inr (sample_console ''j1''))" using trim by (simp add: sample_ids_fit)
  have fault: "(sample_run (RwWrite 0) [''j1''] 7)\<lparr>br_fault := RwNone\<rparr> = sample_run RwNone [''j1''] 7"
    by (simp add: sample_run_def)
  note smooth = sample_run_smooth [of _ "''j1''"]
  from interrupted_rewrite_forgets [OF fit smooth [of 5 "[]"], of "sample_run (RwWrite 0) [''j1''] 7"
      "sample_console ''j1''" "sample_run RwNone [] 9"] smooth [of 7 "[''j1'']"] smooth [of 9 "[]"] fault trim
  show ?thesis
    by (simp add: duration_defs TrimSpace_plain) (simp add: sample_console_def sample_run_def TrimSpace_plain)
qed

end
