(* ===== verification/WS_Client.thy ===== *)
theory WS_Client
  imports Envelope_Verify Go_Format Host_World
begin

text \<open>
  The outbound WebSocket client of every agent, \<open>src/shared/wsclient/client.go\<close>. The connection is what
  the read loop receives and what the selects choose, as lists of events; the agent behind the
  client is a handler with a state of its own, from which the current key set is read (the client
  and the key rotation share it). What the client has handed to the handler and sent is recorded
  in its state.
\<close>

definition ProtocolVersion :: string where "ProtocolVersion = ''pmx-agent-v1''"
definition DefaultHeartbeatInterval :: duration where "DefaultHeartbeatInterval = 15 * Second"
definition DefaultHeartbeatTimeout :: duration where "DefaultHeartbeatTimeout = 45 * Second"
definition BackoffMin :: duration where "BackoffMin = 5 * Second"
definition BackoffMax :: duration where "BackoffMax = 60 * Second"

record WSConfig =
  ws_BackendURL :: string
  ws_AgentClass :: string
  ws_AuthToken :: string
  ws_CertPath :: string
  ws_KeyPath :: string
  ws_HasKeySet :: bool
  ws_HasReplayCache :: bool
  ws_HasHandler :: bool
  ws_HostFingerprint :: string
  ws_HypervisorType :: string
  ws_BaseOS :: string
  ws_Capabilities :: "(string \<times> json) list"
  ws_HeartbeatInterval :: duration
  ws_HeartbeatTimeout :: duration
  ws_AuditChainHead :: "string option"
  ws_AllowInsecureWS :: bool

datatype ws_error =
    BackendURLRequired
  | BackendURLScheme
  | AgentClassRequired
  | KeySetRequired
  | ReplayCacheRequired
  | HandlerRequired
  | LoadCertFailed
  | DialFailed
  | OnConnectFailed
  | RegisterFailed
  | CtxCancelled
  | ReadFailed
  | PingFailed
  | HeartbeatFailed nat

definition NewClient :: "WSConfig \<Rightarrow> ws_error + WSConfig" where
  "NewClient cfg =
     (if ws_BackendURL cfg = [] then Inl BackendURLRequired
      else if \<not> ws_AllowInsecureWS cfg \<and>
              (length (ws_BackendURL cfg) < 5 \<or>
               (\<not> HasPrefix (ws_BackendURL cfg) ''wss://'' \<and> \<not> HasPrefix (ws_BackendURL cfg) ''ws://''))
      then Inl BackendURLScheme
      else if ws_AgentClass cfg = [] then Inl AgentClassRequired
      else if \<not> ws_HasKeySet cfg then Inl KeySetRequired
      else if \<not> ws_HasReplayCache cfg then Inl ReplayCacheRequired
      else if \<not> ws_HasHandler cfg then Inl HandlerRequired
      else Inr (cfg\<lparr>ws_HeartbeatInterval := (if ws_HeartbeatInterval cfg = 0 then DefaultHeartbeatInterval
                                            else ws_HeartbeatInterval cfg),
                    ws_HeartbeatTimeout := (if ws_HeartbeatTimeout cfg = 0 then DefaultHeartbeatTimeout
                                           else ws_HeartbeatTimeout cfg)\<rparr>))"

subsection \<open>Reconnecting\<close>

text \<open>
  One round of \<open>Run\<close>: whether the context is cancelled before the attempt, when the connection has
  ended, and during the wait. The result lists the waits and says whether \<open>Run\<close> has returned.
\<close>

record attempt =
  at_before :: bool
  at_after :: bool
  at_waiting :: bool

definition next_backoff :: "duration \<Rightarrow> duration" where
  "next_backoff backoff = (let b = backoff * 2 in if b > BackoffMax then BackoffMax else b)"

fun client_rounds :: "duration \<Rightarrow> attempt list \<Rightarrow> duration list \<times> bool" where
  "client_rounds backoff [] = ([], False)"
| "client_rounds backoff (a # as) =
     (if at_before a \<or> at_after a then ([], True)
      else if at_waiting a then ([backoff], True)
      else let (waits, ended) = client_rounds (next_backoff backoff) as in (backoff # waits, ended))"

definition ClientRun :: "attempt list \<Rightarrow> duration list \<times> bool" where
  "ClientRun rounds = client_rounds BackoffMin rounds"

subsection \<open>One connection\<close>

definition buildBackendURL :: "string \<Rightarrow> string \<Rightarrow> string" where
  "buildBackendURL backendURL agentClass =
     (let trimmed = TrimRight backendURL (CHR ''/''); shortClass = TrimPrefix agentClass ''pmx-'' in
      if HasSuffix trimmed (''/'' @ agentClass) then trimmed
      else if shortClass \<noteq> agentClass \<and> HasSuffix trimmed (''/'' @ shortClass) then trimmed
      else trimmed @ ''/'' @ agentClass)"

text \<open>The request that opens the connection: the URL, the headers, whether a client certificate is shown.\<close>

definition dial :: "bool \<Rightarrow> bool \<Rightarrow> WSConfig \<Rightarrow> ws_error + string \<times> (string \<times> string) list \<times> bool" where
  "dial cert_ok dial_ok cfg =
     (let mtls = (ws_CertPath cfg \<noteq> [] \<and> ws_KeyPath cfg \<noteq> []); token = TrimSpace (ws_AuthToken cfg) in
      if mtls \<and> \<not> cert_ok then Inl LoadCertFailed
      else if \<not> dial_ok then Inl DialFailed
      else Inr (buildBackendURL (ws_BackendURL cfg) (ws_AgentClass cfg),
                (''X-Agent-Class'', ws_AgentClass cfg) #
                  (if token \<noteq> [] then [(''Authorization'', ''Bearer '' @ token), (''X-License-Key'', token)] else []),
                mtls))"

text \<open>What the select of \<open>runOnce\<close> receives; a tick carries how the ping and the heartbeat went.\<close>

datatype select_event = SelDone | SelRead ws_error | SelTick bool bool

fun beat_loop :: "nat \<Rightarrow> select_event list \<Rightarrow> ws_error option" where
  "beat_loop missedBeats [] = None"
| "beat_loop missedBeats (SelDone # es) = Some CtxCancelled"
| "beat_loop missedBeats (SelRead err # es) = Some err"
| "beat_loop missedBeats (SelTick ping heartbeat # es) =
     (if \<not> ping then Some PingFailed
      else if \<not> heartbeat
      then if missedBeats + 1 \<ge> 3 then Some (HeartbeatFailed (missedBeats + 1)) else beat_loop (missedBeats + 1) es
      else beat_loop 0 es)"

definition runOnce :: "bool \<Rightarrow> bool \<Rightarrow> bool \<Rightarrow> bool \<Rightarrow> WSConfig \<Rightarrow> select_event list \<Rightarrow> ws_error option" where
  "runOnce cert_ok dial_ok onconnect_ok register_ok cfg es =
     (case dial cert_ok dial_ok cfg of
        Inl err \<Rightarrow> Some err
      | Inr req \<Rightarrow>
          if \<not> onconnect_ok then Some OnConnectFailed
          else if \<not> register_ok then Some RegisterFailed
          else beat_loop 0 es)"

subsection \<open>Messages\<close>

text \<open>\<open>json.Marshal\<close> of a \<open>map[string]any\<close>.\<close>

definition marshal_map :: "(string \<times> json) list \<Rightarrow> json" where
  "marshal_map kvs = JObj (sort_key fst kvs)"

text \<open>
  \<open>json.Unmarshal\<close> into an \<open>any\<close> followed by \<open>json.Marshal\<close>: numbers become \<open>float64\<close> (a number out of range is
  an error), the last of several equal keys wins, keys are sorted.
\<close>

fun keep_last :: "(string \<times> 'a) list \<Rightarrow> (string \<times> 'a) list" where
  "keep_last [] = []"
| "keep_last ((k, v) # kvs) = (if k \<in> fst ` set kvs then keep_last kvs else (k, v) # keep_last kvs)"

definition remarshal_number :: "string \<Rightarrow> string option" where
  "remarshal_number l =
     (case ParseFloat l of
        None \<Rightarrow> None
      | Some f \<Rightarrow> if f = Fin 0 \<and> HasPrefix l ''-'' then Some ''-0'' else json_float f)"

fun remarshal :: "json \<Rightarrow> json option" where
  "remarshal (JNum l) = map_option JNum (remarshal_number l)"
| "remarshal (JArr vs) = map_option JArr (those (map remarshal vs))"
| "remarshal (JObj kvs) =
     map_option (\<lambda>vs. marshal_map (keep_last (zip (map fst kvs) vs))) (those (map (\<lambda>p. remarshal (snd p)) kvs))"
| "remarshal v = Some v"

definition parse_any :: "bytes \<Rightarrow> json option" where
  "parse_any data = Option.bind (json_parse data) remarshal"

definition top_error :: "json \<Rightarrow> string option" where
  "top_error v =
     (case v of
        JObj kvs \<Rightarrow>
          (case map_of kvs ''error'' of
             Some (JStr errMsg) \<Rightarrow> if errMsg \<noteq> [] then Some errMsg else None
           | _ \<Rightarrow> None)
      | _ \<Rightarrow> None)"

definition wrapJobResult :: "string \<Rightarrow> bytes \<Rightarrow> bytes" where
  "wrapJobResult jobID result =
     (let parsed = (case parse_any result of Some v \<Rightarrow> v | None \<Rightarrow> JStr result);
          wrapper = [(''type'', JStr ''result''), (''jobId'', JStr jobID)]
      in json_text (marshal_map
           (wrapper @ (case top_error parsed of
                         Some errMsg \<Rightarrow> [(''error'', JStr errMsg)]
                       | None \<Rightarrow> [(''payload'', parsed)]))))"

definition unix_epoch :: instant where "unix_epoch = 62135596800 * Second"

definition UnixMilli :: "instant \<Rightarrow> int" where
  "UnixMilli t = (t - unix_epoch) div 1000000"

definition heartbeat_text :: "instant \<Rightarrow> WSConfig \<Rightarrow> bytes" where
  "heartbeat_text now cfg =
     (let chainHead = (case ws_AuditChainHead cfg of None \<Rightarrow> [] | Some h \<Rightarrow> h) in
      json_text (marshal_map
        [(''version'', JStr ProtocolVersion), (''type'', JStr ''agent.heartbeat''),
         (''timestamp'', JNum (Itoa (UnixMilli now))),
         (''payload'', marshal_map [(''agentClass'', JStr (ws_AgentClass cfg)), (''auditChainHead'', JStr chainHead)])]))"

definition registration_text :: "instant \<Rightarrow> string \<Rightarrow> WSConfig \<Rightarrow> bytes" where
  "registration_text now hostname cfg =
     (let hostname = (if hostname = [] then ''unknown-host'' else hostname);
          payload = [(''hostname'', JStr hostname), (''agentVersion'', JStr ''unknown''),
                     (''agentClass'', JStr (ws_AgentClass cfg)),
                     (''hostFingerprint'', JStr (ws_HostFingerprint cfg)), (''capabilities'', JArr [])]
            @ (if ws_HypervisorType cfg \<noteq> [] then [(''hypervisorType'', JStr (ws_HypervisorType cfg))] else [])
            @ (if ws_BaseOS cfg \<noteq> [] then [(''baseOs'', JStr (ws_BaseOS cfg))] else [])
            @ (if ws_Capabilities cfg \<noteq> [] then [(''capabilitiesMap'', marshal_map (ws_Capabilities cfg))] else [])
      in json_text (marshal_map
        [(''version'', JStr ProtocolVersion), (''type'', JStr ''agent.register''),
         (''timestamp'', JNum (Itoa (UnixMilli now))), (''payload'', marshal_map payload)]))"

subsection \<open>The read loop\<close>

text \<open>
  What happens to the loop: the end of the context, a failed read, a frame with the clock at its check, or
  a tick of the replay cache's own loop in between.
\<close>

datatype incoming = InCancelled | InFailed | InFrame bool bytes verify_clock | InTick instant

record 's client_state =
  cl_cache :: ReplayCache
  cl_agent :: 's
  cl_connected :: bool
  cl_calls :: "(verify_clock \<times> Envelope) list"
  cl_sent :: "bytes list"

type_synonym 's envelope_handler = "'s \<Rightarrow> Envelope \<Rightarrow> bytes option \<times> 's"

definition SendRaw :: "bytes \<Rightarrow> 's client_state \<Rightarrow> 's client_state" where
  "SendRaw data st = (if cl_connected st then st\<lparr>cl_sent := cl_sent st @ [data]\<rparr> else st)"

definition handle_frame ::
  "(bytes \<Rightarrow> string + Envelope) \<Rightarrow> cbor_codec \<Rightarrow> ed25519 \<Rightarrow> ('s \<Rightarrow> KeySet) \<Rightarrow> 's envelope_handler \<Rightarrow> WSConfig \<Rightarrow>
   bool \<Rightarrow> bytes \<Rightarrow> verify_clock \<Rightarrow> 's client_state \<Rightarrow> 's client_state" where
  "handle_frame cbor_read cbor ed_verify keys_of OnEnvelope cfg binary msg clk st =
     (if \<not> binary then st
      else case UnmarshalEnvelope cbor_read msg of
          Inl err \<Rightarrow> st
        | Inr env \<Rightarrow>
            (case VerifyEnvelope cbor ed_verify clk env (keys_of (cl_agent st)) (ws_AgentClass cfg)
                    (ws_HostFingerprint cfg) (cl_cache st) of
               (Some err, cache) \<Rightarrow> st\<lparr>cl_cache := cache\<rparr>
             | (None, cache) \<Rightarrow>
                 (let (result, agent) = OnEnvelope (cl_agent st) env;
                      st1 = st\<lparr>cl_cache := cache, cl_agent := agent, cl_calls := cl_calls st @ [(clk, env)]\<rparr>
                  in case result of
                       None \<Rightarrow> st1
                     | Some r \<Rightarrow> SendRaw (wrapJobResult (JobID env) r) st1)))"

fun readLoop ::
  "(bytes \<Rightarrow> string + Envelope) \<Rightarrow> cbor_codec \<Rightarrow> ed25519 \<Rightarrow> ('s \<Rightarrow> KeySet) \<Rightarrow> 's envelope_handler \<Rightarrow> WSConfig \<Rightarrow>
   incoming list \<Rightarrow> 's client_state \<Rightarrow> ws_error option \<times> 's client_state" where
  "readLoop cbor_read cbor ed_verify keys_of h cfg [] st = (None, st)"
| "readLoop cbor_read cbor ed_verify keys_of h cfg (InCancelled # ins) st = (Some CtxCancelled, st)"
| "readLoop cbor_read cbor ed_verify keys_of h cfg (InFailed # ins) st = (Some ReadFailed, st)"
| "readLoop cbor_read cbor ed_verify keys_of h cfg (InFrame binary msg clk # ins) st =
     readLoop cbor_read cbor ed_verify keys_of h cfg ins
       (handle_frame cbor_read cbor ed_verify keys_of h cfg binary msg clk st)"
| "readLoop cbor_read cbor ed_verify keys_of h cfg (InTick t # ins) st =
     readLoop cbor_read cbor ed_verify keys_of h cfg ins (st\<lparr>cl_cache := purge (cl_cache st) t\<rparr>)"

text \<open>One connection after the other: the cache and the agent stay, the connection is new.\<close>

fun connections ::
  "(bytes \<Rightarrow> string + Envelope) \<Rightarrow> cbor_codec \<Rightarrow> ed25519 \<Rightarrow> ('s \<Rightarrow> KeySet) \<Rightarrow> 's envelope_handler \<Rightarrow> WSConfig \<Rightarrow>
   incoming list list \<Rightarrow> 's client_state \<Rightarrow> 's client_state" where
  "connections cbor_read cbor ed_verify keys_of h cfg [] st = st"
| "connections cbor_read cbor ed_verify keys_of h cfg (ins # rest) st =
     connections cbor_read cbor ed_verify keys_of h cfg rest
       (snd (readLoop cbor_read cbor ed_verify keys_of h cfg ins (st\<lparr>cl_connected := True\<rparr>)))"

subsection \<open>Each envelope is handled once\<close>

text \<open>The envelopes an agent accepts out of a list of deliveries, with the clock of each.\<close>

fun accepted_pairs ::
  "cbor_codec \<Rightarrow> ed25519 \<Rightarrow> string \<Rightarrow> string \<Rightarrow> ReplayCache \<Rightarrow> delivery list \<Rightarrow> (verify_clock \<times> Envelope) list" where
  "accepted_pairs cbor ed_verify cls host c [] = []"
| "accepted_pairs cbor ed_verify cls host c (Deliver clk ks e # ds) =
     (case VerifyEnvelope cbor ed_verify clk e ks cls host c of
        (None, c') \<Rightarrow> (clk, e) # accepted_pairs cbor ed_verify cls host c' ds
      | (Some err, c') \<Rightarrow> accepted_pairs cbor ed_verify cls host c' ds)"
| "accepted_pairs cbor ed_verify cls host c (Tick t # ds) = accepted_pairs cbor ed_verify cls host (purge c t) ds"

fun starts :: "delivery \<Rightarrow> instant" where
  "starts (Deliver clk ks e) = vc_seen clk"
| "starts (Tick t) = t"

text \<open>The clock does not go backwards, within a check and from one to the next.\<close>

definition ordered :: "delivery list \<Rightarrow> bool" where
  "ordered ds \<longleftrightarrow> sorted_wrt (\<lambda>a b. delivery_time a \<le> starts b) ds \<and> (\<forall>d \<in> set ds. starts d \<le> delivery_time d) \<and>
     (\<forall>clk ks e. Deliver clk ks e \<in> set ds \<longrightarrow> vc_now clk \<le> vc_seen clk)"

text \<open>No envelope is from the future, and a check takes less than the rest of the TTL.\<close>

definition timely :: "duration \<Rightarrow> delivery \<Rightarrow> bool" where
  "timely ttl d \<longleftrightarrow>
     (\<forall>clk ks e. d = Deliver clk ks e \<longrightarrow> IssuedAt e \<le> vc_remember clk \<and>
        MaxLifetime + NTPSkewTolerance + (vc_seen clk - vc_now clk) < ttl)"

lemma accepted_pairs_split:
  "(clk, e) \<in> set (accepted_pairs cbor ed_verify cls host c ds) \<Longrightarrow>
     \<exists>ys ks zs. ds = ys @ Deliver clk ks e # zs \<and>
       fst (VerifyEnvelope cbor ed_verify clk e ks cls host (agent_run cbor ed_verify cls host c ys)) = None"
proof (induction ds arbitrary: c)
  case (Cons d ds)
  show ?case
  proof (cases d)
    case (Deliver clk1 ks1 e1)
    obtain r c' where v: "VerifyEnvelope cbor ed_verify clk1 e1 ks1 cls host c = (r, c')" by fastforce
    show ?thesis
    proof (cases "(clk, e) \<in> set (accepted_pairs cbor ed_verify cls host c' ds)")
      case True
      from Cons.IH [OF this] obtain ys ks zs where "ds = ys @ Deliver clk ks e # zs"
        "fst (VerifyEnvelope cbor ed_verify clk e ks cls host (agent_run cbor ed_verify cls host c' ys)) = None" by blast
      with v Deliver show ?thesis by (intro exI [of _ "d # ys"] exI [of _ ks] exI [of _ zs]) simp
    next
      case False
      with Cons.prems v Deliver have "r = None" "clk = clk1" "e = e1" by (auto split: option.splits)
      with v Deliver show ?thesis by (intro exI [of _ "[]"] exI [of _ ks1] exI [of _ ds]) simp
    qed
  next
    case (Tick t)
    then obtain ys ks zs where "ds = ys @ Deliver clk ks e # zs"
      "fst (VerifyEnvelope cbor ed_verify clk e ks cls host (agent_run cbor ed_verify cls host (purge c t) ys)) = None"
      using Cons by auto blast
    with Tick show ?thesis by (intro exI [of _ "d # ys"] exI [of _ ks] exI [of _ zs]) simp
  qed
qed simp

lemma accepted_events_length:
  "length (filter is_accepted (accepted_events cbor ed_verify cls host c ds)) \<le> length ds"
proof (induction ds arbitrary: c)
  case (Cons d ds)
  show ?case
  proof (cases d)
    case (Deliver clk ks e)
    obtain r c' where v: "VerifyEnvelope cbor ed_verify clk e ks cls host c = (r, c')" by fastforce
    show ?thesis using Cons.IH [of c'] v Deliver by (cases r) (simp_all add: le_SucI)
  qed (use Cons in \<open>simp add: le_SucI\<close>)
qed simp

lemma ordered_ConsD:
  assumes "ordered (d # ds)"
  shows "ordered ds" and "\<forall>b \<in> set ds. delivery_time d \<le> starts b" and "starts d \<le> delivery_time d"
  using assms by (simp_all add: ordered_def)

text \<open>The two deliveries of one envelope, with what lies between them.\<close>

lemma accepted_not_again:
  assumes "rc_reach capacity ttl t0 c" and "ttl \<le> max_int64"
    and "VerifyEnvelope cbor ed_verify clk1 e ks1 cls host c = (None, c1)"
    and "ordered (Deliver clk1 ks1 e # ds)" and "\<forall>d \<in> set (Deliver clk1 ks1 e # ds). timely ttl d"
    and "int (length ds) < capacity"
  shows "(clk2, e) \<notin> set (accepted_pairs cbor ed_verify cls host c1 ds)"
proof
  assume "(clk2, e) \<in> set (accepted_pairs cbor ed_verify cls host c1 ds)"
  then obtain ys ks2 zs where ds: "ds = ys @ Deliver clk2 ks2 e # zs"
    and ok: "fst (VerifyEnvelope cbor ed_verify clk2 e ks2 cls host (agent_run cbor ed_verify cls host c1 ys)) = None"
    using accepted_pairs_split by blast
  have "\<forall>d \<in> set ys. vc_remember clk1 \<le> starts d" "\<forall>d \<in> set ys. starts d \<le> delivery_time d"
    "\<forall>d \<in> set ys. delivery_time d \<le> vc_seen clk2"
    using assms(4) unfolding ds ordered_def by (simp_all add: sorted_wrt_append)
  then have between: "\<forall>d \<in> set ys. vc_remember clk1 \<le> delivery_time d \<and> delivery_time d \<le> vc_seen clk2"
    using order_trans by blast
  have times: "vc_remember clk1 \<le> vc_seen clk2" "vc_now clk2 \<le> vc_seen clk2"
    using assms(4) unfolding ds ordered_def by (simp_all add: sorted_wrt_append)
  have "IssuedAt e \<le> vc_remember clk1" "MaxLifetime + NTPSkewTolerance + (vc_seen clk2 - vc_now clk2) < ttl"
    using assms(5) unfolding ds by (auto simp: timely_def)
  moreover have "int (length (filter is_accepted (accepted_events cbor ed_verify cls host c1 ys))) < capacity"
    using accepted_events_length [of cbor ed_verify cls host c1 ys] assms(6) ds by simp
  ultimately show False
    using second_acceptance_refused [OF assms(1-3) refl _ between, of ks2] times ok by auto
qed

lemma accepted_envelopes_distinct:
  assumes "rc_reach capacity ttl t0 c" and "rc_looping c" and "ttl \<le> max_int64" and "ordered ds"
    and "\<forall>d \<in> set ds. timely ttl d \<and> t0 \<le> starts d" and "int (length ds) \<le> capacity"
  shows "distinct (map snd (accepted_pairs cbor ed_verify cls host c ds))"
  using assms(1,2,4-6)
proof (induction ds arbitrary: c t0)
  case (Cons d ds)
  note ord = ordered_ConsD [OF Cons.prems(3)]
  have start: "t0 \<le> delivery_time d" using ord(3) Cons.prems(4) by (meson list.set_intros(1) order_trans)
  have later: "\<forall>b \<in> set ds. timely ttl b \<and> delivery_time d \<le> starts b" using ord(2) Cons.prems(4) by (meson list.set_intros(2))
  show ?case
  proof (cases d)
    case (Tick t)
    have "rc_reach capacity ttl t (purge c t)"
      using rc_next_step [OF Cons.prems(1) _ rc_tick [OF Cons.prems(2)]] start Tick by simp
    then show ?thesis
      using Cons.IH [of t "purge c t"] Cons.prems(2,5) ord(1) later Tick by simp
  next
    case (Deliver clk ks e)
    obtain r c' where v: "VerifyEnvelope cbor ed_verify clk e ks cls host c = (r, c')" by fastforce
    show ?thesis
    proof (cases r)
      case None
      have c': "c' = Remember c (vc_remember clk) (JobID e)"
        using VerifyEnvelope_cache [of cbor ed_verify clk e ks cls host c] v None by simp
      have "rc_reach capacity ttl (vc_remember clk) c'"
        unfolding c' using rc_next_step [OF Cons.prems(1) _ rc_remember] start Deliver by simp
      moreover have "rc_looping c'" unfolding c' using Cons.prems(2) by simp
      ultimately have "distinct (map snd (accepted_pairs cbor ed_verify cls host c' ds))"
        using Cons.IH [of "vc_remember clk" c'] Cons.prems(5) ord(1) later Deliver by simp
      moreover have "(clk2, e) \<notin> set (accepted_pairs cbor ed_verify cls host c' ds)" for clk2
        using accepted_not_again [OF Cons.prems(1) assms(3), of cbor ed_verify clk e ks cls host c' ds]
          v None Deliver Cons.prems(3-5) by simp
      ultimately show ?thesis using v None Deliver by auto
    next
      case (Some err)
      then have "c' = c" using VerifyEnvelope_cache [of cbor ed_verify clk e ks cls host c] v by simp
      then show ?thesis
        using Cons.IH [of t0 c] Cons.prems(1,2,4,5) ord(1) Some v Deliver by simp
    qed
  qed
qed simp

text \<open>The envelopes the client checks, in order, with the key set of that moment.\<close>

definition frame_deliveries ::
  "(bytes \<Rightarrow> string + Envelope) \<Rightarrow> ('s \<Rightarrow> KeySet) \<Rightarrow> bool \<Rightarrow> bytes \<Rightarrow> verify_clock \<Rightarrow> 's client_state \<Rightarrow> delivery list" where
  "frame_deliveries cbor_read keys_of binary msg clk st =
     (if \<not> binary then []
      else case cbor_read msg of Inl err \<Rightarrow> [] | Inr e \<Rightarrow> [Deliver clk (keys_of (cl_agent st)) e])"

fun loop_deliveries ::
  "(bytes \<Rightarrow> string + Envelope) \<Rightarrow> cbor_codec \<Rightarrow> ed25519 \<Rightarrow> ('s \<Rightarrow> KeySet) \<Rightarrow> 's envelope_handler \<Rightarrow> WSConfig \<Rightarrow>
   incoming list \<Rightarrow> 's client_state \<Rightarrow> delivery list" where
  "loop_deliveries cbor_read cbor ed_verify keys_of h cfg (InFrame binary msg clk # ins) st =
     frame_deliveries cbor_read keys_of binary msg clk st @
     loop_deliveries cbor_read cbor ed_verify keys_of h cfg ins
       (handle_frame cbor_read cbor ed_verify keys_of h cfg binary msg clk st)"
| "loop_deliveries cbor_read cbor ed_verify keys_of h cfg (InTick t # ins) st =
     Tick t # loop_deliveries cbor_read cbor ed_verify keys_of h cfg ins (st\<lparr>cl_cache := purge (cl_cache st) t\<rparr>)"
| "loop_deliveries cbor_read cbor ed_verify keys_of h cfg _ st = []"

fun all_deliveries ::
  "(bytes \<Rightarrow> string + Envelope) \<Rightarrow> cbor_codec \<Rightarrow> ed25519 \<Rightarrow> ('s \<Rightarrow> KeySet) \<Rightarrow> 's envelope_handler \<Rightarrow> WSConfig \<Rightarrow>
   incoming list list \<Rightarrow> 's client_state \<Rightarrow> delivery list" where
  "all_deliveries cbor_read cbor ed_verify keys_of h cfg [] st = []"
| "all_deliveries cbor_read cbor ed_verify keys_of h cfg (ins # rest) st =
     loop_deliveries cbor_read cbor ed_verify keys_of h cfg ins (st\<lparr>cl_connected := True\<rparr>) @
     all_deliveries cbor_read cbor ed_verify keys_of h cfg rest
       (snd (readLoop cbor_read cbor ed_verify keys_of h cfg ins (st\<lparr>cl_connected := True\<rparr>)))"

definition handle_all :: "'s envelope_handler \<Rightarrow> 's \<Rightarrow> (verify_clock \<times> Envelope) list \<Rightarrow> 's" where
  "handle_all h s calls = foldl (\<lambda>s p. snd (h s (snd p))) s calls"

text \<open>What a run of the client amounts to: the cache, the calls and the agent follow from the deliveries.\<close>

definition follows_from ::
  "cbor_codec \<Rightarrow> ed25519 \<Rightarrow> 's envelope_handler \<Rightarrow> WSConfig \<Rightarrow> 's client_state \<Rightarrow> delivery list \<Rightarrow> 's client_state \<Rightarrow> bool" where
  "follows_from cbor ed_verify h cfg st ds st' \<longleftrightarrow>
     (let calls = accepted_pairs cbor ed_verify (ws_AgentClass cfg) (ws_HostFingerprint cfg) (cl_cache st) ds in
      cl_cache st' = agent_run cbor ed_verify (ws_AgentClass cfg) (ws_HostFingerprint cfg) (cl_cache st) ds \<and>
      cl_calls st' = cl_calls st @ calls \<and> cl_agent st' = handle_all h (cl_agent st) calls)"

lemma agent_run_append:
  "agent_run cbor ed_verify cls host c (xs @ ys) =
     agent_run cbor ed_verify cls host (agent_run cbor ed_verify cls host c xs) ys"
  by (induction cbor ed_verify cls host c xs rule: agent_run.induct) simp_all

lemma accepted_pairs_append:
  "accepted_pairs cbor ed_verify cls host c (xs @ ys) =
     accepted_pairs cbor ed_verify cls host c xs @
     accepted_pairs cbor ed_verify cls host (agent_run cbor ed_verify cls host c xs) ys"
proof (induction xs arbitrary: c)
  case (Cons d xs)
  show ?case
  proof (cases d)
    case (Deliver clk ks e)
    obtain r c' where "VerifyEnvelope cbor ed_verify clk e ks cls host c = (r, c')" by fastforce
    with Deliver Cons.IH [of c'] show ?thesis by (cases r) simp_all
  qed (use Cons in simp)
qed simp

lemma follows_from_trans:
  "follows_from cbor ed_verify h cfg st xs st1 \<Longrightarrow> follows_from cbor ed_verify h cfg st1 ys st2 \<Longrightarrow>
     follows_from cbor ed_verify h cfg st (xs @ ys) st2"
  by (simp add: follows_from_def Let_def agent_run_append accepted_pairs_append handle_all_def)

lemma follows_from_refl [simp]: "follows_from cbor ed_verify h cfg st [] st"
  by (simp add: follows_from_def handle_all_def)

lemma handle_frame_follows:
  "follows_from cbor ed_verify h cfg st (frame_deliveries cbor_read keys_of binary msg clk st)
     (handle_frame cbor_read cbor ed_verify keys_of h cfg binary msg clk st)"
proof (cases "binary \<and> (\<exists>e. cbor_read msg = Inr e)")
  case True
  then obtain e where e: "binary" "cbor_read msg = Inr e" by blast
  obtain r c where v: "VerifyEnvelope cbor ed_verify clk e (keys_of (cl_agent st)) (ws_AgentClass cfg)
      (ws_HostFingerprint cfg) (cl_cache st) = (r, c)" by fastforce
  obtain out agent where h: "h (cl_agent st) e = (out, agent)" by fastforce
  show ?thesis
    using e v h
    by (cases r; cases out)
      (simp_all add: follows_from_def frame_deliveries_def handle_frame_def UnmarshalEnvelope_def handle_all_def
        SendRaw_def Let_def)
next
  case False
  then show ?thesis
    by (cases "cbor_read msg") (auto simp: frame_deliveries_def handle_frame_def UnmarshalEnvelope_def)
qed

lemma readLoop_follows:
  "follows_from cbor ed_verify h cfg st (loop_deliveries cbor_read cbor ed_verify keys_of h cfg ins st)
     (snd (readLoop cbor_read cbor ed_verify keys_of h cfg ins st))"
proof (induction ins arbitrary: st)
  case (Cons i ins)
  show ?case
  proof (cases i)
    case (InFrame binary msg clk)
    then show ?thesis using follows_from_trans [OF handle_frame_follows Cons.IH] by simp
  next
    case (InTick t)
    have "follows_from cbor ed_verify h cfg st [Tick t] (st\<lparr>cl_cache := purge (cl_cache st) t\<rparr>)"
      by (simp add: follows_from_def handle_all_def)
    from follows_from_trans [OF this Cons.IH] show ?thesis using InTick by simp
  qed simp_all
qed simp

lemma connections_follows:
  "follows_from cbor ed_verify h cfg st (all_deliveries cbor_read cbor ed_verify keys_of h cfg conns st)
     (connections cbor_read cbor ed_verify keys_of h cfg conns st)"
proof (induction conns arbitrary: st)
  case (Cons ins conns)
  have "follows_from cbor ed_verify h cfg st (loop_deliveries cbor_read cbor ed_verify keys_of h cfg ins (st\<lparr>cl_connected := True\<rparr>))
      (snd (readLoop cbor_read cbor ed_verify keys_of h cfg ins (st\<lparr>cl_connected := True\<rparr>)))"
    using readLoop_follows [of cbor ed_verify h cfg "st\<lparr>cl_connected := True\<rparr>" cbor_read keys_of ins]
    by (simp add: follows_from_def)
  from follows_from_trans [OF this Cons.IH] show ?case by simp
qed simp

subsection \<open>Properties\<close>


definition sample_ws :: WSConfig where
  "sample_ws =
     \<lparr>ws_BackendURL = ''wss://b'', ws_AgentClass = ''pmx-core'', ws_AuthToken = [], ws_CertPath = [], ws_KeyPath = [],
      ws_HasKeySet = True, ws_HasReplayCache = True, ws_HasHandler = True, ws_HostFingerprint = ''h'',
      ws_HypervisorType = [], ws_BaseOS = [], ws_Capabilities = [], ws_HeartbeatInterval = 0, ws_HeartbeatTimeout = 0,
      ws_AuditChainHead = None, ws_AllowInsecureWS = False\<rparr>"

definition sample_client :: "nat client_state" where
  "sample_client = \<lparr>cl_cache = NewReplayCache 100000 (24 * Hour), cl_agent = 0, cl_connected = False, cl_calls = [], cl_sent = []\<rparr>"

definition counting :: "nat envelope_handler" where
  "counting n e = (Some ''{}'', Suc n)"

definition sample_frames :: "incoming list list" where
  "sample_frames = [[InFrame True ''x'' (instant_clock 5), InTick 6, InFrame True ''x'' (instant_clock 9), InFailed],
                    [InFrame False ''hello'' (instant_clock 11), InFrame True ''x'' (instant_clock 12)]]"

lemma sample_deliveries:
  "all_deliveries (\<lambda>_. Inr (sample_envelope 0)) sample_cbor sample_verify (\<lambda>_. sample_keys) counting sample_ws
     sample_frames sample_client =
   [Deliver (instant_clock 5) sample_keys (sample_envelope 0), Tick 6,
    Deliver (instant_clock 9) sample_keys (sample_envelope 0),
    Deliver (instant_clock 12) sample_keys (sample_envelope 0)]"
  by (simp add: sample_frames_def frame_deliveries_def)


text \<open>
  C34: the waits between connections are 5, 10, 20, 40 and then always 60 seconds, however long a
  connection lasted: the back-off is never reset.
\<close>

theorem backoff_never_resets:
  "fst (ClientRun rounds) =
     map (\<lambda>i. min BackoffMax (BackoffMin * 2 ^ i)) [0..<length (fst (ClientRun rounds))]"
proof -
  have step: "next_backoff (min BackoffMax (BackoffMin * 2 ^ k)) = min BackoffMax (BackoffMin * 2 ^ Suc k)" for k
    by (simp add: next_backoff_def Let_def min_def BackoffMax_def BackoffMin_def duration_defs)
  have "fst (client_rounds (min BackoffMax (BackoffMin * 2 ^ k)) rounds) =
      map (\<lambda>i. min BackoffMax (BackoffMin * 2 ^ i))
        [k..<k + length (fst (client_rounds (min BackoffMax (BackoffMin * 2 ^ k)) rounds))]" for k
  proof (induction rounds arbitrary: k)
    case (Cons a rounds)
    obtain ws e where ws: "client_rounds (min BackoffMax (BackoffMin * 2 ^ Suc k)) rounds = (ws, e)" by fastforce
    from Cons.IH [of "Suc k"] have "ws = map (\<lambda>i. min BackoffMax (BackoffMin * 2 ^ i)) [Suc k..<Suc k + length ws]"
      by (simp only: ws fst_conv)
    then show ?case using ws by (simp add: step upt_conv_Cons del: upt_Suc power_Suc)
  qed simp
  from this [of 0] show ?thesis by (simp add: ClientRun_def BackoffMax_def BackoffMin_def duration_defs)
qed

end
