(* ===== verification/Core_Main.thy ===== *)
theory Core_Main
  imports Drain Spawn Key_Rotation Capability_Registry Audit_Log WS_Client
begin

text \<open>
  The supervising agent, \<open>src/core/cmd/pmx-core/main.go\<close>: its command handlers, their registration, and
  what it does with a verified envelope. The answers of \<open>core.identify\<close>, \<open>core.agents.list\<close> and
  \<open>core.preflight\<close>, which only inspect the host, are arguments, and so are the texts of errors and
  the quoting of \<open>%q\<close>.
\<close>

record core_state =
  co_drainer :: Drainer
  co_rotation :: rotation_state
  co_audit :: "Log option"
  co_disk :: disk_state
  co_caps :: registry

type_synonym inspection = "world \<Rightarrow> (bytes \<times> handler_error option) \<times> world"

record core_env =
  xe_host :: host
  xe_manager :: Manager
  xe_identify :: inspection
  xe_agents :: inspection
  xe_preflight :: inspection
  xe_quote :: "string \<Rightarrow> string"
  xe_show_sibling :: "sibling_error \<Rightarrow> string"
  xe_show_spawn :: "spawn_error \<Rightarrow> string"
  xe_show_envelope :: "envelope_error \<Rightarrow> string"
  xe_show_keyset :: "keyset_error \<Rightarrow> string"
  xe_show_handler :: "handler_error \<Rightarrow> string"
  xe_cbor_read :: "bytes \<Rightarrow> string + Envelope"
  xe_cbor_wire :: "Envelope \<Rightarrow> string + bytes"
  xe_staging :: staging
  xe_keyset_path :: string
  xe_fault :: "write_fault option"
  xe_tmp :: string
  xe_nows :: "nat \<Rightarrow> instant"
  xe_version :: string
  xe_iteration :: "string list"
  xe_sha :: sha
  xe_disk :: disk
  xe_now :: instant
  xe_tz :: int
  xe_elapsed :: int

definition core_class :: string where "core_class = ''pmx-core''"

definition core_world :: "core_state \<Rightarrow> world" where
  "core_world st = dr_world (co_drainer st)"

definition set_core_world :: "world \<Rightarrow> core_state \<Rightarrow> core_state" where
  "set_core_world w st = st\<lparr>co_drainer := (co_drainer st)\<lparr>dr_world := w\<rparr>\<rparr>"

definition env_str :: "Envelope \<Rightarrow> string \<Rightarrow> string" where
  "env_str env k = (case Params env of None \<Rightarrow> [] | Some ps \<Rightarrow> str_param ps k)"

definition okJSON :: bytes where "okJSON = json_text (JObj [(''ok'', JBool True)])"

subsection \<open>Base64\<close>

text \<open>\<open>base64.StdEncoding.DecodeString\<close>: line ends are skipped, padding is required.\<close>

definition b64_val :: "char \<Rightarrow> nat option" where
  "b64_val c =
     (let n = of_char c :: nat in
      if 65 \<le> n \<and> n \<le> 90 then Some (n - 65)
      else if 97 \<le> n \<and> n \<le> 122 then Some (n - 71)
      else if 48 \<le> n \<and> n \<le> 57 then Some (n + 4)
      else if n = 43 then Some 62 else if n = 47 then Some 63 else None)"

fun b64_quanta :: "string \<Rightarrow> bytes option" where
  "b64_quanta [] = Some []"
| "b64_quanta (a # b # c # d # r) =
     (case (b64_val a, b64_val b) of
        (Some x, Some y) \<Rightarrow>
          (if c = CHR ''='' then if d = CHR ''='' \<and> r = [] then Some [char_of (x * 4 + y div 16)] else None
           else case b64_val c of
               None \<Rightarrow> None
             | Some z \<Rightarrow>
                 if d = CHR ''='' then
                   if r = [] then Some [char_of (x * 4 + y div 16), char_of (y mod 16 * 16 + z div 4)] else None
                 else case b64_val d of
                     None \<Rightarrow> None
                   | Some u \<Rightarrow>
                       map_option (\<lambda>bs. char_of (x * 4 + y div 16) # char_of (y mod 16 * 16 + z div 4) #
                           char_of (z mod 4 * 64 + u) # bs) (b64_quanta r))
      | _ \<Rightarrow> None)"
| "b64_quanta _ = None"

definition b64_decode :: "string \<Rightarrow> bytes option" where
  "b64_decode s = b64_quanta (filter (\<lambda>c. c \<noteq> newline \<and> c \<noteq> CHR 0x0D) s)"

subsection \<open>Handlers\<close>

definition inspect :: "inspection \<Rightarrow> core_state handler" where
  "inspect f st env = (let (r, w) = f (core_world st) in (r, set_core_world w st))"

definition enable_handler :: "core_env \<Rightarrow> core_state handler" where
  "enable_handler x st env =
     (let (err, w) = Enable (xe_host x) (xe_manager x) (core_world st) (env_str env ''unit'') in
      ((case err of Some e \<Rightarrow> errorJSON ''ENABLE_FAILED'' (xe_show_sibling x e) | None \<Rightarrow> okJSON, None),
       set_core_world w st))"

definition disable_handler :: "core_env \<Rightarrow> core_state handler" where
  "disable_handler x st env =
     (let (err, w) = Disable (xe_host x) (xe_manager x) (core_world st) (env_str env ''unit'') in
      ((case err of Some e \<Rightarrow> errorJSON ''DISABLE_FAILED'' (xe_show_sibling x e) | None \<Rightarrow> okJSON, None),
       set_core_world w st))"

text \<open>The envelope the spawned agent gets, and the job id it runs under: those of a nested envelope if there is one.\<close>

definition child_envelope :: "core_env \<Rightarrow> Envelope \<Rightarrow> bytes + Envelope \<times> string" where
  "child_envelope x env =
     (let nested = env_str env ''envelope'' in
      if nested = [] then Inr (env, JobID env)
      else case b64_decode nested of
          None \<Rightarrow> Inl (errorJSON ''BAD_ENVELOPE'' ''params.envelope is not valid base64'')
        | Some raw \<Rightarrow>
            (case UnmarshalEnvelope (xe_cbor_read x) raw of
               Inl err \<Rightarrow> Inl (errorJSON ''BAD_ENVELOPE'' (''nested envelope: '' @ xe_show_envelope x err))
             | Inr parsed \<Rightarrow> Inr (parsed, if JobID parsed \<noteq> [] then JobID parsed else JobID env)))"

definition spawn_handler :: "core_env \<Rightarrow> core_state handler" where
  "spawn_handler x st env =
     (let template = env_str env ''template'' in
      if template = [] then ((errorJSON ''MISSING_PARAM'' ''params.template is required'', None), st)
      else if \<not> Allow (xe_manager x) template
      then ((errorJSON ''NOT_ALLOWED'' (''template '' @ xe_quote x template @ '' is not in the allowlist''), None), st)
      else case child_envelope x env of
          Inl payload \<Rightarrow> ((payload, None), st)
        | Inr (childEnv, jobID) \<Rightarrow>
            (let (err, w) = SpawnUnit (xe_host x) (xe_cbor_wire x) (xe_staging x) [] (core_world st)
                   \<lparr>rq_Template = template, rq_JobID = jobID, rq_Envelope = Some childEnv, rq_RuntimeMaxSec = 0\<rparr>
             in ((case err of Some e \<Rightarrow> errorJSON ''SPAWN_FAILED'' (xe_show_spawn x e) | None \<Rightarrow> okJSON, None),
                 set_core_world w st)))"

definition rotate_handler :: "core_env \<Rightarrow> core_state handler" where
  "rotate_handler x st env =
     (let (r, rot) = HandleRotate (xe_show_keyset x) (xe_fault x) (xe_tmp x) (xe_nows x) (xe_keyset_path x)
                       (co_rotation st) env
      in (r, st\<lparr>co_rotation := rot\<rparr>))"

definition capability_json :: "Capability \<Rightarrow> json" where
  "capability_json c =
     JObj [(''Command'', JStr (cap_Command c)), (''Version'', JNum (Itoa (cap_Version c))),
           (''Stability'', JStr (cap_Stability c)), (''AgentClass'', JStr (cap_AgentClass c))]"

definition capabilities_handler :: "core_env \<Rightarrow> core_state handler" where
  "capabilities_handler x st env =
     ((json_text (marshal_map
         [(''agent'', JStr core_class), (''version'', JStr (xe_version x)),
          (''capabilities'', JArr (map capability_json (ListCaps (co_caps st) (xe_iteration x))))]), None), st)"

definition shutdown_handler :: "core_state handler" where
  "shutdown_handler st env = (let (r, d) = HandleDrain (co_drainer st) env in (r, st\<lparr>co_drainer := d\<rparr>))"

subsection \<open>Wiring\<close>

definition early_routes :: "core_env \<Rightarrow> (string \<times> core_state handler) list" where
  "early_routes x =
     [(''core.identify'', inspect (xe_identify x)),
      (''core.agents.list'', inspect (xe_agents x)),
      (''core.agents.enable'', enable_handler x),
      (''core.agents.disable'', disable_handler x),
      (''core.spawn.ephemeral'', spawn_handler x),
      (''core.keyset.update'', rotate_handler x),
      (''core.preflight'', inspect (xe_preflight x))]"

definition late_routes :: "core_env \<Rightarrow> (string \<times> core_state handler) list" where
  "late_routes x = [(''core.capabilities'', capabilities_handler x), (''core.shutdown'', shutdown_handler)]"

fun register_all :: "(string \<times> 'w handler) list \<Rightarrow> 'w Router \<Rightarrow> 'w Router option" where
  "register_all [] r = Some r"
| "register_all ((command, h) # rs) r = Option.bind (Register command h r) (register_all rs)"

definition core_cap :: "string \<Rightarrow> Capability" where
  "core_cap cmd = \<lparr>cap_Command = cmd, cap_Version = 1, cap_Stability = ''stable'', cap_AgentClass = core_class\<rparr>"

fun declare_all :: "string list \<Rightarrow> registry \<Rightarrow> registry option" where
  "declare_all [] r = Some r"
| "declare_all (cmd # cmds) r = Option.bind (DeclareCap (core_cap cmd) r) (declare_all cmds)"

text \<open>
  The order of \<open>run\<close>: the early commands are registered, whatever the router then lists (in the order
  \<open>iteration\<close>) is declared as a capability, and \<open>core.capabilities\<close> and \<open>core.shutdown\<close> follow.
\<close>

definition wire_core :: "core_env \<Rightarrow> string list \<Rightarrow> (core_state Router \<times> registry) option" where
  "wire_core x iteration =
     Option.bind (register_all (early_routes x) NewRouter) (\<lambda>r1.
     Option.bind (declare_all (Commands r1 iteration) NewRegistry) (\<lambda>caps1.
     Option.bind (Register ''core.capabilities'' (capabilities_handler x) r1) (\<lambda>r2.
     Option.bind (DeclareCap (core_cap ''core.capabilities'') caps1) (\<lambda>caps2.
     map_option (\<lambda>r3. (r3, caps2)) (Register ''core.shutdown'' shutdown_handler r2)))))"

subsection \<open>Envelopes\<close>

text \<open>
  The result frame; an empty payload or error is left out. A payload that is not JSON makes
  \<open>json.Marshal\<close> fail, and the nil it returns is not sent. (The payloads are texts of
  \<open>json.Marshal\<close>, which reading and printing again reproduces.)
\<close>

definition result_frame :: "string \<Rightarrow> bytes \<Rightarrow> string \<Rightarrow> json option" where
  "result_frame jobID payload error =
     (let fields = (\<lambda>p. JObj ([(''type'', JStr ''result''), (''jobId'', JStr jobID)] @ p
                               @ (if error = [] then [] else [(''error'', JStr error)])))
      in if payload = [] then Some (fields [])
         else map_option (\<lambda>v. fields [(''payload'', v)]) (json_parse payload))"

definition OnEnvelopeCore :: "core_env \<Rightarrow> core_state Router \<Rightarrow> core_state envelope_handler" where
  "OnEnvelopeCore x router st env =
     (case RejectIfDraining (co_drainer st) of
        Some payload \<Rightarrow> (Some payload, st)
      | None \<Rightarrow>
          (let ((result, dispatchErr), st1) = Dispatch router st env;
               entry = \<lparr>en_Seq = 0, en_Timestamp = xe_now x, en_JobID = JobID env, en_Command = Command env,
                        en_Step = ''complete'', en_Exit = (if dispatchErr \<noteq> None then 1 else 0),
                        en_DurationMs = xe_elapsed x, en_PrevHash = [], en_Hash = []\<rparr>;
               (_, lg, disk) = Append (xe_sha x) (xe_disk x) (xe_now x) (xe_tz x) (co_audit st1) (co_disk st1) entry;
               err = (case dispatchErr of None \<Rightarrow> [] | Some e \<Rightarrow> xe_show_handler x e)
           in (map_option json_text (result_frame (JobID env) result err), st1\<lparr>co_audit := lg, co_disk := disk\<rparr>)))"

definition deriveEnrollURL :: "string \<Rightarrow> string" where
  "deriveEnrollURL wsURL =
     (let s = (if HasPrefix wsURL ''wss://'' then ''https://'' @ TrimPrefix wsURL ''wss://''
               else if HasPrefix wsURL ''ws://'' then ''http://'' @ TrimPrefix wsURL ''ws://''
               else wsURL);
          s = (case Index s ''/ws/'' of Some idx \<Rightarrow> take idx s | None \<Rightarrow> s)
      in s @ ''/agents/enroll'')"

subsection \<open>Wiring never panics\<close>

lemma register_all_add_all: "register_all rs = routes.add_all rs"
proof
  fix r :: "'a Router"
  show "register_all rs r = routes.add_all rs r"
  proof (induction rs arbitrary: r)
    case (Cons p rs)
    then have "register_all rs = routes.add_all rs" by (intro ext)
    moreover have "register_pair p r = Register (fst p) (snd p) r" by (rule register_pair_def)
    ultimately show ?case by (cases p) (simp only: register_all.simps routes.add_all.simps fst_conv snd_conv)
  qed simp
qed

lemma find_pair_handlers:
  assumes "\<And>k. find_pair r k = map_of (map (\<lambda>v. (fst v, v)) hs) k"
  shows "rt_handlers r = map_of hs"
proof
  fix k
  have "map_of (map (\<lambda>v. (fst v, v)) hs) k = map_option (\<lambda>h. (k, h)) (map_of hs k)" by (induction hs) auto
  then show "rt_handlers r k = map_of hs k"
    using assms [of k] by (cases "rt_handlers r k"; cases "map_of hs k") (auto simp: find_pair_def)
qed

lemma register_all_new:
  assumes "distinct (map fst hs)"
  shows "\<exists>r. register_all hs NewRouter = Some r \<and> rt_handlers r = map_of hs"
proof -
  obtain r where "routes.add_all hs NewRouter = Some r" and "\<And>k. find_pair r k = map_of (map (\<lambda>v. (fst v, v)) hs) k"
    by (rule routes.add_all_empty [OF assms]) blast
  then show ?thesis using find_pair_handlers [of r hs] register_all_add_all [of hs] by simp
qed

lemma declare_all_dom:
  "(\<forall>k c. r k = Some c \<longrightarrow> cap_AgentClass c = core_class) \<Longrightarrow>
     \<exists>r'. declare_all cmds r = Some r' \<and> dom r' = dom r \<union> set cmds \<and> (\<forall>k c. r' k = Some c \<longrightarrow> cap_AgentClass c = core_class)"
proof (induction cmds arbitrary: r)
  case (Cons cmd cmds)
  have d: "DeclareCap (core_cap cmd) r = Some (r(cmd \<mapsto> core_cap cmd))"
    using Cons.prems by (auto simp: DeclareCap_def core_cap_def split: option.split)
  have "\<forall>k c. (r(cmd \<mapsto> core_cap cmd)) k = Some c \<longrightarrow> cap_AgentClass c = core_class"
    using Cons.prems by (simp add: core_cap_def)
  from Cons.IH [OF this] obtain r' where "declare_all cmds (r(cmd \<mapsto> core_cap cmd)) = Some r'"
    "dom r' = dom (r(cmd \<mapsto> core_cap cmd)) \<union> set cmds" "\<forall>k c. r' k = Some c \<longrightarrow> cap_AgentClass c = core_class"
    by blast
  with d show ?case by simp
qed simp

lemma late_names_fresh:
  "''core.capabilities'' \<notin> fst ` set (early_routes x)" "''core.shutdown'' \<notin> fst ` set (early_routes x)"
  by (simp_all add: early_routes_def)

lemma dom_two_more:
  "dom c = dom m \<Longrightarrow> s \<notin> dom m \<Longrightarrow> k \<noteq> s \<Longrightarrow> dom (c(k \<mapsto> a)) = dom (m(k \<mapsto> b, s \<mapsto> d)) - {s}"
  by auto

lemma wire_core_result:
  assumes "set iteration = fst ` set (early_routes x)"
  shows "\<exists>r caps. wire_core x iteration = Some (r, caps) \<and>
    rt_handlers r = map_of (early_routes x @ late_routes x) \<and>
    dom caps = dom (rt_handlers r) - {''core.shutdown''} \<and> rt_handlers r ''core.shutdown'' \<noteq> None"
proof -
  have "distinct (map fst (early_routes x))" by (simp add: early_routes_def)
  then obtain r1 where r1: "register_all (early_routes x) NewRouter = Some r1" "rt_handlers r1 = map_of (early_routes x)"
    using register_all_new by blast
  have cmds: "set (Commands r1 iteration) = fst ` set (early_routes x)"
    using assms map_of_eq_None_iff [of "early_routes x"] unfolding Commands_def r1(2) by auto
  obtain caps1 where caps1: "declare_all (Commands r1 iteration) NewRegistry = Some caps1"
      "dom caps1 = fst ` set (early_routes x)" "\<forall>k c. caps1 k = Some c \<longrightarrow> cap_AgentClass c = core_class"
    using declare_all_dom [of NewRegistry "Commands r1 iteration"] cmds by (auto simp: NewRegistry_def)
  have fresh: "caps1 ''core.capabilities'' = None" "rt_handlers r1 ''core.capabilities'' = None"
      "rt_handlers r1 ''core.shutdown'' = None"
    using late_names_fresh [of x] domIff [of "''core.capabilities''" caps1]
    by (simp_all add: r1(2) caps1(2) map_of_eq_None_iff)
  have handlers: "map_of (early_routes x @ late_routes x) = (map_of (early_routes x))
      (''core.capabilities'' \<mapsto> capabilities_handler x, ''core.shutdown'' \<mapsto> shutdown_handler)"
    using fresh(2,3) unfolding r1(2) late_routes_def by (auto simp: map_add_def split: option.split)
  have "wire_core x iteration =
      Some (r1\<lparr>rt_handlers := map_of (early_routes x @ late_routes x)\<rparr>,
            caps1(''core.capabilities'' \<mapsto> core_cap ''core.capabilities''))"
    unfolding wire_core_def handlers using r1 caps1(1) fresh
    by (simp add: Register_def DeclareCap_def core_cap_def)
  moreover have "dom (caps1(''core.capabilities'' \<mapsto> core_cap ''core.capabilities'')) =
      dom (map_of (early_routes x @ late_routes x)) - {''core.shutdown''}"
    unfolding handlers
  proof (rule dom_two_more)
    show "dom caps1 = dom (map_of (early_routes x))" by (simp only: caps1(2) dom_map_of_conv_image_fst)
    show "''core.shutdown'' \<notin> dom (map_of (early_routes x))"
      using late_names_fresh(2) [of x] by (simp only: dom_map_of_conv_image_fst not_False_eq_True)
  qed simp
  moreover have "map_of (early_routes x @ late_routes x) ''core.shutdown'' \<noteq> None" unfolding handlers by simp
  moreover have "rt_handlers (r1\<lparr>rt_handlers := map_of (early_routes x @ late_routes x)\<rparr>) =
      map_of (early_routes x @ late_routes x)" by simp
  ultimately show ?thesis by metis
qed

text \<open>
  C35: the agent starts without a panic, in whatever order the router lists its commands; every command
  reaches its handler; but the capability list, which is to name the commands the host supports, omits
  \<open>core.shutdown\<close>, because that one is registered after the declarations.
\<close>

theorem shutdown_not_declared:
  assumes "set iteration = fst ` set (early_routes x)"
  shows "\<exists>r caps. wire_core x iteration = Some (r, caps) \<and>
    rt_handlers r = map_of (early_routes x @ late_routes x) \<and>
    dom caps = dom (rt_handlers r) - {''core.shutdown''} \<and> rt_handlers r ''core.shutdown'' \<noteq> None"
  by (rule wire_core_result [OF assms])

lemma early_commands:
  "fst ` set (early_routes x) = set [''core.identify'', ''core.agents.list'', ''core.agents.enable'', ''core.agents.disable'',
     ''core.spawn.ephemeral'', ''core.keyset.update'', ''core.preflight'']"
  by (simp add: early_routes_def)

theorem shutdown_not_declared_witness:
  "\<forall>x. \<exists>r caps. wire_core x (rev [''core.identify'', ''core.agents.list'', ''core.agents.enable'',
     ''core.agents.disable'', ''core.spawn.ephemeral'', ''core.keyset.update'', ''core.preflight'']) = Some (r, caps) \<and>
     dom caps = dom (rt_handlers r) - {''core.shutdown''} \<and> rt_handlers r ''core.shutdown'' \<noteq> None"
  using shutdown_not_declared [OF trans [OF set_rev early_commands [symmetric]]] by blast

subsection \<open>Shutting down\<close>

text \<open>
  The agent's steps: it handles an envelope (one at a time, in whatever environment it finds), or the
  goroutine that drains it makes progress in between.
\<close>

inductive core_step :: "core_env \<Rightarrow> core_state Router \<Rightarrow> core_state \<Rightarrow> core_state \<Rightarrow> bool" for x r where
  core_envelope: "core_step x r st (snd (OnEnvelopeCore y r st env))"
| core_drain: "run_step (xe_host x) (xe_manager x) (co_drainer st) d \<Longrightarrow> core_step x r st (st\<lparr>co_drainer := d\<rparr>)"

inductive_cases core_stepE: "core_step x r st st'"

definition draining_payload :: bytes where
  "draining_payload = marshal_strings
     [(''error'', ''DRAINING''), (''message'', ''pmx-core is draining, no new commands accepted'')]"

lemma draining_rejects:
  "IsDraining (co_drainer st) \<Longrightarrow> OnEnvelopeCore y r st env = (Some draining_payload, st)"
  by (simp add: OnEnvelopeCore_def RejectIfDraining_def draining_payload_def)

text \<open>Only the shutdown handler touches the drainer's own state.\<close>

definition keeps_drainer :: "core_state handler \<Rightarrow> bool" where
  "keeps_drainer h \<longleftrightarrow> (\<forall>st env. \<exists>w. co_drainer (snd (h st env)) = (co_drainer st)\<lparr>dr_world := w\<rparr>)"

lemma drainer_self: "\<exists>w. d = (d :: Drainer)\<lparr>dr_world := w\<rparr>"
  by (rule exI [of _ "dr_world d"]) simp

lemma set_core_world_drainer: "co_drainer (set_core_world w st) = (co_drainer st)\<lparr>dr_world := w\<rparr>"
  by (simp add: set_core_world_def)

lemma handlers_keep_drainer:
  "keeps_drainer (inspect f)" "keeps_drainer (enable_handler x)" "keeps_drainer (disable_handler x)"
  "keeps_drainer (spawn_handler x)" "keeps_drainer (rotate_handler x)" "keeps_drainer (capabilities_handler x)"
proof -
  show "keeps_drainer (inspect f)"
    by (auto simp: keeps_drainer_def inspect_def Let_def set_core_world_drainer split: prod.split)
  show "keeps_drainer (enable_handler x)"
    by (auto simp: keeps_drainer_def enable_handler_def Let_def set_core_world_drainer split: prod.split)
  show "keeps_drainer (disable_handler x)"
    by (auto simp: keeps_drainer_def disable_handler_def Let_def set_core_world_drainer split: prod.split)
  show "keeps_drainer (spawn_handler x)"
    by (auto simp: keeps_drainer_def spawn_handler_def Let_def set_core_world_drainer drainer_self
        split: prod.split sum.split)
  show "keeps_drainer (rotate_handler x)"
    by (auto simp: keeps_drainer_def rotate_handler_def Let_def drainer_self split: prod.split)
  show "keeps_drainer (capabilities_handler x)"
    by (auto simp: keeps_drainer_def capabilities_handler_def drainer_self)
qed

lemma wired_handler:
  assumes "rt_handlers r = map_of (early_routes x @ late_routes x)" and "rt_handlers r cmd = Some h"
  shows "h = shutdown_handler \<or> keeps_drainer h"
proof -
  have "(cmd, h) \<in> set (early_routes x @ late_routes x)" using assms map_of_SomeD by fastforce
  then show ?thesis by (auto simp only: early_routes_def late_routes_def set_append list.set handlers_keep_drainer)
qed

lemma Dispatch_drainer:
  assumes "rt_handlers r = map_of (early_routes x @ late_routes x)"
  shows "\<exists>w. co_drainer (snd (Dispatch r st env)) = (co_drainer st)\<lparr>dr_world := w\<rparr> \<or>
             co_drainer (snd (Dispatch r st env)) = snd (HandleDrain (co_drainer st) env)"
proof (cases "rt_handlers r (Command env)")
  case None
  then show ?thesis using drainer_self [of "co_drainer st"] by (auto simp: Dispatch_def)
next
  case (Some h)
  from wired_handler [OF assms this] show ?thesis
    using Some by (auto simp: Dispatch_def shutdown_handler_def keeps_drainer_def split: prod.split)
qed

lemma OnEnvelopeCore_drainer:
  "\<not> IsDraining (co_drainer st) \<Longrightarrow>
     co_drainer (snd (OnEnvelopeCore y r st env)) = co_drainer (snd (Dispatch r st env)) \<and>
     co_rotation (snd (OnEnvelopeCore y r st env)) = co_rotation (snd (Dispatch r st env))"
  by (simp add: OnEnvelopeCore_def RejectIfDraining_def split: prod.split)

text \<open>Before a shutdown the drainer is as new, whatever has happened.\<close>

definition untouched :: "core_state \<Rightarrow> bool" where
  "untouched st \<longleftrightarrow>
     \<not> dr_draining (co_drainer st) \<and> dr_runs (co_drainer st) = [] \<and> \<not> dr_rootCancelled (co_drainer st)"

lemma untouched_new: "untouched st \<Longrightarrow> co_drainer st = NewDrainer (core_world st)"
  by (cases "co_drainer st") (simp add: untouched_def NewDrainer_def core_world_def)

lemma core_step_untouched:
  assumes "rt_handlers r = map_of (early_routes x @ late_routes x)" and "core_step x r st st'"
    and "IsDraining (co_drainer st) \<or> untouched st"
  shows "IsDraining (co_drainer st') \<or> untouched st'"
  using assms(2)
proof cases
  case (core_envelope y env)
  show ?thesis
  proof (cases "IsDraining (co_drainer st)")
    case True
    then show ?thesis using core_envelope by (simp add: draining_rejects)
  next
    case False
    with assms(3) have "untouched st" by simp
    with Dispatch_drainer [OF assms(1), of st env] show ?thesis
      using OnEnvelopeCore_drainer [OF False, of y r env] core_envelope
      by (auto simp: untouched_def HandleDrain_def IsDraining_def)
  qed
next
  case (core_drain d)
  with assms(3) show ?thesis
    by (auto simp: untouched_def IsDraining_def elim!: run_stepE)
qed

text \<open>Once the flag is up, only the goroutine moves, and all it does is stop the siblings.\<close>

lemma Stop_files: "w_files (snd (Stop host m w u)) = w_files w"
  by (simp add: Stop_def guarded_def systemctl_def run_cmd_def Let_def split: option.split prod.split)

definition only_drains :: "core_env \<Rightarrow> core_state \<Rightarrow> core_state \<Rightarrow> bool" where
  "only_drains x st st' \<longleftrightarrow>
     (\<exists>d. st' = st\<lparr>co_drainer := d\<rparr> \<and> drain_reach (xe_host x) (xe_manager x) (core_world st) d \<and> IsDraining d \<and>
          w_files (dr_world d) = w_files (core_world st))"

lemma core_step_only_drains:
  assumes "core_step x r st1 st2" and "only_drains x st st1"
  shows "only_drains x st st2"
  using assms(1)
proof cases
  case (core_envelope y env)
  then show ?thesis using assms(2) by (auto simp: only_drains_def draining_rejects)
next
  case (core_drain d)
  moreover have "w_files (dr_world d) = w_files (dr_world (co_drainer st1))" "IsDraining (co_drainer st1) \<Longrightarrow> IsDraining d"
    using core_drain(2) by (auto simp: IsDraining_def Stop_files elim!: run_stepE)
  ultimately show ?thesis using assms(2) drain_run by (fastforce simp: only_drains_def)
qed

lemma shutdown_starts_drain:
  assumes "rt_handlers r = map_of (early_routes x @ late_routes x)" and "Command env = ''core.shutdown''" and "untouched st"
    and st1_def: "st1 = snd (OnEnvelopeCore y r st env)"
  shows "only_drains x st1 st1 \<and> co_rotation st1 = co_rotation st \<and> core_world st1 = core_world st"
proof -
  have "map_of (early_routes x) ''core.shutdown'' = None"
    unfolding map_of_eq_None_iff by (rule late_names_fresh)
  then have "rt_handlers r (Command env) = Some shutdown_handler"
    using assms(1,2) by (simp add: late_routes_def map_add_def)
  then have d: "snd (Dispatch r st env) = st\<lparr>co_drainer := snd (HandleDrain (co_drainer st) env)\<rparr>"
    by (simp add: Dispatch_def shutdown_handler_def split: prod.split)
  have "\<not> IsDraining (co_drainer st)" using assms(3) by (simp add: untouched_def IsDraining_def)
  from OnEnvelopeCore_drainer [OF this, of y r env] d untouched_new [OF assms(3)]
  have st1: "co_drainer st1 = snd (HandleDrain (NewDrainer (core_world st)) env)" "co_rotation st1 = co_rotation st"
    unfolding st1_def by simp_all
  then have w: "core_world st1 = core_world st" "IsDraining (co_drainer st1)"
    by (simp_all add: core_world_def HandleDrain_def NewDrainer_def IsDraining_def)
  have "drain_reach (xe_host x) (xe_manager x) (core_world st) (co_drainer st1)"
    unfolding st1(1) by (intro drain_handle drain_start)
  then have "only_drains x st1 st1"
    unfolding only_drains_def using w by (intro exI [of _ "co_drainer st1"]) (simp add: core_world_def)
  then show ?thesis using st1 w by simp
qed

lemma phase_ok_calls:
  "phase_ok m w d rs \<Longrightarrow> \<exists>n. w_calls (dr_world d) = w_calls w @ stop_calls m (take n allowedUnits)"
proof (induction m w d rs rule: phase_ok.induct)
  case (3 m w d us)
  then obtain "done" where "allowedUnits = done @ us" "w_calls (dr_world d) = w_calls w @ stop_calls m done" by auto
  moreover from this(1) have "take (length done) allowedUnits = done" by (metis append_eq_conv_conj)
  ultimately show ?case by (intro exI [of _ "length done"]) simp
next
  case (4 m w d)
  then show ?case by (intro exI [of _ "length allowedUnits"]) simp
qed (auto simp: stop_calls_def intro: exI [of _ 0])

text \<open>
  C17: a shutdown is final. Let the agent have been started and have handled any envelopes, and let it
  then handle \<open>core.shutdown\<close>. Whatever arrives afterwards, and however it interleaves with the draining
  goroutine: every envelope is answered with \<open>DRAINING\<close>; the key set and the key file, the audit log, the
  files and the capabilities stay as they are; and the only commands that run are \<open>systemctl stop\<close> of
  permitted siblings, in order and each at most once.
\<close>

theorem shutdown_is_final:
  assumes "wire_core x iteration = Some (r, caps)" and "set iteration = fst ` set (early_routes x)"
    and "co_drainer st0 = NewDrainer w" and "(core_step x r)\<^sup>*\<^sup>* st0 st" and "\<not> IsDraining (co_drainer st)"
    and "Command env = ''core.shutdown''" and "st1 = snd (OnEnvelopeCore y r st env)" and "(core_step x r)\<^sup>*\<^sup>* st1 st2"
  shows "fst (OnEnvelopeCore z r st2 env') = Some draining_payload \<and>
    co_rotation st2 = co_rotation st \<and> co_audit st2 = co_audit st1 \<and> co_disk st2 = co_disk st1 \<and>
    co_caps st2 = co_caps st1 \<and> w_files (core_world st2) = w_files (core_world st) \<and>
    (\<exists>n. w_calls (core_world st2) = w_calls (core_world st) @
       map (\<lambda>u. [''systemctl'', ''stop'', u]) (filter (Allow (xe_manager x)) (take n allowedUnits)))"
proof -
  have r: "rt_handlers r = map_of (early_routes x @ late_routes x)" using wire_core_result [OF assms(2)] assms(1) by auto
  from assms(4) have "IsDraining (co_drainer st) \<or> untouched st"
    by (induction rule: rtranclp_induct)
      (use assms(3) core_step_untouched [OF r] in \<open>auto simp: untouched_def NewDrainer_def\<close>)
  with assms(5) have "untouched st" by simp
  note start = shutdown_starts_drain [OF r assms(6) this assms(7)]
  from assms(8) have "only_drains x st1 st2"
    by (induction rule: rtranclp_induct) (use start core_step_only_drains in auto)
  then obtain d where d: "st2 = st1\<lparr>co_drainer := d\<rparr>" "drain_reach (xe_host x) (xe_manager x) (core_world st1) d"
    "IsDraining d" "w_files (dr_world d) = w_files (core_world st1)"
    by (auto simp: only_drains_def)
  from phase_ok_calls [OF drain_reach_ok [OF d(2)]] show ?thesis
    using start d by (simp add: draining_rejects core_world_def stop_calls_def)
qed

definition sample_core_env :: core_env where
  "sample_core_env =
     \<lparr>xe_host = sample_host, xe_manager = NewManager [] [], xe_identify = (\<lambda>w. ((okJSON, None), w)),
      xe_agents = (\<lambda>w. ((okJSON, None), w)), xe_preflight = (\<lambda>w. ((okJSON, None), w)), xe_quote = (\<lambda>s. s),
      xe_show_sibling = (\<lambda>_. ''refused''), xe_show_spawn = (\<lambda>_. []), xe_show_envelope = (\<lambda>_. []),
      xe_show_keyset = (\<lambda>_. []), xe_show_handler = (\<lambda>_. []), xe_cbor_read = (\<lambda>_. Inl []), xe_cbor_wire = (\<lambda>e. Inr (JobID e)),
      xe_staging = StagingOk, xe_keyset_path = ''/k'', xe_fault = None, xe_tmp = ''/t'', xe_nows = (\<lambda>_. 5), xe_version = ''1'',
      xe_iteration = [], xe_sha = sample_sha, xe_disk = DiskOk, xe_now = 5, xe_tz = 0, xe_elapsed = 0\<rparr>"

definition sample_core_state :: core_state where
  "sample_core_state =
     \<lparr>co_drainer = NewDrainer sample_world, co_rotation = \<lparr>rot_files = Map.empty, rot_keys = sample_keys\<rparr>, co_audit = None,
      co_disk = Map.empty, co_caps = NewRegistry\<rparr>"

definition sample_iteration :: "string list" where
  "sample_iteration = [''core.identify'', ''core.agents.list'', ''core.agents.enable'', ''core.agents.disable'',
     ''core.spawn.ephemeral'', ''core.keyset.update'', ''core.preflight'']"

lemma sample_iteration_set: "set sample_iteration = fst ` set (early_routes x)"
  unfolding early_commands sample_iteration_def by (rule refl)

theorem shutdown_is_final_witness:
  "\<exists>r caps. wire_core sample_core_env sample_iteration = Some (r, caps) \<and>
     (let st1 = snd (OnEnvelopeCore sample_core_env r sample_core_state ((sample_envelope 0)\<lparr>Command := ''core.shutdown''\<rparr>))
      in fst (OnEnvelopeCore sample_core_env r st1 (sample_envelope 0)) = Some draining_payload \<and>
         co_rotation st1 = co_rotation sample_core_state)"
proof -
  obtain r caps where r: "wire_core sample_core_env sample_iteration = Some (r, caps)"
    using wire_core_result [OF sample_iteration_set] by blast
  have new: "co_drainer sample_core_state = NewDrainer sample_world" "\<not> IsDraining (co_drainer sample_core_state)"
    by (simp_all add: sample_core_state_def NewDrainer_def IsDraining_def)
  have cmd: "Command ((sample_envelope 0)\<lparr>Command := ''core.shutdown''\<rparr>) = ''core.shutdown''" by simp
  from shutdown_is_final [OF r sample_iteration_set new(1) rtranclp.rtrancl_refl new(2) cmd refl rtranclp.rtrancl_refl]
  show ?thesis using r unfolding Let_def by blast
qed

subsection \<open>How a refusal reaches the backend\<close>

lemma marshal_strings_error:
  "errorJSON code message = json_text (JObj [(''error'', JStr code), (''message'', JStr message)])"
  by (simp add: errorJSON_def marshal_strings_def)

lemma utf8_keys: "utf8_valid ''error''" "utf8_valid ''message''" "utf8_valid ''jobId''" "utf8_valid ''payload''"
  "utf8_valid ''type''" "utf8_valid ''result''"
  by (simp_all add: utf8_valid_ascii)

lemma json_parse_error:
  "utf8_valid code \<Longrightarrow> utf8_valid message \<Longrightarrow>
     json_parse (errorJSON code message) = Some (JObj [(''error'', JStr code), (''message'', JStr message)])"
  unfolding marshal_strings_error by (rule json_parse_text) (simp_all add: max_depth_def utf8_keys)

lemma remarshal_error:
  "remarshal (JObj [(''error'', JStr code), (''message'', JStr message)]) =
     Some (JObj [(''error'', JStr code), (''message'', JStr message)])"
  by (simp add: marshal_map_def)

text \<open>
  C36: what the backend receives for a refused command. The client lifts the \<open>error\<close> of a result to the top of the
  frame, so a bare error body is a failed request. The supervising agent, however, frames its result before the
  client frames it again: the error it reports ends two levels down, and the request counts as answered.
\<close>

theorem core_errors_nested:
  assumes "\<not> IsDraining (co_drainer st)" and "fst (Dispatch r st env) = (errorJSON code message, None)"
    and "utf8_valid (JobID env)" and "utf8_valid code" and "utf8_valid message" and "code \<noteq> []"
  shows "wrapJobResult (JobID env) (errorJSON code message) =
      json_text (JObj [(''error'', JStr code), (''jobId'', JStr (JobID env)), (''type'', JStr ''result'')]) \<and>
    map_option (wrapJobResult (JobID env)) (fst (OnEnvelopeCore x r st env)) =
      Some (json_text (JObj [(''jobId'', JStr (JobID env)),
        (''payload'', JObj [(''jobId'', JStr (JobID env)),
           (''payload'', JObj [(''error'', JStr code), (''message'', JStr message)]), (''type'', JStr ''result'')]),
        (''type'', JStr ''result'')]))"
proof
  show "wrapJobResult (JobID env) (errorJSON code message) =
      json_text (JObj [(''error'', JStr code), (''jobId'', JStr (JobID env)), (''type'', JStr ''result'')])"
    using assms(6) json_parse_error [OF assms(4,5)]
    by (simp add: wrapJobResult_def parse_any_def remarshal_error top_error_def marshal_map_def)
  let ?frame = "JObj [(''type'', JStr ''result''), (''jobId'', JStr (JobID env)),
      (''payload'', JObj [(''error'', JStr code), (''message'', JStr message)])]"
  have "errorJSON code message \<noteq> []" by (simp add: marshal_strings_error json_text_obj)
  then have "result_frame (JobID env) (errorJSON code message) [] = Some ?frame"
    using json_parse_error [OF assms(4,5)] by (simp add: result_frame_def)
  moreover obtain st1 where "Dispatch r st env = ((errorJSON code message, None), st1)"
    using assms(2) by (metis prod.collapse)
  ultimately have "fst (OnEnvelopeCore x r st env) = Some (json_text ?frame)"
    using assms(1) by (simp add: OnEnvelopeCore_def RejectIfDraining_def Let_def split: prod.split del: json_text.simps)
  moreover have "json_parse (json_text ?frame) = Some ?frame"
    by (rule json_parse_text) (simp_all add: max_depth_def utf8_keys assms(3-5))
  moreover have "remarshal ?frame = Some (JObj [(''jobId'', JStr (JobID env)),
      (''payload'', JObj [(''error'', JStr code), (''message'', JStr message)]), (''type'', JStr ''result'')])"
    using remarshal_error [of code message] by (simp add: marshal_map_def)
  ultimately show "map_option (wrapJobResult (JobID env)) (fst (OnEnvelopeCore x r st env)) =
      Some (json_text (JObj [(''jobId'', JStr (JobID env)),
        (''payload'', JObj [(''jobId'', JStr (JobID env)),
           (''payload'', JObj [(''error'', JStr code), (''message'', JStr message)]), (''type'', JStr ''result'')]),
        (''type'', JStr ''result'')]))"
    by (simp add: wrapJobResult_def parse_any_def top_error_def marshal_map_def)
qed

theorem core_errors_nested_witness:
  "\<exists>r caps. wire_core sample_core_env sample_iteration = Some (r, caps) \<and>
     map_option (wrapJobResult ''j1'')
       (fst (OnEnvelopeCore sample_core_env r sample_core_state ((sample_envelope 0)\<lparr>Command := ''core.agents.enable''\<rparr>))) =
     Some (json_text (JObj [(''jobId'', JStr ''j1''),
        (''payload'', JObj [(''jobId'', JStr ''j1''),
           (''payload'', JObj [(''error'', JStr ''ENABLE_FAILED''), (''message'', JStr ''refused'')]), (''type'', JStr ''result'')]),
        (''type'', JStr ''result'')]))"
proof -
  obtain r caps where r: "wire_core sample_core_env sample_iteration = Some (r, caps)"
    "rt_handlers r = map_of (early_routes sample_core_env @ late_routes sample_core_env)"
    using wire_core_result [OF sample_iteration_set] by blast
  let ?e = "(sample_envelope 0)\<lparr>Command := ''core.agents.enable''\<rparr>"
  have d: "fst (Dispatch r sample_core_state ?e) = (errorJSON ''ENABLE_FAILED'' ''refused'', None)"
    by (simp add: Dispatch_def r(2) early_routes_def enable_handler_def Enable_def guarded_def checkAllowed_def Allow_def
        NewManager_def sample_core_env_def env_str_def sample_envelope_def)
  have "\<not> IsDraining (co_drainer sample_core_state)"
    by (simp add: sample_core_state_def NewDrainer_def IsDraining_def)
  from core_errors_nested [OF this d, of sample_core_env] show ?thesis
    using r by (simp add: sample_envelope_def utf8_valid_ascii del: json_text.simps)
qed

end
