(* ===== verification/Storage_Exec.thy ===== *)
theory Storage_Exec
  imports Exec_Trace Go_Format
begin

text \<open>
  Command execution in the storage agent, \<open>src/storage/internal/storageexec/exec.go\<close>: a tool is named by a key, its
  path is resolved against the host, and only resolved paths are executed, with arguments free of shell
  metacharacters and an audit entry before and after.
\<close>

datatype run_err = PathNotConfigured string | NotInAllowlist string | UnsafeArgument string | ErrExit string

text \<open>Errors of the handlers: a text of their own, a failed run, a failed system call, or a panic.\<close>

datatype st_error = StMsg string | StRun string run_err | StSys string | StPanic

type_synonym 'a st = "(st_error, 'a) act"

text \<open>What \<open>os.Stat\<close> says of a path: whether it is a directory, and the permission bits.\<close>

type_synonym file_stat = "string \<Rightarrow> (bool \<times> nat) option"

record st_env =
  sx_stat :: file_stat
  sx_Paths :: "(string \<times> string) list option"
  sx_AllowedBinaries :: "string list option"
  sx_JobID :: string
  sx_host :: "nat \<Rightarrow> string \<Rightarrow> string list \<Rightarrow> proc_answer"

subsection \<open>Resolving paths\<close>

definition DefaultBinaryPaths :: "(string \<times> string) list" where
  "DefaultBinaryPaths =
     [(''lsblk'', ''/sbin/lsblk''), (''parted'', ''/sbin/parted''), (''wipefs'', ''/sbin/wipefs''),
      (''mkfs.ext4'', ''/sbin/mkfs.ext4''), (''mkfs.xfs'', ''/sbin/mkfs.xfs''), (''mkfs.btrfs'', ''/sbin/mkfs.btrfs''),
      (''zpool'', ''/sbin/zpool''), (''zfs'', ''/sbin/zfs''), (''smartctl'', ''/usr/sbin/smartctl''),
      (''exportfs'', ''/usr/sbin/exportfs''), (''net'', ''/usr/bin/net''), (''nvme'', ''/usr/sbin/nvme''),
      (''qemu-img'', ''/usr/bin/qemu-img'')]"

definition trustedBinDirs :: "string list" where
  "trustedBinDirs = [''/usr/sbin'', ''/sbin'', ''/usr/bin'', ''/bin'', ''/usr/local/sbin'', ''/usr/local/bin'']"

definition any_execute_bit :: "nat \<Rightarrow> bool" where
  "any_execute_bit perm \<longleftrightarrow> odd perm \<or> odd (perm div 8) \<or> odd (perm div 64)"

definition isExecutableFile :: "file_stat \<Rightarrow> string \<Rightarrow> bool" where
  "isExecutableFile stat path =
     (case stat path of None \<Rightarrow> False | Some (dir, perm) \<Rightarrow> \<not> dir \<and> any_execute_bit perm)"

definition resolveBinary :: "file_stat \<Rightarrow> string \<Rightarrow> string" where
  "resolveBinary stat defaultPath =
     (if isExecutableFile stat defaultPath then defaultPath
      else case find (isExecutableFile stat) (map (\<lambda>dir. JoinPath [dir, Base defaultPath]) trustedBinDirs) of
          Some candidate \<Rightarrow> candidate
        | None \<Rightarrow> defaultPath)"

definition effective_path :: "string \<Rightarrow> string \<Rightarrow> string" where
  "effective_path name p =
     (if TrimSpace p = [] then case map_of DefaultBinaryPaths name of Some d \<Rightarrow> d | None \<Rightarrow> [] else p)"

definition ResolvePaths :: "file_stat \<Rightarrow> (string \<times> string) list \<Rightarrow> (string \<times> string) list \<times> string list" where
  "ResolvePaths stat paths =
     (let known = filter (\<lambda>(name, p). TrimSpace (effective_path name p) \<noteq> []) paths;
          resolved = map (\<lambda>(name, p). (name, resolveBinary stat (effective_path name p))) known
      in (resolved, map snd resolved))"

definition resolvedPathsAndAllowlist :: "file_stat \<Rightarrow> (string \<times> string) list \<times> string list" where
  "resolvedPathsAndAllowlist stat = ResolvePaths stat DefaultBinaryPaths"

text \<open>The tables \<open>runNamed\<close> works with: a nil map is filled from the defaults.\<close>

definition exec_paths :: "st_env \<Rightarrow> (string \<times> string) list" where
  "exec_paths e = (case sx_Paths e of Some ps \<Rightarrow> ps | None \<Rightarrow> fst (resolvedPathsAndAllowlist (sx_stat e)))"

definition exec_allowed :: "st_env \<Rightarrow> string list" where
  "exec_allowed e = (case sx_AllowedBinaries e of Some bs \<Rightarrow> bs | None \<Rightarrow> snd (resolvedPathsAndAllowlist (sx_stat e)))"

subsection \<open>Running a tool\<close>

definition unsafe_chars :: string where
  "unsafe_chars = [CHR '';'', CHR 0x7C, CHR 0x26, CHR 0x60, CHR ''$'', CHR 0x3C, CHR 0x3E, CHR ''('', CHR '')'',
     CHR 0x0A, CHR 0x0D, CHR 0x00]"

definition IsSafeArg :: "string \<Rightarrow> bool" where
  "IsSafeArg arg = (\<not> ContainsAny arg unsafe_chars)"

definition validateArgs :: "string list \<Rightarrow> run_err option" where
  "validateArgs args = map_option UnsafeArgument (find (\<lambda>a. \<not> IsSafeArg a) args)"

definition st_exit :: "proc_end \<Rightarrow> int" where
  "st_exit r = (if run_error r = None then 0 else case r of Exited n \<Rightarrow> int n | _ \<Rightarrow> -1)"

definition run_outcome :: "proc_answer \<Rightarrow> ExecResult option \<times> run_err option" where
  "run_outcome a =
     (Some \<lparr>xr_Stdout = pa_stdout a, xr_Stderr = pa_stderr a, xr_ExitCode = st_exit (pa_end a)\<rparr>,
      map_option (\<lambda>msg. ErrExit (''command exited non-zero: '' @ msg)) (run_error (pa_end a)))"

definition run_events :: "string \<Rightarrow> string \<Rightarrow> string \<Rightarrow> string list \<Rightarrow> proc_answer \<Rightarrow> px_event list" where
  "run_events jobID name path args a =
     [PxAudit jobID name ''pre'' (-1), PxRun path args, PxAudit jobID name ''post'' (st_exit (pa_end a))]"

definition runNamed :: "st_env \<Rightarrow> string \<Rightarrow> string list \<Rightarrow> (ExecResult option \<times> run_err option) st" where
  "runNamed e name args w =
     (case map_of (exec_paths e) name of
        None \<Rightarrow> (Inr (None, Some (PathNotConfigured name)), w)
      | Some path \<Rightarrow>
          if TrimSpace path = [] then (Inr (None, Some (PathNotConfigured name)), w)
          else if path \<notin> set (exec_allowed e) then (Inr (None, Some (NotInAllowlist path)), w)
          else case validateArgs args of
              Some err \<Rightarrow> (Inr (None, Some err), w)
            | None \<Rightarrow>
                (let a = sx_host e (length (filter is_run (px_events w))) path args
                 in (Inr (run_outcome a), w\<lparr>px_events := px_events w @ run_events (sx_JobID e) name path args a\<rparr>)))"

definition Mkfs :: "st_env \<Rightarrow> string \<Rightarrow> string list \<Rightarrow> (ExecResult option \<times> run_err option) st" where
  "Mkfs e fsType args = runNamed e (''mkfs.'' @ TrimSpace fsType) args"

text \<open>The pattern \<open>res, err := ...; if err != nil { return ...: %w }\<close>. A run without an error has a result.\<close>

definition st_must :: "string \<Rightarrow> (ExecResult option \<times> run_err option) st \<Rightarrow> ExecResult st" where
  "st_must op m =
     px_bind m (\<lambda>(res, err). case err of
         Some x \<Rightarrow> px_fail (StRun op x)
       | None \<Rightarrow> (case res of Some r \<Rightarrow> px_return r | None \<Rightarrow> px_fail StPanic))"

definition st_do :: "string \<Rightarrow> (ExecResult option \<times> run_err option) st \<Rightarrow> unit st" where
  "st_do op m = px_bind (st_must op m) (\<lambda>_. px_return ())"

subsection \<open>Traces\<close>

fun st_bracketed :: "string \<Rightarrow> px_event list \<Rightarrow> bool" where
  "st_bracketed j [] = True"
| "st_bracketed j (PxAudit j1 n1 s1 x1 # PxRun b args # PxAudit j2 n2 s2 x2 # es) =
     (j1 = j \<and> s1 = ''pre'' \<and> x1 = -1 \<and> j2 = j \<and> n2 = n1 \<and> s2 = ''post'' \<and> st_bracketed j es)"
| "st_bracketed j _ = False"

lemma st_bracketed_append: "st_bracketed j es \<Longrightarrow> st_bracketed j fs \<Longrightarrow> st_bracketed j (es @ fs)"
  by (induction j es rule: st_bracketed.induct) auto

text \<open>The arguments a tool may get, by the tool's key.\<close>

definition allowed_run :: "st_env \<Rightarrow> (string \<Rightarrow> string list \<Rightarrow> bool) \<Rightarrow> string \<Rightarrow> string list \<Rightarrow> bool" where
  "allowed_run e shape b args \<longleftrightarrow>
     b \<in> set (exec_allowed e) \<and> list_all IsSafeArg args \<and> (\<exists>name. map_of (exec_paths e) name = Some b \<and> shape name args)"

interpretation storage: event_trace
  "\<lambda>es. st_bracketed (sx_JobID e) es \<and> (\<forall>b args. PxRun b args \<in> set es \<longrightarrow> allowed_run e shape b args)" for e shape
  by unfold_locales (auto intro: st_bracketed_append)

abbreviation st_ok :: "st_env \<Rightarrow> (string \<Rightarrow> string list \<Rightarrow> bool) \<Rightarrow> ('e, 'a) act \<Rightarrow> bool" where
  "st_ok e shape m \<equiv> storage.traces e shape m"

named_theorems st_rules

lemmas st_trace_rules [st_rules] =
  storage.traces_return storage.traces_fail storage.traces_lift storage.traces_bind_lift storage.traces_check
  storage.traces_if storage.traces_option storage.traces_prod

lemma find_safe: "find (\<lambda>a. \<not> P a) xs = None \<longleftrightarrow> list_all P xs"
  by (auto simp: find_None_iff list_all_iff)

lemma runNamed_cases:
  obtains (refused) err where "runNamed e name args w = (Inr (None, Some err), w)"
  | (run) path a where "map_of (exec_paths e) name = Some path" "path \<in> set (exec_allowed e)" "list_all IsSafeArg args"
      "a = sx_host e (length (filter is_run (px_events w))) path args"
      "runNamed e name args w =
         (Inr (run_outcome a), w\<lparr>px_events := px_events w @ run_events (sx_JobID e) name path args a\<rparr>)"
proof (cases "map_of (exec_paths e) name")
  case None
  then show ?thesis by (intro refused) (simp add: runNamed_def)
next
  case (Some path)
  show ?thesis
  proof (cases "TrimSpace path \<noteq> [] \<and> path \<in> set (exec_allowed e) \<and> validateArgs args = None")
    case True
    then have "list_all IsSafeArg args" by (simp add: validateArgs_def find_safe)
    with True Some show ?thesis by (intro run) (simp_all add: runNamed_def Let_def)
  next
    case False
    then have "\<exists>err. runNamed e name args w = (Inr (None, Some err), w)"
      using Some by (cases "validateArgs args") (auto simp: runNamed_def)
    then show ?thesis using refused by blast
  qed
qed

lemma st_ok_runNamed [st_rules]: "shape name args \<Longrightarrow> st_ok e shape (runNamed e name args)"
  unfolding storage.traces_def
proof
  fix w
  assume shape: "shape name args"
  show "\<exists>es. px_events (snd (runNamed e name args w)) = px_events w @ es \<and> st_bracketed (sx_JobID e) es \<and>
      (\<forall>b args. PxRun b args \<in> set es \<longrightarrow> allowed_run e shape b args)"
  proof (cases rule: runNamed_cases [of e name args w])
    case (run path a)
    with shape show ?thesis
      by (intro exI [of _ "run_events (sx_JobID e) name path args a"]) (auto simp: allowed_run_def run_events_def)
  qed simp
qed

lemma st_ok_must [st_rules]: "st_ok e shape m \<Longrightarrow> st_ok e shape (st_must op m)"
  unfolding st_must_def by (rule storage.traces_bind) (auto intro: st_rules split: option.split)

lemma st_ok_do [st_rules]: "st_ok e shape m \<Longrightarrow> st_ok e shape (st_do op m)"
  unfolding st_do_def by (rule storage.traces_bind) (auto intro: st_rules)

subsection \<open>Where a resolved path points\<close>

lemma resolveBinary_trusted:
  "resolveBinary stat p = p \<or>
     (\<exists>dir \<in> set trustedBinDirs. resolveBinary stat p = JoinPath [dir, Base p] \<and> isExecutableFile stat (JoinPath [dir, Base p]))"
proof (cases "find (isExecutableFile stat) (map (\<lambda>dir. JoinPath [dir, Base p]) trustedBinDirs)")
  case (Some c)
  then obtain i where "i < length trustedBinDirs" "c = JoinPath [trustedBinDirs ! i, Base p]" "isExecutableFile stat c"
    by (auto simp: find_Some_iff)
  with Some show ?thesis by (auto simp: resolveBinary_def)
qed (simp add: resolveBinary_def)

lemma ResolvePaths_in_sync:
  assumes "ResolvePaths stat paths = (resolved, allow)" and "map_of resolved name = Some path"
  shows "path \<in> set allow \<and> (\<exists>p. (name, p) \<in> set paths \<and> path = resolveBinary stat (effective_path name p))"
proof -
  from assms(2) have "(name, path) \<in> set resolved" by (rule map_of_SomeD)
  with assms(1) show ?thesis by (force simp: ResolvePaths_def Let_def)
qed

end
