(* ===== verification/Go_Url.thy ===== *)
theory Go_Url
  imports Go_Net Go_Format
begin

text \<open>
  \<open>url.Parse\<close> of \<open>net/url\<close> (Go 1.26) as far as the agents look at the result: the scheme and the host. Everything that
  makes the parser reject a text is kept, including malformed escapes in parts whose value is not used.
\<close>

datatype url_part = UPath | UHost | UZone | UUser | UFragment

definition url_letter :: "char \<Rightarrow> bool" where
  "url_letter c \<longleftrightarrow> byte_in 97 122 c \<or> byte_in 65 90 c"

definition url_digit :: "char \<Rightarrow> bool" where
  "url_digit c \<longleftrightarrow> byte_in 48 57 c"

definition host_char :: "char \<Rightarrow> bool" where
  "host_char c \<longleftrightarrow> url_letter c \<or> url_digit c \<or>
     c \<in> set (''-_.~!$'' @ [CHR 0x26, CHR 0x27] @ ''()*+,;=:[]'' @ [CHR 0x3C, CHR 0x3E, CHR 0x22])"

text \<open>Undoing percent-encoding; a host may only escape a percent sign or bytes beyond ASCII.\<close>

fun url_unescape :: "url_part \<Rightarrow> string \<Rightarrow> string option" where
  "url_unescape m [] = Some []"
| "url_unescape m (c # s) =
     (if c = CHR ''%'' then
        (case s of
           a # b # r \<Rightarrow>
             (case (hex_val a, hex_val b) of
                (Some x, Some y) \<Rightarrow>
                  if m = UHost \<and> x < 8 \<and> [a, b] \<noteq> ''25'' then None
                  else if m = UZone \<and> [a, b] \<noteq> ''25'' \<and> 16 * x + y \<noteq> 32 \<and> \<not> host_char (char_of (16 * x + y)) then None
                  else map_option (Cons (char_of (16 * x + y))) (url_unescape m r)
              | _ \<Rightarrow> None)
         | _ \<Rightarrow> None)
      else if (m = UHost \<or> m = UZone) \<and> of_char c < (128 :: nat) \<and> \<not> host_char c then None
      else map_option (Cons c) (url_unescape m s))"

definition LastIndex :: "string \<Rightarrow> char \<Rightarrow> nat option" where
  "LastIndex s c = (if c \<in> set s then Some (length s - 1 - length (takeWhile (\<lambda>x. x \<noteq> c) (rev s))) else None)"

definition validOptionalPort :: "string \<Rightarrow> bool" where
  "validOptionalPort port \<longleftrightarrow> port = [] \<or> hd port = CHR '':'' \<and> list_all url_digit (tl port)"

text \<open>An address in brackets must be an IPv6 one.\<close>

definition parse_literal :: "string \<Rightarrow> string option" where
  "parse_literal host =
     (case LastIndex host (CHR '']'') of
        None \<Rightarrow> None
      | Some i \<Rightarrow>
          (let colonPort = drop (Suc i) host; hostname = take (i - 1) (tl host) in
           if \<not> validOptionalPort colonPort then None
           else Option.bind (url_unescape UHost colonPort) (\<lambda>port.
                Option.bind
                  (case Index hostname ''%25'' of
                     Some z \<Rightarrow>
                       Option.bind (url_unescape UHost (take z hostname)) (\<lambda>h.
                         map_option (\<lambda>zone. h @ zone) (url_unescape UZone (drop z hostname)))
                   | None \<Rightarrow> url_unescape UHost hostname)
                  (\<lambda>h. if parse_IPv6 (takeWhile (\<lambda>c. c \<noteq> CHR ''%'') h) = None \<or> dropWhile (\<lambda>c. c \<noteq> CHR ''%'') h = ''%'' then None
                       else Some (''['' @ h @ '']'' @ port)))))"

definition parse_host :: "string \<Rightarrow> string option" where
  "parse_host host =
     (case LastIndex host (CHR ''['') of
        Some i \<Rightarrow> if i > 0 then None else parse_literal host
      | None \<Rightarrow>
          (case Index host '':'' of
             None \<Rightarrow> url_unescape UHost host
           | Some i \<Rightarrow> if validOptionalPort (drop i host) then url_unescape UHost host else None))"

definition valid_userinfo :: "string \<Rightarrow> bool" where
  "valid_userinfo s \<longleftrightarrow>
     list_all (\<lambda>c. url_letter c \<or> url_digit c \<or> c \<in> set (''-._:~!$'' @ [CHR 0x26, CHR 0x27] @ ''()*+,;=%@'')) s"

definition parse_authority :: "string \<Rightarrow> string option" where
  "parse_authority authority =
     (case LastIndex authority (CHR ''@'') of
        None \<Rightarrow> parse_host authority
      | Some i \<Rightarrow>
          Option.bind (parse_host (drop (Suc i) authority)) (\<lambda>host.
            let userinfo = take i authority in
            if \<not> valid_userinfo userinfo then None
            else if url_unescape UUser userinfo = None then None
            else Some host))"

text \<open>The text before the first colon if it can be a scheme; a leading colon is an error.\<close>

definition scheme_char :: "char \<Rightarrow> bool" where
  "scheme_char c \<longleftrightarrow> url_letter c \<or> url_digit c \<or> c \<in> set ''+-.''"

definition getScheme :: "string \<Rightarrow> (string \<times> string) option" where
  "getScheme raw =
     (let s = takeWhile scheme_char raw; r = dropWhile scheme_char raw in
      if r \<noteq> [] \<and> hd r = CHR '':'' then
        (if s = [] then None else if url_letter (hd s) then Some (s, tl r) else Some ([], raw))
      else Some ([], raw))"

definition url_ctl :: "string \<Rightarrow> bool" where
  "url_ctl s = list_ex (\<lambda>c. of_char c < (32 :: nat) \<or> c = CHR 0x7F) s"

text \<open>The scheme and the host; the rest is checked and dropped.\<close>

definition parse_rest :: "string \<Rightarrow> string \<Rightarrow> (string \<times> string) option" where
  "parse_rest scheme rest0 =
     (let rest = (case Index rest0 ''?'' of Some i \<Rightarrow> take i rest0 | None \<Rightarrow> rest0) in
      if \<not> HasPrefix rest ''/'' \<and> scheme \<noteq> [] then Some (scheme, [])
      else if \<not> HasPrefix rest ''/'' \<and> CHR '':'' \<in> set (takeWhile (\<lambda>c. c \<noteq> CHR ''/'') rest) then None
      else if HasPrefix rest ''//'' \<and> (scheme \<noteq> [] \<or> \<not> HasPrefix rest ''///'') then
        (let authority = takeWhile (\<lambda>c. c \<noteq> CHR ''/'') (drop 2 rest); path = dropWhile (\<lambda>c. c \<noteq> CHR ''/'') (drop 2 rest) in
         Option.bind (parse_authority authority) (\<lambda>host.
           if url_unescape UPath path = None then None else Some (scheme, host)))
      else if url_unescape UPath rest = None then None else Some (scheme, []))"

definition ParseURL :: "string \<Rightarrow> (string \<times> string) option" where
  "ParseURL rawURL =
     (let (u, frag) = (case Cut rawURL ''#'' of Some p \<Rightarrow> p | None \<Rightarrow> (rawURL, [])) in
      if url_ctl u then None
      else Option.bind (if u = ''*'' then Some ([], []) else Option.bind (getScheme u) (\<lambda>(s, r). parse_rest (ToLower s) r))
        (\<lambda>p. if frag \<noteq> [] \<and> url_unescape UFragment frag = None then None else Some p))"

definition Hostname :: "string \<Rightarrow> string" where
  "Hostname hostPort =
     (let h = (case LastIndex hostPort (CHR '':'') of
                 Some i \<Rightarrow> if validOptionalPort (drop i hostPort) then take i hostPort else hostPort
               | None \<Rightarrow> hostPort)
      in if HasPrefix h ''['' \<and> HasSuffix h '']'' then butlast (tl h) else h)"

end
