(* ===== verification/Storage_Disk.thy ===== *)
theory Storage_Disk
  imports Storage_Exec Archive_Roots Go_Url
begin

text \<open>
  Disks: inventory, formatting, pass-through and image import, \<open>src/storage/internal/disk/disk.go\<close>. What the
  handlers read of the host is an argument: the answers of the tools, \<open>/proc/mounts\<close> and \<open>/etc/fstab\<close> at the moment
  they are read, the nodes of the device directory, the answers of the image server.
\<close>

subsection \<open>Output of \<open>lsblk\<close>\<close>

datatype lsblkNode =
  LsblkNode (ln_Name: string) (ln_Size: any) (ln_Rota: any) (ln_RM: any) (ln_Type: string) (ln_Mountpoint: any)
    (ln_FSType: any) (ln_Serial: any) (ln_Model: any) (ln_Vendor: any) (ln_WWN: any) (ln_Children: "lsblkNode list")

definition zero_node :: lsblkNode where
  "zero_node = LsblkNode [] ANil ANil ANil [] ANil ANil ANil ANil ANil ANil []"

text \<open>Decoding into an \<open>interface{}\<close>.\<close>

fun dec_any :: "lit \<Rightarrow> any option" where
  "dec_any LNull = Some ANil"
| "dec_any (LBool b) = Some (ABool b)"
| "dec_any (LNum l) = map_option AFloat (ParseFloat l)"
| "dec_any (LStr raw) = Some (AStr (unquote raw))"
| "dec_any (LArr vs) = map_option AArr (those (map dec_any vs))"
| "dec_any (LObj kvs) =
     map_option (\<lambda>vs. AMap (zip (map (\<lambda>p. unquote (fst p)) kvs) vs)) (those (map (\<lambda>p. dec_any (snd p)) kvs))"

text \<open>One member of a node: its folded name, its value, and the value read as a list of nodes.\<close>

fun set_node_field :: "string \<times> lit \<times> (lsblkNode \<times> bool) list \<Rightarrow> lsblkNode \<times> bool \<Rightarrow> lsblkNode \<times> bool" where
  "set_node_field (k, v, nodes) (LsblkNode name sz rota rm ty mp fs serial model vendor wwn cs, ok) =
     (if k = ''NAME'' then
        (case dec_str v name of Some x \<Rightarrow> (LsblkNode x sz rota rm ty mp fs serial model vendor wwn cs, ok)
         | None \<Rightarrow> (LsblkNode name sz rota rm ty mp fs serial model vendor wwn cs, False))
      else if k = ''TYPE'' then
        (case dec_str v ty of Some x \<Rightarrow> (LsblkNode name sz rota rm x mp fs serial model vendor wwn cs, ok)
         | None \<Rightarrow> (LsblkNode name sz rota rm ty mp fs serial model vendor wwn cs, False))
      else if k = ''CHILDREN'' then
        (case v of
           LNull \<Rightarrow> (LsblkNode name sz rota rm ty mp fs serial model vendor wwn [], ok)
         | LArr _ \<Rightarrow> (LsblkNode name sz rota rm ty mp fs serial model vendor wwn (map fst nodes), ok \<and> list_all snd nodes)
         | _ \<Rightarrow> (LsblkNode name sz rota rm ty mp fs serial model vendor wwn cs, False))
      else case dec_any v of
          None \<Rightarrow> (LsblkNode name sz rota rm ty mp fs serial model vendor wwn cs,
                   ok \<and> k \<notin> set [''SIZE'', ''ROTA'', ''RM'', ''MOUNTPOINT'', ''FSTYPE'', ''SERIAL'', ''MODEL'', ''VENDOR'', ''WWN''])
        | Some x \<Rightarrow>
            (LsblkNode name (if k = ''SIZE'' then x else sz) (if k = ''ROTA'' then x else rota)
               (if k = ''RM'' then x else rm) ty (if k = ''MOUNTPOINT'' then x else mp)
               (if k = ''FSTYPE'' then x else fs) (if k = ''SERIAL'' then x else serial)
               (if k = ''MODEL'' then x else model) (if k = ''VENDOR'' then x else vendor)
               (if k = ''WWN'' then x else wwn) cs, ok))"

fun dec_node :: "lit \<Rightarrow> lsblkNode \<times> bool" where
  "dec_node (LObj kvs) =
     fold set_node_field
       (map (\<lambda>p. (fold_name (unquote (fst p)), snd p, (case snd p of LArr vs \<Rightarrow> map dec_node vs | _ \<Rightarrow> []))) kvs)
       (zero_node, True)"
| "dec_node LNull = (zero_node, True)"
| "dec_node _ = (zero_node, False)"

definition set_lsblk_field :: "string \<Rightarrow> lit \<Rightarrow> lsblkNode list \<Rightarrow> lsblkNode list option" where
  "set_lsblk_field k v nodes = (if k = ''BLOCKDEVICES'' then dec_slice dec_node v else Some nodes)"

definition decode_lsblk :: "bytes \<Rightarrow> lsblkNode list option" where
  "decode_lsblk out =
     (case json_lit out of
        None \<Rightarrow> None
      | Some v \<Rightarrow> (case dec_struct set_lsblk_field v [] of (nodes, ok) \<Rightarrow> if ok then Some nodes else None))"

text \<open>
  The conversions of dynamically typed values. A number beyond \<open>uint64\<close> converts to whatever the platform makes of
  it, \<open>huge\<close>.
\<close>

definition disk_string :: "any \<Rightarrow> string" where
  "disk_string v =
     (case v of
        AStr s \<Rightarrow> TrimSpace s
      | AFloat (Fin q) \<Rightarrow>
          if q = 0 then ''0''
          else (if q < 0 then ''-'' else []) @ (case shortest \<bar>q\<bar> of (ds, dp) \<Rightarrow> float_f ds dp)
      | _ \<Rightarrow> [])"

definition ParseUint :: "string \<Rightarrow> nat" where
  "ParseUint s =
     (case digits_val 0 s of Some n \<Rightarrow> if s = [] then 0 else if n < 2 ^ 64 then n else 2 ^ 64 - 1 | None \<Rightarrow> 0)"

definition toUint64 :: "(float64 \<Rightarrow> nat) \<Rightarrow> any \<Rightarrow> nat" where
  "toUint64 huge v =
     (case v of
        AFloat (Fin q) \<Rightarrow> if q < 0 then 0 else if q < 2 ^ 64 then nat (truncate_rat q) else huge (Fin q)
      | AInt n \<Rightarrow> if n < 0 then 0 else nat n
      | AUint n \<Rightarrow> nat n
      | AStr s \<Rightarrow> ParseUint (TrimSpace s)
      | _ \<Rightarrow> 0)"

definition toBool :: "any \<Rightarrow> bool" where
  "toBool v =
     (case v of
        ABool b \<Rightarrow> b
      | AFloat f \<Rightarrow> f \<noteq> Fin 0
      | AStr s \<Rightarrow> TrimSpace (ToLower s) \<in> {''1'', ''true'', ''yes''}
      | _ \<Rightarrow> False)"

subsection \<open>Inventory\<close>

record Partition =
  pt_Name :: string
  pt_Device :: string
  pt_SizeBytes :: nat
  pt_Type :: string
  pt_Mountpoint :: string
  pt_FSType :: string

record Disk =
  dk_Name :: string
  dk_Device :: string
  dk_SizeBytes :: nat
  dk_Rotational :: bool
  dk_Removable :: bool
  dk_Type :: string
  dk_Mountpoint :: string
  dk_FSType :: string
  dk_Serial :: string
  dk_Model :: string
  dk_Vendor :: string
  dk_WWN :: string
  dk_SmartStatus :: string
  dk_Encrypted :: bool
  dk_Locked :: bool
  dk_Partitions :: "Partition list"

definition has_crypto :: "string \<Rightarrow> bool" where
  "has_crypto fs = Contains (ToLower fs) ''crypto''"

definition node_partition :: "(float64 \<Rightarrow> nat) \<Rightarrow> lsblkNode \<Rightarrow> Partition" where
  "node_partition huge c =
     \<lparr>pt_Name = ln_Name c, pt_Device = ''/dev/'' @ ln_Name c, pt_SizeBytes = toUint64 huge (ln_Size c), pt_Type = ln_Type c,
      pt_Mountpoint = disk_string (ln_Mountpoint c), pt_FSType = disk_string (ln_FSType c)\<rparr>"

definition node_disk :: "(float64 \<Rightarrow> nat) \<Rightarrow> lsblkNode \<Rightarrow> string \<Rightarrow> Disk" where
  "node_disk huge n smart =
     (let mp = disk_string (ln_Mountpoint n); fs = disk_string (ln_FSType n);
          enc = (list_ex (\<lambda>c. ln_Type c = ''crypt'' \<or> has_crypto (disk_string (ln_FSType c))) (ln_Children n) \<or> has_crypto fs)
      in \<lparr>dk_Name = ln_Name n, dk_Device = ''/dev/'' @ ln_Name n, dk_SizeBytes = toUint64 huge (ln_Size n),
          dk_Rotational = toBool (ln_Rota n), dk_Removable = toBool (ln_RM n), dk_Type = ln_Type n, dk_Mountpoint = mp,
          dk_FSType = fs, dk_Serial = disk_string (ln_Serial n), dk_Model = disk_string (ln_Model n),
          dk_Vendor = disk_string (ln_Vendor n), dk_WWN = disk_string (ln_WWN n), dk_SmartStatus = smart,
          dk_Encrypted = enc, dk_Locked = (enc \<and> mp = []),
          dk_Partitions = map (node_partition huge) (filter (\<lambda>c. ln_Type c = ''part'') (ln_Children n))\<rparr>)"

definition set_passed_field :: "string \<Rightarrow> lit \<Rightarrow> bool \<Rightarrow> bool option" where
  "set_passed_field k v b = (if k = ''PASSED'' then dec_bool v b else Some b)"

definition set_smart_field :: "string \<Rightarrow> lit \<Rightarrow> bool \<Rightarrow> bool option" where
  "set_smart_field k v b =
     (if k = ''SMART_STATUS'' then (case dec_struct set_passed_field v b of (b', ok) \<Rightarrow> if ok then Some b' else None)
      else Some b)"

definition parseSmartStatus :: "bytes \<Rightarrow> string" where
  "parseSmartStatus data =
     (case json_lit data of
        None \<Rightarrow> ''unknown''
      | Some v \<Rightarrow>
          (case dec_struct set_smart_field v False of
             (passed, ok) \<Rightarrow> if \<not> ok then ''unknown'' else if passed then ''passed'' else ''failed''))"

definition smart_status :: "st_env \<Rightarrow> string \<Rightarrow> string st" where
  "smart_status e device =
     px_bind (runNamed e ''smartctl'' [''-j'', ''-H'', device]) (\<lambda>(smart, err).
       case smart of
         None \<Rightarrow> px_fail StPanic
       | Some r \<Rightarrow>
           px_return (if err = None then parseSmartStatus (xr_Stdout r)
             else if Contains (ToLower (xr_Stderr r)) ''unavailable'' \<or> Contains (ToLower (xr_Stderr r)) ''unsupported''
             then ''unsupported'' else ''unknown''))"

fun inventory_disks :: "(float64 \<Rightarrow> nat) \<Rightarrow> st_env \<Rightarrow> lsblkNode list \<Rightarrow> Disk list st" where
  "inventory_disks huge e [] = px_return []"
| "inventory_disks huge e (n # ns) =
     (if ln_Type n \<noteq> ''disk'' then inventory_disks huge e ns
      else px_bind (smart_status e (''/dev/'' @ ln_Name n)) (\<lambda>smart.
           px_bind (inventory_disks huge e ns) (\<lambda>ds. px_return (node_disk huge n smart # ds))))"

definition Inventory :: "(float64 \<Rightarrow> nat) \<Rightarrow> st_env \<Rightarrow> Disk list st" where
  "Inventory huge e =
     px_bind (st_must ''disk.inventory lsblk'' (runNamed e ''lsblk''
         [''-J'', ''-b'', ''-o'', ''NAME,SIZE,ROTA,RM,TYPE,MOUNTPOINT,FSTYPE,SERIAL,MODEL,VENDOR,WWN''])) (\<lambda>res.
       case decode_lsblk (xr_Stdout res) of
         None \<Rightarrow> px_fail (StMsg ''disk.inventory parse lsblk'')
       | Some nodes \<Rightarrow> px_bind (inventory_disks huge e nodes) (\<lambda>ds. px_return (sort_key dk_Name ds)))"

definition opt_field :: "string \<Rightarrow> string \<Rightarrow> (string \<times> json) list" where
  "opt_field k s = (if s = [] then [] else [(k, JStr s)])"

definition json_nat :: "nat \<Rightarrow> json" where "json_nat n = JNum (nat_digits n)"

definition partition_json :: "Partition \<Rightarrow> json" where
  "partition_json p =
     JObj ([(''name'', JStr (pt_Name p)), (''device'', JStr (pt_Device p)), (''size_bytes'', json_nat (pt_SizeBytes p)),
            (''type'', JStr (pt_Type p))] @ opt_field ''mountpoint'' (pt_Mountpoint p) @ opt_field ''fstype'' (pt_FSType p))"

definition disk_json :: "Disk \<Rightarrow> json" where
  "disk_json d =
     JObj ([(''name'', JStr (dk_Name d)), (''device'', JStr (dk_Device d)), (''size_bytes'', json_nat (dk_SizeBytes d)),
            (''rotational'', JBool (dk_Rotational d)), (''removable'', JBool (dk_Removable d)), (''type'', JStr (dk_Type d))]
           @ opt_field ''mountpoint'' (dk_Mountpoint d) @ opt_field ''fstype'' (dk_FSType d)
           @ opt_field ''serial'' (dk_Serial d) @ opt_field ''model'' (dk_Model d) @ opt_field ''vendor'' (dk_Vendor d)
           @ opt_field ''wwn'' (dk_WWN d) @ opt_field ''smart_status'' (dk_SmartStatus d)
           @ [(''encrypted'', JBool (dk_Encrypted d)), (''locked'', JBool (dk_Locked d))]
           @ (if dk_Partitions d = [] then [] else [(''partitions'', JArr (map partition_json (dk_Partitions d)))]))"

definition inventory_text :: "Disk list \<Rightarrow> bytes" where
  "inventory_text ds = json_text (JObj [(''disks'', JArr (map disk_json ds))])"

subsection \<open>Formatting\<close>

text \<open>
  What the system answers: reading a file of the host after so many events, creating directories, writing, the
  answers of an HTTP server (to a request for a URL from an offset on), the system clock.
\<close>

datatype read_result = ReadOk bytes | ReadMissing | ReadFails

datatype http_answer = HttpFails | HttpStatus nat bytes bool

record st_io =
  si_read :: "nat \<Rightarrow> string \<Rightarrow> read_result"
  si_mkdir :: "string \<Rightarrow> bool"
  si_write :: "string \<Rightarrow> write_fault option"
  si_exists :: "string \<Rightarrow> bool"
  si_nodes :: nodes
  si_listing :: "string \<Rightarrow> string list option"
  si_http :: "string \<Rightarrow> nat \<Rightarrow> http_answer"
  si_truncate :: bool
  si_rename :: bool
  si_unix :: int
  si_sha :: "bytes \<Rightarrow> bytes"

definition read_host :: "st_io \<Rightarrow> string \<Rightarrow> read_result st" where
  "read_host io path w = (Inr (si_read io (length (px_events w)) path), w)"

definition supportedFSTypes :: "string list" where
  "supportedFSTypes = [''ext4'', ''xfs'', ''btrfs'']"

record FormatParams =
  fp_Device :: string
  fp_FSType :: string
  fp_Force :: bool
  fp_MountsPath :: string
  fp_FstabPath :: string

text \<open>The first field of each line that counts.\<close>

definition first_fields :: "(string \<Rightarrow> bool) \<Rightarrow> bytes \<Rightarrow> string list" where
  "first_fields skip data =
     concat (map (\<lambda>line. let l = TrimSpace line in
                    if l = [] \<or> skip l then [] else take 1 (Fields l)) (Split data newline))"

definition listed_in :: "(string \<Rightarrow> bool) \<Rightarrow> string \<Rightarrow> read_result \<Rightarrow> string list \<Rightarrow> st_error + string option" where
  "listed_in skip failure r devices =
     (case r of
        ReadMissing \<Rightarrow> Inr None
      | ReadFails \<Rightarrow> Inl (StSys failure)
      | ReadOk data \<Rightarrow> Inr (find (\<lambda>d. d \<in> set devices) (first_fields skip data)))"

definition isAnyMounted :: "read_result \<Rightarrow> string list \<Rightarrow> st_error + string option" where
  "isAnyMounted = listed_in (\<lambda>_. False) ''disk.format: read mounts''"

definition listedAnyInFstab :: "read_result \<Rightarrow> string list \<Rightarrow> st_error + string option" where
  "listedAnyInFstab = listed_in (\<lambda>l. HasPrefix l ''#'') ''disk.format: read fstab''"

definition refuse_listed ::
  "st_io \<Rightarrow> (read_result \<Rightarrow> string list \<Rightarrow> st_error + string option) \<Rightarrow> string \<Rightarrow> string list \<Rightarrow> (string \<Rightarrow> string) \<Rightarrow> unit st" where
  "refuse_listed io check path devices message =
     px_bind (read_host io path) (\<lambda>r. px_bind (px_lift (check r devices)) (\<lambda>found.
       case found of Some d \<Rightarrow> px_fail (StMsg (message d)) | None \<Rightarrow> px_return ()))"

definition children_of :: "lsblkNode list \<Rightarrow> string \<Rightarrow> string list" where
  "children_of nodes key =
     concat (map (\<lambda>n. if ln_Type n = ''disk'' \<and> ''/dev/'' @ ln_Name n = key then map ln_Name (ln_Children n) else []) nodes)"

definition listChildren :: "st_env \<Rightarrow> (string \<Rightarrow> string list) st" where
  "listChildren e =
     px_bind (st_must ''disk.format lsblk'' (runNamed e ''lsblk'' [''-J'', ''-o'', ''NAME,TYPE''])) (\<lambda>res.
       case decode_lsblk (xr_Stdout res) of
         None \<Rightarrow> px_fail (StMsg ''disk.format parse lsblk'')
       | Some nodes \<Rightarrow> px_return (children_of nodes))"

definition relatedDevices :: "string \<Rightarrow> string list \<Rightarrow> string list" where
  "relatedDevices diskDevice childNames =
     diskDevice # map (\<lambda>c. if HasPrefix c ''/dev/'' then c else ''/dev/'' @ c)
       (filter (\<lambda>c. c \<noteq> []) (map TrimSpace childNames))"

definition first_part :: "lsblkNode list \<Rightarrow> string \<Rightarrow> string option" where
  "first_part nodes diskName =
     (case find (\<lambda>n. ln_Name n = diskName \<and> ln_Type n = ''disk'') nodes of
        None \<Rightarrow> None
      | Some n \<Rightarrow> map_option ln_Name (find (\<lambda>c. ln_Type c = ''part'' \<and> ln_Name c \<noteq> []) (ln_Children n)))"

definition firstPartitionDevice :: "st_env \<Rightarrow> string \<Rightarrow> string st" where
  "firstPartitionDevice e diskDevice =
     px_bind (runNamed e ''lsblk'' [''-J'', ''-o'', ''NAME,TYPE'']) (\<lambda>(res, err).
       let fallback = (if HasPrefix diskDevice ''/dev/nvme'' \<or> HasPrefix diskDevice ''/dev/mmcblk''
                       then diskDevice @ ''p1'' else diskDevice @ ''1'')
       in px_return
         (case (err, res) of
            (None, Some r) \<Rightarrow>
              (case decode_lsblk (xr_Stdout r) of
                 None \<Rightarrow> fallback
               | Some nodes \<Rightarrow>
                   (case first_part nodes (TrimPrefix diskDevice ''/dev/'') of
                      Some name \<Rightarrow> ''/dev/'' @ name | None \<Rightarrow> fallback))
          | _ \<Rightarrow> fallback))"

text \<open>The destructive part, once every guard has passed.\<close>

definition wipe_and_make :: "st_env \<Rightarrow> string \<Rightarrow> string \<Rightarrow> unit st" where
  "wipe_and_make e fs device =
     px_bind (st_do ''disk.format wipefs'' (runNamed e ''wipefs'' [''-a'', device])) (\<lambda>_.
     px_bind (st_do ''disk.format parted'' (runNamed e ''parted''
         [''-s'', device, ''mklabel'', ''gpt'', ''mkpart'', ''primary'', ''0%'', ''100%''])) (\<lambda>_.
     px_bind (firstPartitionDevice e device) (\<lambda>target.
       st_do (''disk.format mkfs.'' @ fs) (Mkfs e fs [if fs = ''ext4'' then ''-F'' else ''-f'', target]))))"

definition format_guards :: "st_env \<Rightarrow> st_io \<Rightarrow> string \<Rightarrow> string \<Rightarrow> string \<Rightarrow> bool \<Rightarrow> unit st" where
  "format_guards e io mounts fstab device force =
     px_bind (refuse_listed io isAnyMounted mounts [device] (\<lambda>d. ''disk.format: refused: '' @ d @ '' is mounted'')) (\<lambda>_.
     px_bind (refuse_listed io listedAnyInFstab fstab [device]
         (\<lambda>d. ''disk.format: refused: '' @ d @ '' is still present in /etc/fstab'')) (\<lambda>_.
     px_bind (listChildren e) (\<lambda>children.
       let descendants = tl (relatedDevices device (children device)) in
       px_bind
         (if descendants = [] then px_return ()
          else px_bind (refuse_listed io isAnyMounted mounts descendants
                 (\<lambda>d. ''disk.format: refused: descendant '' @ d @ '' is mounted'')) (\<lambda>_.
               refuse_listed io listedAnyInFstab fstab descendants
                 (\<lambda>d. ''disk.format: refused: descendant '' @ d @ '' is present in /etc/fstab'')))
         (\<lambda>_. px_check (children device = [] \<or> force)
            (StMsg (''disk.format: refused: '' @ device @ '' has child partitions; force=true required''))
            (px_return ())))))"

definition mounts_of :: "FormatParams \<Rightarrow> string" where
  "mounts_of p = (if fp_MountsPath p = [] then ''/proc/mounts'' else fp_MountsPath p)"

definition fstab_of :: "FormatParams \<Rightarrow> string" where
  "fstab_of p = (if fp_FstabPath p = [] then ''/etc/fstab'' else fp_FstabPath p)"

definition Format :: "st_env \<Rightarrow> st_io \<Rightarrow> FormatParams \<Rightarrow> unit st" where
  "Format e io p =
     (let fs = ToLower (TrimSpace (fp_FSType p))
      in px_check (HasPrefix (fp_Device p) ''/dev/'' \<and> \<not> Contains (fp_Device p) ''..'')
           (StMsg ''disk.format: device must be absolute /dev path'')
         (px_check (fs \<in> set supportedFSTypes) (StMsg ''disk.format: unsupported fstype'')
         (px_bind (format_guards e io (mounts_of p) (fstab_of p) (fp_Device p) (fp_Force p)) (\<lambda>_.
            wipe_and_make e fs (fp_Device p)))))"

subsection \<open>Pass-through\<close>

definition id_chars :: "(char \<Rightarrow> bool) \<Rightarrow> string \<Rightarrow> bool" where
  "id_chars extra s \<longleftrightarrow> s \<noteq> [] \<and> list_all (\<lambda>c. url_letter c \<or> url_digit c \<or> c \<in> set ''._-'' \<or> extra c) s"

definition byIDPattern :: "string \<Rightarrow> bool" where
  "byIDPattern = id_chars (\<lambda>c. c = CHR '':'')"

definition importIDPattern :: "string \<Rightarrow> bool" where
  "importIDPattern = id_chars (\<lambda>_. False)"

definition strip_wwn :: "string \<Rightarrow> string" where
  "strip_wwn s = TrimPrefix (TrimPrefix s ''wwn-'') ''0x''"

definition names_disk :: "string \<Rightarrow> string \<Rightarrow> bool" where
  "names_disk needle name =
     (let n = ToLower name in
      HasPrefix n ''wwn-'' \<and> \<not> Contains n ''-part'' \<and> (strip_wwn n = strip_wwn needle \<or> n = needle))"

record PassthroughResult =
  pr_WWN :: string
  pr_ByIDPath :: string
  pr_CanonicalPath :: string

definition Passthrough :: "st_io \<Rightarrow> string \<Rightarrow> string \<Rightarrow> PassthroughResult st" where
  "Passthrough io wwn byIDDir =
     (let dir = (if byIDDir = [] then ''/dev/disk/by-id'' else byIDDir) in
      px_check (byIDPattern wwn) (StMsg ''disk.passthrough: invalid wwn'')
        (case si_listing io dir of
           None \<Rightarrow> px_fail (StSys ''disk.passthrough: read by-id dir'')
         | Some names \<Rightarrow>
             (case find (names_disk (ToLower wwn)) (sort names) of
                None \<Rightarrow> px_fail (StMsg (''disk.passthrough: no by-id entry found for '' @ wwn))
              | Some name \<Rightarrow>
                  (let link = JoinPath [dir, name] in
                   case EvalSymlinks (si_nodes io) link of
                     None \<Rightarrow> px_fail (StSys (''disk.passthrough: resolve '' @ link))
                   | Some target \<Rightarrow>
                       px_check (HasPrefix target ''/dev/'')
                         (StMsg (''disk.passthrough: resolved target is not /dev path: '' @ target))
                         (px_return \<lparr>pr_WWN = wwn, pr_ByIDPath = link, pr_CanonicalPath = target\<rparr>)))))"

definition passthrough_text :: "PassthroughResult \<Rightarrow> bytes" where
  "passthrough_text r = json_text (JObj [(''wwn'', JStr (pr_WWN r)), (''by_id_path'', JStr (pr_ByIDPath r)),
     (''canonical_path'', JStr (pr_CanonicalPath r))])"

subsection \<open>Importing an image\<close>

record ImportImageParams =
  ip_ID :: string
  ip_SourceURL :: string
  ip_AllowedHosts :: "string list"
  ip_SourceFormat :: string
  ip_Destination :: string
  ip_StorageRoot :: string

record ImportImageResult =
  ir_DownloadedPath :: string
  ir_Destination :: string
  ir_SHA256 :: string
  ir_Resumed :: bool

definition validateAllowlistedURL :: "string \<Rightarrow> string list \<Rightarrow> st_error option" where
  "validateAllowlistedURL rawURL allowlist =
     (case ParseURL rawURL of
        None \<Rightarrow> Some (StMsg ''disk.import-image invalid source_url'')
      | Some (scheme, hostPort) \<Rightarrow>
          if scheme \<noteq> ''http'' \<and> scheme \<noteq> ''https''
          then Some (StMsg ''disk.import-image source_url scheme must be http/https'')
          else if allowlist = [] then Some (StMsg ''disk.import-image allowlist required'')
          else if ToLower (Hostname hostPort) \<in> set (map (\<lambda>a. ToLower (TrimSpace a)) allowlist) then None
          else Some (StMsg ''disk.import-image source_url host not in allowlist''))"

definition sanitizeImportID :: "st_io \<Rightarrow> string \<Rightarrow> st_error + string" where
  "sanitizeImportID io value =
     (let id = (if TrimSpace value = [] then ''import-'' @ Itoa (si_unix io) else TrimSpace value)
      in if importIDPattern id then Inr id else Inl (StMsg ''disk.import-image: id contains unsafe characters''))"

text \<open>The relative path from a root to a cleaned path starts with \<open>..\<close> exactly if the root's parts are no prefix.\<close>

definition resolvePathWithinRoot :: "st_io \<Rightarrow> string \<Rightarrow> string \<Rightarrow> st_error + string" where
  "resolvePathWithinRoot io storageRoot requested =
     (let rootClean = Clean (TrimSpace storageRoot); req = TrimSpace requested in
      if rootClean = ''.'' \<or> \<not> HasPrefix rootClean [slash]
      then Inl (StMsg ''disk.import-image: storage_root must be an absolute path'')
      else if req = [] then Inl (StMsg ''disk.import-image: destination is required'')
      else let candidate = (if HasPrefix req [slash] then Clean req else Clean (JoinPath [rootClean, req])) in
        if \<not> prefix (path_parts rootClean) (path_parts candidate)
        then Inl (StMsg ''disk.import-image: destination escapes storage root'')
        else if HasPrefix candidate ''/dev/'' then Inl (StMsg ''disk.import-image: destination cannot target /dev'')
        else if \<not> si_mkdir io (Dir candidate) then Inl (StSys ''disk.import-image: mkdir destination parent'')
        else Inr candidate)"

definition partial_content :: "px_world \<Rightarrow> string \<Rightarrow> bytes" where
  "partial_content w path = (case px_files w path of Some c \<Rightarrow> c | None \<Rightarrow> [])"

definition set_file :: "string \<Rightarrow> bytes option \<Rightarrow> px_world \<Rightarrow> px_world" where
  "set_file path c w = w\<lparr>px_files := (px_files w)(path := c)\<rparr>"

definition resumeDownload :: "st_io \<Rightarrow> string \<Rightarrow> string \<Rightarrow> (string \<times> bool) st" where
  "resumeDownload io rawURL path w =
     (let old = partial_content w path; offset = length old; w1 = set_file path (Some old) w in
      if si_write io path = Some FCreate then (Inl (StSys ''disk.import-image open target''), w)
      else case si_http io rawURL offset of
          HttpFails \<Rightarrow> (Inl (StSys ''disk.import-image download''), w1)
        | HttpStatus status body whole \<Rightarrow>
            if status \<noteq> 200 \<and> status \<noteq> 206 then (Inl (StMsg (''disk.import-image unexpected http status '' @ nat_digits status)), w1)
            else let restart = (offset > 0 \<and> status = 200); content = (if restart then [] else old) @ body;
                     w2 = set_file path (Some content) w in
              if restart \<and> \<not> si_truncate io then (Inl (StSys ''disk.import-image reset partial''), w1)
              else if \<not> whole then (Inl (StSys ''disk.import-image write body''), w2)
              else (Inr (EncodeToString (si_sha io content), offset > 0 \<and> status = 206), w2))"

definition fmtLower :: "string \<Rightarrow> string" where
  "fmtLower v = ToLower (TrimSpace v)"

definition place_image :: "st_env \<Rightarrow> st_io \<Rightarrow> string \<Rightarrow> string \<Rightarrow> string \<Rightarrow> string st" where
  "place_image e io format partialPath destinationPath =
     (if format \<noteq> [] \<and> format \<noteq> ''raw'' then
        px_bind (st_do ''disk.import-image qemu-img convert'' (runNamed e ''qemu-img''
          [''convert'', ''-f'', format, ''-O'', ''raw'', partialPath, destinationPath])) (\<lambda>_. px_return destinationPath)
      else if partialPath \<noteq> destinationPath then
        (\<lambda>w. if si_rename io
             then (Inr destinationPath, set_file partialPath None (set_file destinationPath (px_files w partialPath) w))
             else (Inl (StSys ''disk.import-image move destination''), w))
      else px_return partialPath)"

definition partial_path :: "string \<Rightarrow> string \<Rightarrow> string" where
  "partial_path storageRoot importID = JoinPath [JoinPath [storageRoot, ''imports''], importID @ ''.part'']"

definition ImportImage :: "st_env \<Rightarrow> st_io \<Rightarrow> ImportImageParams \<Rightarrow> ImportImageResult st" where
  "ImportImage e io p =
     (let storageRoot = (if ip_StorageRoot p = [] then ''/var/lib/pmx-cloud/storage'' else ip_StorageRoot p) in
      px_check (ip_SourceURL p \<noteq> [] \<and> ip_Destination p \<noteq> [])
        (StMsg ''disk.import-image: source_url and destination are required'')
      (case validateAllowlistedURL (ip_SourceURL p) (ip_AllowedHosts p) of
         Some err \<Rightarrow> px_fail err
       | None \<Rightarrow>
           px_check (si_mkdir io storageRoot) (StSys ''disk.import-image: mkdir storage_root'')
           (px_bind (px_lift (sanitizeImportID io (ip_ID p))) (\<lambda>importID.
            px_check (si_mkdir io (JoinPath [storageRoot, ''imports''])) (StSys ''disk.import-image: mkdir imports dir'')
           (px_bind (px_lift (resolvePathWithinRoot io storageRoot (ip_Destination p))) (\<lambda>destinationPath.
            px_bind (resumeDownload io (ip_SourceURL p) (partial_path storageRoot importID)) (\<lambda>(hash, resumed).
            px_bind (place_image e io (fmtLower (ip_SourceFormat p)) (partial_path storageRoot importID) destinationPath) (\<lambda>src.
              px_return \<lparr>ir_DownloadedPath = src, ir_Destination = destinationPath, ir_SHA256 = hash,
                         ir_Resumed = resumed\<rparr>))))))))"

definition import_text :: "ImportImageResult \<Rightarrow> bytes" where
  "import_text r = json_text (JObj [(''downloaded_path'', JStr (ir_DownloadedPath r)), (''destination'', JStr (ir_Destination r)),
     (''sha256'', JStr (ir_SHA256 r)), (''resumed'', JBool (ir_Resumed r))])"

subsection \<open>A formatted disk is not in use\<close>

lemma px_bind_InrE:
  assumes "px_bind m k w = (Inr y, w')"
  obtains x w1 where "m w = (Inr x, w1)" "k x w1 = (Inr y, w')"
  using assms by (auto simp: px_bind_def split: prod.splits sum.splits)

lemma px_check_InrE:
  assumes "px_check ok e m w = (Inr y, w')"
  obtains ok "m w = (Inr y, w')"
  using assms by (auto simp: px_check_def px_fail_def split: if_splits)

text \<open>A file was read and does not list the device, or there is none.\<close>

definition unlisted :: "(string \<Rightarrow> bool) \<Rightarrow> read_result \<Rightarrow> string \<Rightarrow> bool" where
  "unlisted skip r dev \<longleftrightarrow> (case r of ReadOk data \<Rightarrow> dev \<notin> set (first_fields skip data) | ReadMissing \<Rightarrow> True | ReadFails \<Rightarrow> False)"

abbreviation unmounted :: "st_io \<Rightarrow> nat \<Rightarrow> string \<Rightarrow> string \<Rightarrow> bool" where
  "unmounted io n path dev \<equiv> unlisted (\<lambda>_. False) (si_read io n path) dev"

abbreviation not_in_fstab :: "st_io \<Rightarrow> nat \<Rightarrow> string \<Rightarrow> string \<Rightarrow> bool" where
  "not_in_fstab io n path dev \<equiv> unlisted (\<lambda>l. HasPrefix l ''#'') (si_read io n path) dev"

lemma listed_in_None: "listed_in skip failure r devices = Inr None \<Longrightarrow> d \<in> set devices \<Longrightarrow> unlisted skip r d"
  by (auto simp: listed_in_def unlisted_def find_None_iff split: read_result.splits)

lemma refuse_listed_Inr:
  assumes "refuse_listed io (listed_in skip failure) path devices message w = (Inr u, w1)"
  shows "w1 = w \<and> (\<forall>d \<in> set devices. unlisted skip (si_read io (length (px_events w)) path) d)"
  using assms listed_in_None [of skip failure "si_read io (length (px_events w)) path" devices]
  by (auto simp: refuse_listed_def px_bind_def read_host_def px_lift_def px_fail_def px_return_def
      split: sum.splits option.splits)

definition first_lsblk :: "st_env \<Rightarrow> px_world \<Rightarrow> lsblkNode list \<Rightarrow> bool" where
  "first_lsblk e w nodes \<longleftrightarrow>
     (\<exists>path. map_of (exec_paths e) ''lsblk'' = Some path \<and>
        decode_lsblk (pa_stdout (sx_host e (length (filter is_run (px_events w))) path [''-J'', ''-o'', ''NAME,TYPE''])) = Some nodes)"

lemma listChildren_Inr:
  assumes "listChildren e w = (Inr ch, w1)"
  shows "\<exists>nodes. ch = children_of nodes \<and> first_lsblk e w nodes \<and> length (px_events w1) = length (px_events w) + 3"
proof -
  let ?args = "[''-J'', ''-o'', ''NAME,TYPE'']"
  from assms obtain res w0 where res: "st_must ''disk.format lsblk'' (runNamed e ''lsblk'' ?args) w = (Inr res, w0)"
    "(case decode_lsblk (xr_Stdout res) of None \<Rightarrow> px_fail (StMsg ''disk.format parse lsblk'') | Some nodes \<Rightarrow> px_return (children_of nodes)) w0 = (Inr ch, w1)"
    unfolding listChildren_def by (rule px_bind_InrE)
  show ?thesis
  proof (cases rule: runNamed_cases [of e "''lsblk''" ?args w])
    case (refused err)
    with res(1) show ?thesis by (simp add: st_must_def px_bind_def px_fail_def)
  next
    case (run path a)
    with res(1) have "xr_Stdout res = pa_stdout a" "w0 = w\<lparr>px_events := px_events w @ run_events (sx_JobID e) ''lsblk'' path ?args a\<rparr>"
      by (auto simp: st_must_def px_bind_def run_outcome_def px_fail_def px_return_def split: option.splits)
    with res(2) run show ?thesis
      by (auto simp: first_lsblk_def px_fail_def px_return_def run_events_def split: option.splits)
  qed
qed

text \<open>The guards: the disk and what \<open>lsblk\<close> lists directly below it are in neither file, and it is bare or \<open>force\<close> was given.\<close>

definition guarded_disk :: "st_env \<Rightarrow> st_io \<Rightarrow> string \<Rightarrow> string \<Rightarrow> string \<Rightarrow> bool \<Rightarrow> px_world \<Rightarrow> bool" where
  "guarded_disk e io mounts fstab device force w \<longleftrightarrow>
     (let n = length (px_events w) in
      unmounted io n mounts device \<and> not_in_fstab io n fstab device \<and>
      (\<exists>nodes. first_lsblk e w nodes \<and> (children_of nodes device = [] \<or> force) \<and>
         (\<forall>d \<in> set (tl (relatedDevices device (children_of nodes device))).
            unmounted io (n + 3) mounts d \<and> not_in_fstab io (n + 3) fstab d)))"

lemma format_guards_Inr:
  assumes "format_guards e io mounts fstab device force w = (Inr u, w1)"
  shows "guarded_disk e io mounts fstab device force w"
proof -
  from assms obtain ch w2 where direct: "unmounted io (length (px_events w)) mounts device" "not_in_fstab io (length (px_events w)) fstab device"
    and ch: "listChildren e w = (Inr ch, w2)"
    and rest: "(let descendants = tl (relatedDevices device (ch device)) in px_bind
         (if descendants = [] then px_return ()
          else px_bind (refuse_listed io isAnyMounted mounts descendants (\<lambda>d. ''disk.format: refused: descendant '' @ d @ '' is mounted'')) (\<lambda>_.
               refuse_listed io listedAnyInFstab fstab descendants (\<lambda>d. ''disk.format: refused: descendant '' @ d @ '' is present in /etc/fstab'')))
         (\<lambda>_. px_check (ch device = [] \<or> force) (StMsg (''disk.format: refused: '' @ device @ '' has child partitions; force=true required''))
            (px_return ()))) w2 = (Inr u, w1)"
    unfolding format_guards_def isAnyMounted_def listedAnyInFstab_def
    by (elim px_bind_InrE) (auto dest!: refuse_listed_Inr)
  from listChildren_Inr [OF ch] obtain nodes where nodes: "ch = children_of nodes" "first_lsblk e w nodes"
    "length (px_events w2) = length (px_events w) + 3" by blast
  have "unmounted io (length (px_events w2)) mounts d \<and> not_in_fstab io (length (px_events w2)) fstab d"
    if d: "d \<in> set (tl (relatedDevices device (ch device)))" for d
  proof -
    from d have "tl (relatedDevices device (ch device)) \<noteq> []" by auto
    with rest d show ?thesis
      unfolding Let_def isAnyMounted_def listedAnyInFstab_def if_False
      by (simp only: if_False simp_thms) (auto elim!: px_bind_InrE dest!: refuse_listed_Inr)
  qed
  moreover have "ch device = [] \<or> force"
    using rest unfolding Let_def by (elim px_bind_InrE px_check_InrE)
  ultimately show ?thesis using direct nodes unfolding guarded_disk_def Let_def by auto
qed

lemma guards_only_list:
  "st_ok e (\<lambda>name _. name = ''lsblk'') (format_guards e io mounts fstab device force)"
proof -
  have "st_ok e (\<lambda>name _. name = ''lsblk'') (refuse_listed io check path devices msg)" for check path devices msg
    unfolding refuse_listed_def
    by (intro st_rules storage.traces_bind; simp add: read_host_def storage.traces_silent)
  then show ?thesis
    unfolding format_guards_def listChildren_def Let_def by (intro st_rules storage.traces_bind refl)
qed

lemma Format_destructive:
  assumes "Format e io p w = (r, w')" and "px_events w' = px_events w @ es" and "PxRun b args \<in> set es"
    and "map_of (exec_paths e) ''lsblk'' \<noteq> Some b"
  shows "HasPrefix (fp_Device p) ''/dev/'' \<and> \<not> Contains (fp_Device p) ''..'' \<and>
    guarded_disk e io (mounts_of p) (fstab_of p) (fp_Device p) (fp_Force p) w"
proof -
  let ?g = "format_guards e io (mounts_of p) (fstab_of p) (fp_Device p) (fp_Force p)"
  have checks: "HasPrefix (fp_Device p) ''/dev/'' \<and> \<not> Contains (fp_Device p) ''..''"
    and run: "px_bind ?g (\<lambda>_. wipe_and_make e (ToLower (TrimSpace (fp_FSType p))) (fp_Device p)) w = (r, w')"
    using assms(1-3) by (auto simp: Format_def Let_def px_check_def px_fail_def split: if_splits)
  obtain x w1 where g: "?g w = (x, w1)" by (cases "?g w")
  show ?thesis
  proof (cases x)
    case (Inl err)
    with run g have "w' = w1" by (simp add: px_bind_def)
    moreover obtain fs where fs: "px_events w1 = px_events w @ fs"
      "\<forall>b args. PxRun b args \<in> set fs \<longrightarrow> allowed_run e (\<lambda>name _. name = ''lsblk'') b args"
      using guards_only_list [of e io "mounts_of p" "fstab_of p" "fp_Device p" "fp_Force p"] g
      unfolding storage.traces_def by (metis snd_conv)
    ultimately have "allowed_run e (\<lambda>name _. name = ''lsblk'') b args" using assms(2,3) by simp
    with assms(4) show ?thesis by (auto simp: allowed_run_def)
  next
    case (Inr u)
    with g checks format_guards_Inr show ?thesis by blast
  qed
qed

text \<open>
  C4: nothing is written to a disk that is in use. If \<open>disk.format\<close> runs any tool other than \<open>lsblk\<close>, then the device is a
  path below \<open>/dev\<close> without \<open>..\<close>, \<open>/proc/mounts\<close> and \<open>/etc/fstab\<close> could be read (or do not exist) and list neither the device
  nor anything \<open>lsblk\<close> shows directly below it, and the disk has no children unless \<open>force\<close> was given.
\<close>

theorem format_spares_listed_devices:
  assumes "Format e io p w = (r, w')" and "px_events w' = px_events w @ es" and "PxRun b args \<in> set es"
    and "map_of (exec_paths e) ''lsblk'' \<noteq> Some b"
  shows "HasPrefix (fp_Device p) ''/dev/'' \<and> \<not> Contains (fp_Device p) ''..'' \<and>
    (let n = length (px_events w); mounts = mounts_of p; fstab = fstab_of p; device = fp_Device p in
     unmounted io n mounts device \<and> not_in_fstab io n fstab device \<and>
     (\<exists>nodes. first_lsblk e w nodes \<and> (children_of nodes device = [] \<or> fp_Force p) \<and>
        (\<forall>d \<in> set (tl (relatedDevices device (children_of nodes device))).
           unmounted io (n + 3) mounts d \<and> not_in_fstab io (n + 3) fstab d)))"
  using Format_destructive [OF assms] by (simp add: guarded_disk_def Let_def)

definition nested_json :: json where
  "nested_json = JObj [(''blockdevices'', JArr [JObj [(''name'', JStr ''sda''), (''type'', JStr ''disk''),
     (''children'', JArr [JObj [(''name'', JStr ''sda3''), (''type'', JStr ''part''),
        (''children'', JArr [JObj [(''name'', JStr ''pve-root''), (''type'', JStr ''lvm'')]])]])]])]"

definition nested_env :: st_env where
  "nested_env =
     \<lparr>sx_stat = (\<lambda>p. Some (False, 493)), sx_Paths = None, sx_AllowedBinaries = None, sx_JobID = ''j'',
      sx_host = (\<lambda>_ b _. \<lparr>pa_stdout = (if b = ''/sbin/lsblk'' then json_text nested_json else []), pa_stderr = [],
                   pa_end = Exited 0, pa_deadline = False, pa_text = []\<rparr>)\<rparr>"

definition nested_io :: st_io where
  "nested_io =
     \<lparr>si_read = (\<lambda>_ p. if p = ''/proc/mounts'' then ReadOk ''/dev/mapper/pve-root / ext4 rw 0 0'' else ReadMissing),
      si_mkdir = (\<lambda>_. True), si_write = (\<lambda>_. None), si_exists = (\<lambda>_. True), si_nodes = Map.empty, si_listing = (\<lambda>_. None),
      si_http = (\<lambda>_ _. HttpFails), si_truncate = True, si_rename = True, si_unix = 0, si_sha = (\<lambda>b. b)\<rparr>"

definition wipe_sda :: "bool \<Rightarrow> FormatParams" where
  "wipe_sda force = \<lparr>fp_Device = ''/dev/sda'', fp_FSType = ''ext4'', fp_Force = force, fp_MountsPath = [], fp_FstabPath = []\<rparr>"

definition nested_nodes :: "lsblkNode list" where
  "nested_nodes =
     (let node = (\<lambda>name ty cs. LsblkNode name ANil ANil ANil ty ANil ANil ANil ANil ANil ANil cs)
      in [node ''sda'' ''disk'' [node ''sda3'' ''part'' [node ''pve-root'' ''lvm'' []]]])"

lemma lsblk_keys:
  "fold_name (unquote (json_escape ''name'')) = ''NAME''" "fold_name (unquote (json_escape ''type'')) = ''TYPE''"
  "fold_name (unquote (json_escape ''children'')) = ''CHILDREN''"
  "fold_name (unquote (json_escape ''blockdevices'')) = ''BLOCKDEVICES''"
  by (simp_all add: unquote_ascii fold_name_ascii byte_in_def char_of_def bit_0 del: fold_name.simps(2))

lemma dec_node_plain:
  assumes "utf8_valid n" and "utf8_valid t"
  shows "dec_node (LObj [(json_escape ''name'', LStr (json_escape n)), (json_escape ''type'', LStr (json_escape t)),
      (json_escape ''children'', LArr vs)]) =
    (LsblkNode n ANil ANil ANil t ANil ANil ANil ANil ANil ANil (map (\<lambda>v. fst (dec_node v)) vs), list_all (\<lambda>v. snd (dec_node v)) vs)"
  and "dec_node (LObj [(json_escape ''name'', LStr (json_escape n)), (json_escape ''type'', LStr (json_escape t))]) =
    (LsblkNode n ANil ANil ANil t ANil ANil ANil ANil ANil ANil [], True)"
  using assms by (simp_all add: lsblk_keys zero_node_def dec_str_def unquote_escape list_all_length)

lemma nested_decode: "decode_lsblk (json_text nested_json) = Some nested_nodes"
proof -
  have "json_lit (json_text nested_json) = Some (json_lits nested_json)"
    by (rule json_lit_text) (simp add: nested_json_def max_depth_def)
  moreover have "dec_struct set_lsblk_field (json_lits nested_json) [] = (nested_nodes, True)"
    by (simp add: nested_json_def nested_nodes_def dec_struct_def set_lsblk_field_def dec_slice_def lsblk_keys dec_node_plain
        utf8_valid_ascii del: dec_node.simps)
  ultimately show ?thesis by (simp add: decode_lsblk_def)
qed

lemma nested_tables: "exec_paths nested_env = DefaultBinaryPaths" "exec_allowed nested_env = map snd DefaultBinaryPaths"
  by code_simp+

definition nested_answer :: "string \<Rightarrow> proc_answer" where
  "nested_answer b = \<lparr>pa_stdout = (if b = ''/sbin/lsblk'' then json_text nested_json else []), pa_stderr = [],
     pa_end = Exited 0, pa_deadline = False, pa_text = []\<rparr>"

lemma nested_host: "sx_host nested_env n b args = nested_answer b" "sx_JobID nested_env = ''j''"
  "pa_end (nested_answer b) = Exited 0"
  by (simp_all add: nested_env_def nested_answer_def)

lemma nested_run:
  assumes "map_of DefaultBinaryPaths name = Some path" and "TrimSpace path \<noteq> []" and "list_all IsSafeArg args"
  shows "runNamed nested_env name args w =
    (Inr (Some \<lparr>xr_Stdout = pa_stdout (nested_answer path), xr_Stderr = [], xr_ExitCode = 0\<rparr>, None),
     w\<lparr>px_events := px_events w @ run_events ''j'' name path args (nested_answer path)\<rparr>)"
proof -
  have "path \<in> snd ` set DefaultBinaryPaths" using map_of_SomeD [OF assms(1)] by force
  moreover have "validateArgs args = None" using assms(3) by (simp add: validateArgs_def find_safe)
  ultimately show ?thesis
    using assms(1,2)
    by (simp add: runNamed_def nested_tables nested_host run_outcome_def st_exit_def run_error_def) (simp add: nested_answer_def)
qed

lemma nested_paths:
  "map_of DefaultBinaryPaths ''lsblk'' = Some ''/sbin/lsblk''" "map_of DefaultBinaryPaths ''wipefs'' = Some ''/sbin/wipefs''"
  "map_of DefaultBinaryPaths ''parted'' = Some ''/sbin/parted''" "map_of DefaultBinaryPaths ''mkfs.ext4'' = Some ''/sbin/mkfs.ext4''"
  by (simp_all add: DefaultBinaryPaths_def)

lemma nested_texts:
  "TrimSpace ''/sbin/lsblk'' \<noteq> []" "TrimSpace ''/sbin/wipefs'' \<noteq> []" "TrimSpace ''/sbin/parted'' \<noteq> []" "TrimSpace ''/sbin/mkfs.ext4'' \<noteq> []"
  "TrimSpace ''ext4'' = ''ext4''" "TrimSpace ''sda3'' = ''sda3''"
  by (simp_all add: TrimSpace_plain plain_def plain_char_def)

lemma nested_args:
  "list_all IsSafeArg [''-J'', ''-o'', ''NAME,TYPE'']" "list_all IsSafeArg [''-a'', ''/dev/sda'']"
  "list_all IsSafeArg [''-s'', ''/dev/sda'', ''mklabel'', ''gpt'', ''mkpart'', ''primary'', ''0%'', ''100%'']"
  "list_all IsSafeArg [''-F'', ''/dev/sda3'']"
  by (simp_all add: IsSafeArg_def ContainsAny_def unsafe_chars_def)

lemma nested_mounts: "first_fields skip' ''/dev/mapper/pve-root / ext4 rw 0 0'' \<in> {[], [''/dev/mapper/pve-root'']}"
proof -
  have "first_fields (\<lambda>_. False) ''/dev/mapper/pve-root / ext4 rw 0 0'' = [''/dev/mapper/pve-root'']" by code_simp
  then show ?thesis by (auto simp: first_fields_def Let_def newline_def split: if_splits)
qed

lemma nested_guards:
  "format_guards nested_env nested_io ''/proc/mounts'' ''/etc/fstab'' ''/dev/sda'' True w =
     (Inr (), w\<lparr>px_events := px_events w @ run_events ''j'' ''lsblk'' ''/sbin/lsblk'' [''-J'', ''-o'', ''NAME,TYPE'']
        (nested_answer ''/sbin/lsblk'')\<rparr>)"
proof -
  have mounted: "isAnyMounted (si_read nested_io n ''/proc/mounts'') devices = Inr None"
    if "''/dev/mapper/pve-root'' \<notin> set devices" for n devices
    using that nested_mounts [of "\<lambda>_. False"]
    by (auto simp: isAnyMounted_def listed_in_def nested_io_def find_None_iff)
  have fstab: "listedAnyInFstab (si_read nested_io n ''/etc/fstab'') devices = Inr None" for n devices
    by (simp add: listedAnyInFstab_def listed_in_def nested_io_def)
  have pass: "refuse_listed nested_io isAnyMounted ''/proc/mounts'' devices msg v = (Inr (), v)"
    if "''/dev/mapper/pve-root'' \<notin> set devices" for devices msg v
    using mounted [OF that] by (simp add: refuse_listed_def px_bind_def read_host_def px_lift_def px_return_def)
  have pass': "refuse_listed nested_io listedAnyInFstab ''/etc/fstab'' devices msg v = (Inr (), v)" for devices msg v
    using fstab by (simp add: refuse_listed_def px_bind_def read_host_def px_lift_def px_return_def)
  have kids: "children_of nested_nodes ''/dev/sda'' = [''sda3'']" by (simp add: children_of_def nested_nodes_def)
  have list: "listChildren nested_env w = (Inr (children_of nested_nodes), w\<lparr>px_events := px_events w @
      run_events ''j'' ''lsblk'' ''/sbin/lsblk'' [''-J'', ''-o'', ''NAME,TYPE''] (nested_answer ''/sbin/lsblk'')\<rparr>)"
    using nested_run [OF nested_paths(1) nested_texts(1) nested_args(1)] nested_decode
    by (simp add: listChildren_def st_must_def px_bind_def px_return_def nested_answer_def)
  have "tl (relatedDevices ''/dev/sda'' [''sda3'']) = [''/dev/sda3'']"
    by (simp add: relatedDevices_def nested_texts HasPrefix_def)
  then show ?thesis
    by (simp add: format_guards_def px_bind_def pass pass' list kids px_check_def px_return_def Let_def)
qed

lemma wipe_sda_runs:
  "\<exists>w'. Format nested_env nested_io (wipe_sda True) \<lparr>px_events = [], px_files = Map.empty\<rparr> = (Inr (), w') \<and>
     PxRun ''/sbin/wipefs'' [''-a'', ''/dev/sda''] \<in> set (px_events w')"
proof -
  have part: "first_part nested_nodes ''sda'' = Some ''sda3''" by (simp add: first_part_def nested_nodes_def)
  have fmt: "ToLower ''ext4'' = ''ext4''" by (simp add: ToLower_ascii byte_in_def del: ToLower.simps(2))
  have mk: "runNamed nested_env (''mkfs.'' @ TrimSpace ''ext4'') = runNamed nested_env ''mkfs.ext4''" by (simp add: nested_texts)
  have target: "firstPartitionDevice nested_env ''/dev/sda'' w = (Inr ''/dev/sda3'', w\<lparr>px_events := px_events w @
      run_events ''j'' ''lsblk'' ''/sbin/lsblk'' [''-J'', ''-o'', ''NAME,TYPE''] (nested_answer ''/sbin/lsblk'')\<rparr>)" for w
    using nested_run [OF nested_paths(1) nested_texts(1) nested_args(1)] nested_decode part
    by (simp add: firstPartitionDevice_def px_bind_def px_return_def nested_answer_def TrimPrefix_def HasPrefix_def Let_def)
  show ?thesis
    by (simp add: Format_def wipe_sda_def mounts_of_def fstab_of_def px_check_def px_bind_def nested_guards wipe_and_make_def Mkfs_def
        mk fmt target nested_texts nested_run [OF nested_paths(2) nested_texts(2) nested_args(2)]
        nested_run [OF nested_paths(3) nested_texts(3) nested_args(3)] nested_run [OF nested_paths(4) nested_texts(4) nested_args(4)]
        st_do_def st_must_def px_return_def supportedFSTypes_def HasPrefix_def run_events_def Contains_def Let_def del: ToLower.simps(2))
qed

lemma nested_first_lsblk: "first_lsblk nested_env w nested_nodes"
  using nested_decode by (simp add: first_lsblk_def nested_tables nested_host nested_paths nested_answer_def)

theorem format_spares_listed_devices_witness:
  "\<exists>w'. Format nested_env nested_io (wipe_sda True) \<lparr>px_events = [], px_files = Map.empty\<rparr> = (Inr (), w') \<and>
     unmounted nested_io 0 ''/proc/mounts'' ''/dev/sda''"
proof -
  obtain w' where run: "Format nested_env nested_io (wipe_sda True) \<lparr>px_events = [], px_files = Map.empty\<rparr> = (Inr (), w')"
    "PxRun ''/sbin/wipefs'' [''-a'', ''/dev/sda''] \<in> set (px_events w')" using wipe_sda_runs by blast
  have "map_of (exec_paths nested_env) ''lsblk'' \<noteq> Some ''/sbin/wipefs''" by (simp add: nested_tables nested_paths)
  from format_spares_listed_devices [OF run(1) _ run(2) this] run(1) show ?thesis
    by (auto simp: mounts_of_def wipe_sda_def Let_def)
qed


subsection \<open>An imported image is the served one\<close>

text \<open>
  What a correct server of \<open>obj\<close> may answer to a request from an offset on: a failure, any other status, or a full or
  partial response that is cut short unless it is whole.
\<close>

definition serves :: "bytes \<Rightarrow> nat \<Rightarrow> http_answer \<Rightarrow> bool" where
  "serves obj off a \<longleftrightarrow>
     (case a of
        HttpFails \<Rightarrow> True
      | HttpStatus status body whole \<Rightarrow>
          (status = 200 \<longrightarrow> prefix body obj \<and> (whole \<longrightarrow> body = obj)) \<and>
          (status = 206 \<longrightarrow> prefix body (drop off obj) \<and> (whole \<longrightarrow> body = drop off obj)))"

lemma resume_content:
  assumes "serves obj (length old) (HttpStatus status body whole)" and "prefix old obj" and "status = 200 \<or> status = 206"
  defines "content \<equiv> (if 0 < length old \<and> status = 200 then [] else old) @ body"
  shows "prefix content obj \<and> (whole \<longrightarrow> content = obj)"
proof -
  obtain rest where rest: "obj = old @ rest" using assms(2) by (auto simp: prefix_def)
  then have "status = 206 \<Longrightarrow> prefix body rest \<and> (whole \<longrightarrow> body = rest)"
    and "status = 200 \<Longrightarrow> prefix body obj \<and> (whole \<longrightarrow> body = obj)"
    using assms(1) by (auto simp: serves_def)
  then show ?thesis using assms(3) rest unfolding content_def by auto
qed

lemma resumeDownload_prefix:
  assumes "resumeDownload io url path w = (r, w')" and "prefix (partial_content w path) obj"
    and "serves obj (length (partial_content w path)) (si_http io url (length (partial_content w path)))"
  shows "prefix (partial_content w' path) obj \<and> (\<forall>f. f \<noteq> path \<longrightarrow> px_files w' f = px_files w f) \<and>
    (\<forall>h b. r = Inr (h, b) \<longrightarrow> px_files w' path = Some obj \<and> h = EncodeToString (si_sha io obj))"
proof (cases "si_http io url (length (partial_content w path))")
  case HttpFails
  with assms(1,2) show ?thesis
    by (auto simp: resumeDownload_def Let_def set_file_def partial_content_def split: if_splits)
next
  case (HttpStatus status body whole)
  note body = resume_content [of obj "partial_content w path" status body whole]
  show ?thesis
    using assms HttpStatus body
    by (auto simp: resumeDownload_def Let_def set_file_def partial_content_def split: if_splits)
qed

definition import_root :: "ImportImageParams \<Rightarrow> string" where
  "import_root p = (if ip_StorageRoot p = [] then ''/var/lib/pmx-cloud/storage'' else ip_StorageRoot p)"

definition import_part :: "ImportImageParams \<Rightarrow> string" where
  "import_part p = partial_path (import_root p) (TrimSpace (ip_ID p))"

text \<open>How far a request to import gets: it is refused, or it downloads and places the image.\<close>

lemma ImportImage_cases:
  assumes "ImportImage e io p w = (r, w')"
  obtains (refused) err where "r = Inl err" "w' = w"
  | (stopped) i dest err where "sanitizeImportID io (ip_ID p) = Inr i"
      "resolvePathWithinRoot io (import_root p) (ip_Destination p) = Inr dest"
      "r = Inl err" "resumeDownload io (ip_SourceURL p) (partial_path (import_root p) i) w = (Inl err, w')"
  | (placed) i dest h b w1 x where "sanitizeImportID io (ip_ID p) = Inr i"
      "resolvePathWithinRoot io (import_root p) (ip_Destination p) = Inr dest"
      "resumeDownload io (ip_SourceURL p) (partial_path (import_root p) i) w = (Inr (h, b), w1)"
      "place_image e io (fmtLower (ip_SourceFormat p)) (partial_path (import_root p) i) dest w1 = (x, w')"
      "r = (case x of Inl err \<Rightarrow> Inl err | Inr src \<Rightarrow>
         Inr \<lparr>ir_DownloadedPath = src, ir_Destination = dest, ir_SHA256 = h, ir_Resumed = b\<rparr>)"
proof (cases "ip_SourceURL p \<noteq> [] \<and> ip_Destination p \<noteq> [] \<and> validateAllowlistedURL (ip_SourceURL p) (ip_AllowedHosts p) = None \<and>
    si_mkdir io (import_root p) \<and> (\<exists>i. sanitizeImportID io (ip_ID p) = Inr i) \<and> si_mkdir io (JoinPath [import_root p, ''imports'']) \<and>
    (\<exists>dest. resolvePathWithinRoot io (import_root p) (ip_Destination p) = Inr dest)")
  case False
  have "\<exists>err. (r, w') = (Inl err, w)"
    using assms False
    by (auto simp: ImportImage_def import_root_def [symmetric] Let_def px_check_def px_fail_def px_bind_def px_lift_def
        split: option.splits sum.splits if_splits)
  then show ?thesis using refused by blast
next
  case True
  then obtain i dest where i: "sanitizeImportID io (ip_ID p) = Inr i"
    and dest: "resolvePathWithinRoot io (import_root p) (ip_Destination p) = Inr dest" by blast
  let ?part = "partial_path (import_root p) i"
  obtain d w1 where d: "resumeDownload io (ip_SourceURL p) ?part w = (d, w1)" by fastforce
  have run: "(case d of Inl err \<Rightarrow> (Inl err, w1) | Inr (h, b) \<Rightarrow>
      px_bind (place_image e io (fmtLower (ip_SourceFormat p)) ?part dest)
        (\<lambda>src. px_return \<lparr>ir_DownloadedPath = src, ir_Destination = dest, ir_SHA256 = h, ir_Resumed = b\<rparr>) w1) = (r, w')"
    using assms True i dest d
    by (auto simp: ImportImage_def import_root_def [symmetric] Let_def px_check_def px_bind_def px_lift_def
        split: sum.splits prod.splits)
  show ?thesis
  proof (cases d)
    case (Inl err)
    with run d i dest show ?thesis by (intro stopped) auto
  next
    case (Inr hb)
    obtain h b where hb: "hb = (h, b)" by (cases hb)
    obtain x w2 where x: "place_image e io (fmtLower (ip_SourceFormat p)) ?part dest w1 = (x, w2)" by fastforce
    with run Inr hb have "w' = w2" "r = (case x of Inl err \<Rightarrow> Inl err | Inr src \<Rightarrow>
         Inr \<lparr>ir_DownloadedPath = src, ir_Destination = dest, ir_SHA256 = h, ir_Resumed = b\<rparr>)"
      by (auto simp: px_bind_def px_return_def split: sum.splits)
    with x d Inr hb i dest show ?thesis by (intro placed) auto
  qed
qed

lemma sanitize_given: "TrimSpace v \<noteq> [] \<Longrightarrow> sanitizeImportID io v = Inr i \<Longrightarrow> i = TrimSpace v"
  and sanitize_chars: "sanitizeImportID io v = Inr i \<Longrightarrow> importIDPattern i"
  by (auto simp: sanitizeImportID_def Let_def split: if_splits)

lemma place_image_raw:
  assumes "place_image e io fmt part dest w = (x, w')" and "fmt = [] \<or> fmt = ''raw''" and "px_files w part = Some obj"
  shows "prefix (partial_content w' part) obj \<and> (\<forall>src. x = Inr src \<longrightarrow> px_files w' dest = Some obj)"
  using assms by (auto simp: place_image_def set_file_def partial_content_def px_return_def split: if_splits)

definition correct_server :: "string \<Rightarrow> bytes \<Rightarrow> st_io \<Rightarrow> bool" where
  "correct_server url obj io \<longleftrightarrow> (\<forall>off. serves obj off (si_http io url off))"

lemma ImportImage_step:
  assumes "ImportImage e io p w = (r, w')" and "TrimSpace (ip_ID p) \<noteq> []"
    and "fmtLower (ip_SourceFormat p) = [] \<or> fmtLower (ip_SourceFormat p) = ''raw''"
    and "correct_server (ip_SourceURL p) obj io" and "prefix (partial_content w (import_part p)) obj"
  shows "prefix (partial_content w' (import_part p)) obj \<and>
    (\<forall>res. r = Inr res \<longrightarrow> px_files w' (ir_Destination res) = Some obj \<and> ir_SHA256 res = EncodeToString (si_sha io obj))"
  using assms(1)
proof (cases rule: ImportImage_cases)
  case (refused err)
  then show ?thesis using assms(5) by simp
next
  case (stopped i dest err)
  have part: "partial_path (import_root p) i = import_part p"
    using sanitize_given [OF assms(2) stopped(1)] by (simp add: import_part_def)
  from resumeDownload_prefix [OF stopped(4) [unfolded part] assms(5)] assms(4) stopped show ?thesis
    by (simp add: correct_server_def)
next
  case (placed i dest h b w1 x)
  have part: "partial_path (import_root p) i = import_part p"
    using sanitize_given [OF assms(2) placed(1)] by (simp add: import_part_def)
  from resumeDownload_prefix [OF placed(3) [unfolded part] assms(5)] assms(4)
  have "px_files w1 (import_part p) = Some obj" "h = EncodeToString (si_sha io obj)" by (simp_all add: correct_server_def)
  with place_image_raw [OF placed(4) [unfolded part] assms(3)] placed(5) show ?thesis by (auto split: sum.splits)
qed

text \<open>The same import, tried again and again, each time with the world and the server as they then are.\<close>

fun import_attempts :: "st_env \<Rightarrow> st_io list \<Rightarrow> ImportImageParams \<Rightarrow> px_world \<Rightarrow> px_world" where
  "import_attempts e [] p w = w"
| "import_attempts e (io # ios) p w = import_attempts e ios p (snd (ImportImage e io p w))"

lemma import_attempts_prefix:
  assumes "TrimSpace (ip_ID p) \<noteq> []" and "fmtLower (ip_SourceFormat p) = [] \<or> fmtLower (ip_SourceFormat p) = ''raw''"
    and "\<forall>io \<in> set ios. correct_server (ip_SourceURL p) obj io" and "prefix (partial_content w (import_part p)) obj"
  shows "prefix (partial_content (import_attempts e ios p w) (import_part p)) obj"
  using assms(3,4)
proof (induction ios arbitrary: w)
  case (Cons io ios)
  obtain r w1 where run: "ImportImage e io p w = (r, w1)" by (cases "ImportImage e io p w")
  with ImportImage_step [OF run assms(1,2)] Cons.prems have "prefix (partial_content w1 (import_part p)) obj" by simp
  with Cons run show ?case by simp
qed simp


text \<open>Files an import touches.\<close>

lemma place_image_files:
  assumes "place_image e io fmt part dest w = (x, w')" and "px_files w' f \<noteq> px_files w f"
  shows "f = part \<or> f = dest"
proof -
  have "px_files (snd (runNamed e name args v)) = px_files v" for name args v
    by (cases rule: runNamed_cases [of e name args v]) simp_all
  then have "px_files (snd (st_do op (runNamed e name args) v)) = px_files v" for op name args v
    by (auto simp: st_do_def st_must_def px_bind_def px_fail_def px_return_def split: prod.splits sum.splits option.splits)
      (metis snd_conv)+
  then show ?thesis
    using assms
    by (auto simp: place_image_def set_file_def px_bind_def px_return_def split: if_splits prod.splits sum.splits)
      (metis snd_conv)+
qed

lemma resumeDownload_files:
  "resumeDownload io url path w = (r, w') \<Longrightarrow> px_files w' f \<noteq> px_files w f \<Longrightarrow> f = path"
  by (auto simp: resumeDownload_def Let_def set_file_def split: http_answer.splits if_splits)

lemma resolvePathWithinRoot_Inr:
  "resolvePathWithinRoot io d req = Inr dest \<Longrightarrow>
     prefix (path_parts (Clean (TrimSpace d))) (path_parts dest) \<and> \<not> HasPrefix dest ''/dev/''"
  by (auto simp: resolvePathWithinRoot_def Let_def split: if_splits)

lemma id_part: "importIDPattern i \<Longrightarrow> plain_part (i @ ''.part'')"
proof -
  assume i: "importIDPattern i"
  then have "slash \<notin> set i"
    by (auto simp: importIDPattern_def id_chars_def url_letter_def url_digit_def byte_in_def slash_def list_all_iff)
  moreover have "i @ ''.part'' \<noteq> ''..''" by (cases i) auto
  ultimately show ?thesis by (simp add: plain_part_def slash_def)
qed

lemma partial_path_parts:
  assumes "plain_parts ps" and "ps \<noteq> []" and "importIDPattern i"
  shows "path_parts (partial_path (abs_path ps) i) = ps @ [''imports'', i @ ''.part'']"
proof -
  have dir: "plain_part ''imports''" by (simp add: plain_part_def slash_def)
  have "partial_path (abs_path ps) i = abs_path ((ps @ [''imports'']) @ [i @ ''.part''])"
    unfolding partial_path_def JoinPath_name [OF assms(1,2) dir disjI1 [OF refl]]
    by (rule JoinPath_name) (use assms(1) dir id_part [OF assms(3)] in auto)
  moreover have "plain_parts (ps @ [''imports'', i @ ''.part''])"
    using assms(1) dir id_part [OF assms(3)] by simp
  ultimately show ?thesis using path_parts_abs_path by simp
qed

text \<open>
  C12: an import writes inside the agent's storage directory only. Whatever id, destination and format a request
  names and whatever the server sends, every file that is created, changed or removed lies below the
  directory, and the destination is not below \<open>/dev\<close>.
\<close>

theorem import_stays_in_root:
  assumes "ImportImage e io p w = (r, w')" and "import_root p = abs_path ps" and "plain_parts ps" and "ps \<noteq> []"
    and "plain (abs_path ps)"
  shows "(\<forall>f. px_files w' f \<noteq> px_files w f \<longrightarrow> prefix ps (path_parts f)) \<and>
    (\<forall>res. r = Inr res \<longrightarrow> prefix ps (path_parts (ir_Destination res)) \<and> \<not> HasPrefix (ir_Destination res) ''/dev/'')"
proof -
  have clean: "path_parts (Clean (TrimSpace (import_root p))) = ps"
    using assms(2-5) Clean_abs_path [of ps] path_parts_abs_path [OF assms(3)]
    by (simp add: TrimSpace_plain)
  have dest: "prefix ps (path_parts dest) \<and> \<not> HasPrefix dest ''/dev/''"
    if "resolvePathWithinRoot io (import_root p) (ip_Destination p) = Inr dest" for dest
    using resolvePathWithinRoot_Inr [OF that] clean by simp
  have part: "prefix ps (path_parts (partial_path (import_root p) i))" if "sanitizeImportID io (ip_ID p) = Inr i" for i
    using partial_path_parts [OF assms(3,4) sanitize_chars [OF that]] assms(2) by simp
  from assms(1) show ?thesis
  proof (cases rule: ImportImage_cases)
    case (stopped i dest err)
    with resumeDownload_files [OF stopped(4)] part show ?thesis by auto
  next
    case (placed i dest h b w1 x)
    then have "px_files w' f \<noteq> px_files w f \<Longrightarrow> f = partial_path (import_root p) i \<or> f = dest" for f
      using resumeDownload_files [OF placed(3)] place_image_files [OF placed(4)] by metis
    with placed part dest show ?thesis by (auto split: sum.splits)
  qed simp
qed

text \<open>A server that sends the first three bytes and breaks off, and then the rest.\<close>

definition sample_server :: "bool \<Rightarrow> st_io" where
  "sample_server broken =
     nested_io\<lparr>si_http := (\<lambda>_ off. if off = 0 then HttpStatus 200 (if broken then ''abc'' else ''abcdef'') (\<not> broken)
                                   else HttpStatus 206 (if broken then [] else drop off ''abcdef'') (\<not> broken))\<rparr>"

definition sample_import :: ImportImageParams where
  "sample_import =
     \<lparr>ip_ID = ''i'', ip_SourceURL = ''https://img.example/a'', ip_AllowedHosts = [''img.example''], ip_SourceFormat = [],
      ip_Destination = ''a.raw'', ip_StorageRoot = ''/var/s''\<rparr>"

lemma sample_server_correct: "correct_server url ''abcdef'' (sample_server broken)"
  by (simp add: correct_server_def serves_def sample_server_def)

lemma sample_url: "ParseURL ''https://img.example/a'' = Some (''https'', ''img.example'')"
proof -
  have "ToLower ''https'' = ''https''" by (simp add: ToLower_ascii byte_in_def del: ToLower.simps(2))
  then show ?thesis
    by (simp add: ParseURL_def Cut_def getScheme_def scheme_char_def url_letter_def url_digit_def byte_in_def url_ctl_def Let_def
        parse_rest_def HasPrefix_def parse_authority_def LastIndex_def parse_host_def host_char_def del: ToLower.simps(2))
qed

lemma sample_import_checks:
  "validateAllowlistedURL ''https://img.example/a'' [''img.example''] = None"
  "sanitizeImportID io ''i'' = Inr ''i''" "fmtLower [] = []"
  "resolvePathWithinRoot (sample_server b) ''/var/s'' ''a.raw'' = Inr ''/var/s/a.raw''"
  "partial_path ''/var/s'' ''i'' = ''/var/s/imports/i.part''"
proof -
  have "ToLower ''img.example'' = ''img.example''" by (simp add: ToLower_ascii byte_in_def del: ToLower.simps(2))
  moreover have "Hostname ''img.example'' = ''img.example''" by (simp add: Hostname_def LastIndex_def HasPrefix_def)
  ultimately show "validateAllowlistedURL ''https://img.example/a'' [''img.example''] = None"
    by (simp add: validateAllowlistedURL_def sample_url TrimSpace_plain plain_def plain_char_def del: ToLower.simps(2))
  show "sanitizeImportID io ''i'' = Inr ''i''"
    by (simp add: sanitizeImportID_def TrimSpace_plain plain_def plain_char_def importIDPattern_def id_chars_def url_letter_def byte_in_def)
  show "fmtLower [] = []" by (simp add: fmtLower_def TrimSpace_plain plain_def)
  show "partial_path ''/var/s'' ''i'' = ''/var/s/imports/i.part''" by code_simp
  have "Clean (TrimSpace ''/var/s'') = ''/var/s''" "TrimSpace ''a.raw'' = ''a.raw''" "Clean (JoinPath [''/var/s'', ''a.raw'']) = ''/var/s/a.raw''"
    "path_parts ''/var/s'' = [''var'', ''s'']" "path_parts ''/var/s/a.raw'' = [''var'', ''s'', ''a.raw'']"
    by code_simp+
  then show "resolvePathWithinRoot (sample_server b) ''/var/s'' ''a.raw'' = Inr ''/var/s/a.raw''"
    by (simp add: resolvePathWithinRoot_def HasPrefix_def slash_def sample_server_def nested_io_def)
qed

lemma sample_server_fields:
  "si_http (sample_server b) url off = (if off = 0 then HttpStatus 200 (if b then ''abc'' else ''abcdef'') (\<not> b)
     else HttpStatus 206 (if b then [] else drop off ''abcdef'') (\<not> b))"
  "si_mkdir (sample_server b) d" "si_write (sample_server b) d = None" "si_truncate (sample_server b)" "si_rename (sample_server b)"
  "si_sha (sample_server b) x = x"
  by (simp_all add: sample_server_def nested_io_def)

lemma sample_import_runs:
  "\<exists>w'. ImportImage nested_env (sample_server False) sample_import
     (import_attempts nested_env [sample_server True] sample_import \<lparr>px_events = [], px_files = Map.empty\<rparr>) =
   (Inr \<lparr>ir_DownloadedPath = ''/var/s/a.raw'', ir_Destination = ''/var/s/a.raw'', ir_SHA256 = EncodeToString ''abcdef'', ir_Resumed = True\<rparr>, w')"
  by (simp add: ImportImage_def sample_import_def sample_import_checks px_check_def px_bind_def px_lift_def px_return_def
      resumeDownload_def place_image_def partial_content_def set_file_def sample_server_fields Let_def)


theorem import_stays_in_root_witness:
  "\<exists>w' res. ImportImage nested_env (sample_server False) sample_import
     (import_attempts nested_env [sample_server True] sample_import \<lparr>px_events = [], px_files = Map.empty\<rparr>) = (Inr res, w') \<and>
     prefix [''var'', ''s''] (path_parts (ir_Destination res))"
proof -
  obtain res w' where run: "ImportImage nested_env (sample_server False) sample_import
     (import_attempts nested_env [sample_server True] sample_import \<lparr>px_events = [], px_files = Map.empty\<rparr>) = (Inr res, w')"
    using sample_import_runs by blast
  have "import_root sample_import = abs_path [''var'', ''s'']" "plain (abs_path [''var'', ''s''])"
    by (simp_all add: import_root_def sample_import_def abs_path_def slash_def plain_def plain_char_def)
  from import_stays_in_root [OF run this(1) _ _ this(2)] run show ?thesis by (auto simp: plain_part_def slash_def)
qed

end
