(* ===== verification/Zpool_Status.thy ===== *)
theory Zpool_Status
  imports Storage_Disk "HOL-Library.AList"
begin

text \<open>
  What \<open>zfs.status\<close> makes of the output of \<open>zpool list -Hp\<close> and \<open>zpool status -j\<close>,
  \<open>src/storage/internal/zfs/zfs.go\<close>. A Go map visits its keys in an unspecified order: the order is an argument.
\<close>

subsection \<open>Numbers and names\<close>

text \<open>\<open>strings.ToUpper\<close>, for letters whose upper case is ASCII; all others are kept.\<close>

fun ToUpper :: "string \<Rightarrow> string" where
  "ToUpper [] = []"
| "ToUpper (c # s) =
     (if HasPrefix (c # s) (utf8_encode 0x131) then CHR ''I'' # ToUpper (drop 1 s)
      else if HasPrefix (c # s) (utf8_encode 0x17F) then CHR ''S'' # ToUpper (drop 1 s)
      else (if byte_in 97 122 c then char_of (of_char c - 32 :: nat) else c) # ToUpper s)"

text \<open>
  \<open>strconv.ParseFloat\<close> on any text: an optional sign, then a decimal number or the name of an infinity, or the
  name of no number. Hexadecimal mantissas and digit separators are not numbers here; the tools print none.
\<close>

definition float_syntax :: "string \<Rightarrow> bool" where
  "float_syntax s =
     (let mant = takeWhile (\<lambda>c. c \<noteq> CHR ''e'' \<and> c \<noteq> CHR ''E'') s; ex = drop (Suc (length mant)) s;
          ip = takeWhile (\<lambda>c. c \<noteq> CHR ''.'') mant; fp = drop (Suc (length ip)) mant;
          digits = (if ex \<noteq> [] \<and> hd ex \<in> {CHR ''+'', CHR ''-''} then tl ex else ex)
      in list_all url_digit ip \<and> list_all url_digit fp \<and> ip @ fp \<noteq> []
         \<and> (mant = s \<or> digits \<noteq> [] \<and> list_all url_digit digits))"

definition ParseFloatText :: "string \<Rightarrow> float64 option" where
  "ParseFloatText s =
     (let neg = HasPrefix s ''-''; body = (if HasPrefix s ''-'' \<or> HasPrefix s ''+'' then tl s else s)
      in if ToLower body \<in> {''inf'', ''infinity''} then Some (Inf neg)
         else if ToLower s = ''nan'' then Some NaN
         else if float_syntax body then ParseFloat ((if neg then ''-'' else []) @ body) else None)"

definition parseInt64 :: "string \<Rightarrow> int" where
  "parseInt64 s0 =
     (let s = TrimSpace s0
      in if s = [] \<or> s = ''-'' then 0 else case ParseInt s of (n, bad) \<Rightarrow> if bad then 0 else n)"

definition float_before :: "string \<Rightarrow> string \<Rightarrow> float64 option" where
  "float_before unit_sign s0 =
     (let s = TrimSpace (TrimSuffix (TrimSpace s0) unit_sign) in if s = [] \<or> s = ''-'' then None else ParseFloatText s)"

definition parsePercent :: "string \<Rightarrow> float64 option" where
  "parsePercent = float_before ''%''"

definition parseRatio :: "string \<Rightarrow> float64 option" where
  "parseRatio = float_before ''x''"

definition normalizeVdevType :: "string \<Rightarrow> string" where
  "normalizeVdevType t0 =
     (let t = ToLower (TrimSpace t0)
      in if t = ''disk'' \<or> t = ''file'' then ''disk''
         else if t = ''mirror'' then ''mirror''
         else if HasPrefix t ''raidz3'' then ''raidz2''
         else if HasPrefix t ''raidz2'' then ''raidz2''
         else if HasPrefix t ''raidz'' then ''raidz1''
         else if t = ''spare'' then ''spare''
         else if t = ''cache'' \<or> t = ''l2cache'' then ''cache''
         else if t = ''log'' \<or> t = ''slog'' then ''log''
         else ''disk'')"

subsection \<open>The tree of devices\<close>

datatype VdevInfo = VdevInfo (vi_Name: string) (vi_Type: string) (vi_State: string) (vi_Children: "VdevInfo list")

datatype zpoolVdevRaw =
  ZpoolVdevRaw (zr_Name: string) (zr_VdevType: string) (zr_State: string) (zr_Vdevs: "(string \<times> zpoolVdevRaw) list")

text \<open>One member of a device: its folded name, its value, and the value read as a map of devices.\<close>

fun set_vdev_field :: "string \<times> lit \<times> (string \<times> zpoolVdevRaw \<times> bool) list \<Rightarrow> zpoolVdevRaw \<times> bool \<Rightarrow> zpoolVdevRaw \<times> bool" where
  "set_vdev_field (k, v, entries) (ZpoolVdevRaw name ty state vdevs, ok) =
     (if k = ''NAME'' then
        (case dec_str v name of Some x \<Rightarrow> (ZpoolVdevRaw x ty state vdevs, ok) | None \<Rightarrow> (ZpoolVdevRaw name ty state vdevs, False))
      else if k = ''VDEV_TYPE'' then
        (case dec_str v ty of Some x \<Rightarrow> (ZpoolVdevRaw name x state vdevs, ok) | None \<Rightarrow> (ZpoolVdevRaw name ty state vdevs, False))
      else if k = ''STATE'' then
        (case dec_str v state of Some x \<Rightarrow> (ZpoolVdevRaw name ty x vdevs, ok) | None \<Rightarrow> (ZpoolVdevRaw name ty state vdevs, False))
      else if k = ''VDEVS'' then
        (case v of
           LNull \<Rightarrow> (ZpoolVdevRaw name ty state [], ok)
         | LObj _ \<Rightarrow> (ZpoolVdevRaw name ty state (fold (\<lambda>(n, d, _). AList.update n d) entries vdevs),
                    ok \<and> list_all (\<lambda>(_, _, good). good) entries)
         | _ \<Rightarrow> (ZpoolVdevRaw name ty state vdevs, False))
      else (ZpoolVdevRaw name ty state vdevs, ok))"

fun dec_vdev :: "lit \<Rightarrow> zpoolVdevRaw \<times> bool" where
  "dec_vdev (LObj kvs) =
     fold set_vdev_field
       (map (\<lambda>p. (fold_name (unquote (fst p)), snd p,
                  (case snd p of LObj ds \<Rightarrow> map (\<lambda>q. (unquote (fst q), dec_vdev (snd q))) ds | _ \<Rightarrow> []))) kvs)
       (ZpoolVdevRaw [] [] [] [], True)"
| "dec_vdev LNull = (ZpoolVdevRaw [] [] [] [], True)"
| "dec_vdev _ = (ZpoolVdevRaw [] [] [] [], False)"

text \<open>A pool has the members of a device but for the type, which is skipped.\<close>

definition dec_pool :: "lit \<Rightarrow> zpoolVdevRaw \<times> bool" where
  "dec_pool v =
     dec_vdev (case v of LObj kvs \<Rightarrow> LObj (filter (\<lambda>p. fold_name (unquote (fst p)) \<noteq> ''VDEV_TYPE'') kvs) | _ \<Rightarrow> v)"

definition set_status_field :: "string \<Rightarrow> lit \<Rightarrow> (string \<times> zpoolVdevRaw) list \<Rightarrow> (string \<times> zpoolVdevRaw) list option" where
  "set_status_field k v pools =
     (if k = ''POOLS'' then
        (case v of
           LNull \<Rightarrow> Some []
         | LObj ps \<Rightarrow>
             if list_all (\<lambda>p. snd (dec_pool (snd p))) ps
             then Some (fold (\<lambda>p. AList.update (unquote (fst p)) (fst (dec_pool (snd p)))) ps pools) else None
         | _ \<Rightarrow> None)
      else Some pools)"

definition zpoolStatusJSON :: "bytes \<Rightarrow> (string \<times> zpoolVdevRaw) list option" where
  "zpoolStatusJSON raw =
     Option.bind (json_lit raw) (\<lambda>v. case dec_struct set_status_field v [] of (pools, ok) \<Rightarrow> if ok then Some pools else None)"

text \<open>The values of a map in the order \<open>ord\<close> of its keys, and sorted by name.\<close>

definition map_values :: "(string list \<Rightarrow> string list) \<Rightarrow> (string \<times> 'a) list \<Rightarrow> 'a list" where
  "map_values ord m = List.map_filter (map_of m) (ord (map fst m))"

definition sortedVdevs :: "(string list \<Rightarrow> string list) \<Rightarrow> ('a \<Rightarrow> string) \<Rightarrow> (string \<times> 'a) list \<Rightarrow> 'a list" where
  "sortedVdevs ord name m = sort_key name (map_values ord m)"

fun convertVdev :: "(string list \<Rightarrow> string list) \<Rightarrow> zpoolVdevRaw \<Rightarrow> VdevInfo" where
  "convertVdev ord (ZpoolVdevRaw name ty state vdevs) =
     VdevInfo name (normalizeVdevType ty) (ToUpper (TrimSpace state))
       (sortedVdevs ord vi_Name (map (\<lambda>p. (fst p, convertVdev ord (snd p))) vdevs))"

definition parseZpoolStatusVdevs :: "(string list \<Rightarrow> string list) \<Rightarrow> bytes \<Rightarrow> (string \<times> VdevInfo list) list" where
  "parseZpoolStatusVdevs ord raw =
     (case zpoolStatusJSON raw of
        None \<Rightarrow> []
      | Some pools \<Rightarrow>
          map (\<lambda>(poolName, pool). (poolName,
             concat (map (\<lambda>r. map (convertVdev ord) (sortedVdevs ord zr_Name (zr_Vdevs r))) (map_values ord (zr_Vdevs pool))))) pools)"

subsection \<open>Pools\<close>

record PoolInfo =
  pi_Name :: string
  pi_State :: string
  pi_SizeBytes :: int
  pi_AllocBytes :: int
  pi_FreeBytes :: int
  pi_FragPercent :: "float64 option"
  pi_DedupRatio :: "float64 option"
  pi_Vdevs :: "VdevInfo list"

definition pool_line :: "string \<Rightarrow> PoolInfo option" where
  "pool_line line0 =
     (let line = TrimSpace line0; fields = Split line (CHR 0x09)
      in if line = [] \<or> length fields < 7 then None
         else Some \<lparr>pi_Name = fields ! 0, pi_State = ToUpper (TrimSpace (fields ! 6)), pi_SizeBytes = parseInt64 (fields ! 1),
                pi_AllocBytes = parseInt64 (fields ! 2), pi_FreeBytes = parseInt64 (fields ! 3),
                pi_FragPercent = parsePercent (fields ! 4), pi_DedupRatio = parseRatio (fields ! 5), pi_Vdevs = []\<rparr>)"

definition parseZpoolList :: "string \<Rightarrow> PoolInfo list" where
  "parseZpoolList out = List.map_filter pool_line (Split out (CHR 0x0A))"

definition with_vdevs :: "(string \<times> VdevInfo list) list \<Rightarrow> PoolInfo \<Rightarrow> PoolInfo" where
  "with_vdevs byPool p = (case map_of byPool (pi_Name p) of Some v \<Rightarrow> p\<lparr>pi_Vdevs := v\<rparr> | None \<Rightarrow> p)"

text \<open>The answer: \<open>json.Marshal\<close> has no text for an infinity or NaN and fails.\<close>

fun vdev_json :: "VdevInfo \<Rightarrow> json" where
  "vdev_json (VdevInfo name ty state cs) =
     JObj ([(''name'', JStr name), (''type'', JStr ty), (''state'', JStr state)]
           @ (if cs = [] then [] else [(''children'', JArr (map vdev_json cs))]))"

definition opt_float :: "string \<Rightarrow> float64 option \<Rightarrow> (string \<times> json) list option" where
  "opt_float k v =
     (case v of None \<Rightarrow> Some [] | Some f \<Rightarrow> map_option (\<lambda>t. [(k, JNum t)]) (json_float f))"

definition pool_json :: "PoolInfo \<Rightarrow> json option" where
  "pool_json p =
     Option.bind (opt_float ''frag_percent'' (pi_FragPercent p)) (\<lambda>frag.
     Option.bind (opt_float ''dedup_ratio'' (pi_DedupRatio p)) (\<lambda>dedup.
       Some (JObj ([(''name'', JStr (pi_Name p)), (''state'', JStr (pi_State p)), (''size_bytes'', JNum (Itoa (pi_SizeBytes p))),
                    (''alloc_bytes'', JNum (Itoa (pi_AllocBytes p))), (''free_bytes'', JNum (Itoa (pi_FreeBytes p)))]
                   @ frag @ dedup @ [(''vdevs'', JArr (map vdev_json (pi_Vdevs p)))]))))"

definition pools_text :: "PoolInfo list \<Rightarrow> bytes option" where
  "pools_text ps = map_option (\<lambda>js. json_text (JObj [(''pools'', JArr js)])) (those (map pool_json ps))"

end
