(* ===== verification/Storage_ZFS.thy ===== *)
theory Storage_ZFS
  imports Zpool_Status
begin

text \<open>
  ZFS pools, datasets and snapshots, \<open>src/storage/internal/zfs/zfs.go\<close>; what \<open>zfs.status\<close> answers
  is put together in the theory of the pool status.
\<close>

definition allowedTopologies :: "string list" where
  "allowedTopologies = [''mirror'', ''raidz1'', ''raidz2'', ''raidz3'', ''stripe'']"

definition allowedCompression :: "string list" where
  "allowedCompression = [''off'', ''lz4'', ''zstd'', ''gzip'']"

definition allowedProps :: "string list" where
  "allowedProps = [''compression'', ''atime'', ''recordsize'', ''quota'', ''sync'', ''dedup'']"

subsection \<open>Validation\<close>

definition zfs_char :: "char \<Rightarrow> bool" where
  "zfs_char c \<longleftrightarrow> c \<in> set ''-_.:/'' \<or> url_letter c \<or> url_digit c"

definition isSafeToken :: "string \<Rightarrow> bool" where
  "isSafeToken v \<longleftrightarrow> TrimSpace v \<noteq> [] \<and> list_all zfs_char v"

definition isSafeDataset :: "string \<Rightarrow> bool" where
  "isSafeDataset v \<longleftrightarrow> Contains v ''/'' \<and> isSafeToken v"

definition isSafeSnapshot :: "string \<Rightarrow> bool" where
  "isSafeSnapshot v \<longleftrightarrow> Contains v ''@'' \<and> list_all (\<lambda>c. zfs_char c \<or> c = CHR ''@'') v"

definition isSafeValue :: "string \<Rightarrow> bool" where
  "isSafeValue v = (\<not> ContainsAny v [CHR 0x0A, CHR 0x0D, CHR 0x00, CHR '';'', CHR 0x26, CHR 0x7C, CHR 0x60, CHR ''$''])"

definition isDevicePath :: "string \<Rightarrow> bool" where
  "isDevicePath v \<longleftrightarrow> HasPrefix v ''/dev/'' \<and> \<not> Contains v ''..''"

definition resolveSnapshotDestination :: "string \<Rightarrow> st_error + string" where
  "resolveSnapshotDestination raw =
     (let dest = TrimSpace raw in
      if dest = [] then Inl (StMsg ''zfs.snapshot.send: destination is required'')
      else if HasPrefix dest ''ssh://''
      then Inl (StMsg ''zfs.snapshot.send: ssh destinations are not supported by this command path'')
      else let path = TrimPrefix dest ''file://'' in
        if \<not> HasPrefix path [slash]
        then Inl (StMsg ''zfs.snapshot.send: destination must be an absolute path or file:// URL'')
        else let cleaned = Clean path in
          if \<not> isSafeToken cleaned \<or> Contains cleaned ''..'' then Inl (StMsg ''zfs.snapshot.send: destination failed validation'')
          else if HasPrefix cleaned ''/dev/'' then Inl (StMsg ''zfs.snapshot.send: destination cannot target /dev'')
          else Inr cleaned)"

text \<open>\<open>strings.EqualFold(strings.TrimSpace(v), "on")\<close>.\<close>

definition means_on :: "string \<Rightarrow> bool" where
  "means_on v = (ToLower (TrimSpace v) = ''on'')"

subsection \<open>Pools\<close>

definition StatusZFS :: "(string list \<Rightarrow> string list) \<Rightarrow> st_env \<Rightarrow> bytes st" where
  "StatusZFS ord e =
     px_bind (runNamed e ''zpool'' [''list'', ''-Hp'', ''-o'', ''name,size,alloc,free,frag,dedup,health'']) (\<lambda>(listRes, err).
       case (err, listRes) of
         (None, Some r) \<Rightarrow>
           px_bind (runNamed e ''zpool'' [''status'', ''-j'']) (\<lambda>(statusRes, statusErr).
             case pools_text
               (map (with_vdevs (case (statusErr, statusRes) of
                                   (None, Some s) \<Rightarrow> parseZpoolStatusVdevs ord (xr_Stdout s) | _ \<Rightarrow> []))
                  (parseZpoolList (TrimSpace (xr_Stdout r)))) of
               Some text \<Rightarrow> px_return text
             | None \<Rightarrow> px_fail (StSys ''json: unsupported value''))
       | _ \<Rightarrow> px_return (json_text (JObj [(''pools'', JArr [])])))"

record PoolCreateParams =
  pc_Name :: string
  pc_Topology :: string
  pc_Devices :: "string list"
  pc_Compression :: string

definition PoolCreate :: "st_env \<Rightarrow> PoolCreateParams \<Rightarrow> unit st" where
  "PoolCreate e p =
     (let topology = ToLower (TrimSpace (pc_Topology p)); compression = ToLower (TrimSpace (pc_Compression p)) in
      px_check (isSafeToken (pc_Name p)) (StMsg ''zfs.pool.create: invalid pool name'')
     (px_check (topology \<in> set allowedTopologies) (StMsg ''zfs.pool.create: topology is not allowed'')
     (px_check (pc_Devices p \<noteq> []) (StMsg ''zfs.pool.create: at least one device is required'')
     (px_check (list_all isDevicePath (pc_Devices p)) (StMsg ''zfs.pool.create: invalid device'')
     (px_check (compression = [] \<or> compression \<in> set allowedCompression)
        (StMsg ''zfs.pool.create: compression is not allowed'')
     (st_do ''zfs.pool.create'' (runNamed e ''zpool''
        ([''create''] @ (if compression = [] then [] else [''-O'', ''compression='' @ compression]) @ [pc_Name p]
         @ (if topology = ''stripe'' then [] else [topology]) @ pc_Devices p))))))))"

definition PoolDestroy :: "st_env \<Rightarrow> string \<Rightarrow> bool \<Rightarrow> unit st" where
  "PoolDestroy e name force =
     px_check (isSafeToken name) (StMsg ''zfs.pool.destroy: invalid pool name'')
     (px_bind
        (if force then px_return ()
         else px_bind (st_must ''zfs.pool.destroy: failed to verify snapshots before destroy''
                (runNamed e ''zfs'' [''list'', ''-H'', ''-t'', ''snapshot'', ''-o'', ''name'', ''-r'', name])) (\<lambda>res.
              px_check (TrimSpace (TrimSpace (xr_Stdout res)) = [])
                (StMsg ''zfs.pool.destroy: pool has snapshots; force=true required'') (px_return ())))
        (\<lambda>_. st_do ''zfs.pool.destroy'' (runNamed e ''zpool'' [''destroy'', name])))"

definition ScrubStart :: "st_env \<Rightarrow> string \<Rightarrow> unit st" where
  "ScrubStart e pool =
     px_check (isSafeToken pool) (StMsg ''zfs.scrub.start: invalid pool'')
       (st_do ''zfs.scrub.start'' (runNamed e ''zpool'' [''scrub'', pool]))"

definition scrub_state :: "string \<Rightarrow> string" where
  "scrub_state s =
     (if Contains s ''scrub in progress'' then ''running''
      else if Contains s ''scrub repaired'' \<or> Contains s ''scrub completed'' then ''completed'' else ''unknown'')"

definition ScrubStatus :: "st_env \<Rightarrow> string \<Rightarrow> bytes st" where
  "ScrubStatus e pool =
     px_check (isSafeToken pool) (StMsg ''zfs.scrub.status: invalid pool'')
       (px_bind (st_must ''zfs.scrub.status'' (runNamed e ''zpool'' [''status'', pool])) (\<lambda>res.
          px_return (marshal_strings [(''pool'', pool), (''status'', scrub_state (ToLower (TrimSpace (xr_Stdout res))))])))"

subsection \<open>Datasets and snapshots\<close>

fun dataset_options :: "bool \<Rightarrow> (string \<times> any) list \<Rightarrow> st_error + string list" where
  "dataset_options allowDedup [] = Inr []"
| "dataset_options allowDedup ((key, v) # kvs) =
     (let value = any_text v in
      if key \<notin> set allowedProps then Inl (StMsg ''zfs.dataset.create: property is not allowed'')
      else if key = ''dedup'' \<and> means_on value \<and> \<not> allowDedup
      then Inl (StMsg ''zfs.dataset.create: dedup=on requires allow_dedup=true'')
      else if \<not> isSafeValue value then Inl (StMsg ''zfs.dataset.create: unsafe value'')
      else bind_result (dataset_options allowDedup kvs) (\<lambda>args. Inr (''-o'' # (key @ ''='' @ value) # args)))"

definition DatasetCreate :: "st_env \<Rightarrow> string \<Rightarrow> (string \<times> any) list \<Rightarrow> bool \<Rightarrow> unit st" where
  "DatasetCreate e dataset options allowDedup =
     px_check (isSafeDataset dataset) (StMsg ''zfs.dataset.create: invalid dataset'')
       (px_bind (px_lift (dataset_options allowDedup (sort_key fst options))) (\<lambda>opts.
          st_do ''zfs.dataset.create'' (runNamed e ''zfs'' ([''create''] @ opts @ [dataset]))))"

definition DatasetDestroy :: "st_env \<Rightarrow> string \<Rightarrow> bool \<Rightarrow> unit st" where
  "DatasetDestroy e dataset recursive =
     px_check (isSafeDataset dataset) (StMsg ''zfs.dataset.destroy: invalid dataset'')
       (px_check recursive (StMsg ''zfs.dataset.destroy: recursive=true required'')
          (st_do ''zfs.dataset.destroy'' (runNamed e ''zfs'' [''destroy'', ''-r'', dataset])))"

definition SnapshotCreate :: "st_env \<Rightarrow> string \<Rightarrow> bool \<Rightarrow> unit st" where
  "SnapshotCreate e snapshot recursive =
     px_check (isSafeSnapshot snapshot) (StMsg ''zfs.snapshot.create: invalid snapshot'')
       (st_do ''zfs.snapshot.create'' (runNamed e ''zfs''
          ([''snapshot''] @ (if recursive then [''-r''] else []) @ [snapshot])))"

text \<open>\<open>os.WriteFile\<close>: a failure leaves the file alone or with a part of the data.\<close>

definition write_file :: "st_io \<Rightarrow> string \<Rightarrow> string \<Rightarrow> bytes \<Rightarrow> unit st" where
  "write_file io failure path data w =
     (case si_write io path of
        None \<Rightarrow> (Inr (), set_file path (Some data) w)
      | Some FCreate \<Rightarrow> (Inl (StSys failure), w)
      | Some (FWrite part) \<Rightarrow> (Inl (StSys failure), set_file path (Some part) w)
      | Some _ \<Rightarrow> (Inl (StSys failure), set_file path (Some data) w))"

definition SnapshotSend :: "st_env \<Rightarrow> st_io \<Rightarrow> string \<Rightarrow> string \<Rightarrow> unit st" where
  "SnapshotSend e io snapshot destination =
     px_check (isSafeSnapshot snapshot) (StMsg ''zfs.snapshot.send: invalid snapshot'')
       (px_bind (px_lift (resolveSnapshotDestination destination)) (\<lambda>destinationPath.
        px_bind (st_must ''zfs.snapshot.send'' (runNamed e ''zfs'' [''send'', ''-R'', snapshot])) (\<lambda>res.
        px_check (si_mkdir io (Dir destinationPath)) (StSys ''zfs.snapshot.send: create destination parent'')
          (write_file io ''zfs.snapshot.send: write destination'' destinationPath (xr_Stdout res)))))"

definition Tune :: "st_env \<Rightarrow> string \<Rightarrow> string \<Rightarrow> string \<Rightarrow> bool \<Rightarrow> unit st" where
  "Tune e dataset property value allowDedup =
     (let prop = TrimSpace property in
      px_check (isSafeDataset dataset) (StMsg ''zfs.tune: invalid dataset'')
     (px_check (prop \<in> set allowedProps) (StMsg ''zfs.tune: property is not allowed'')
     (px_check (\<not> (prop = ''dedup'' \<and> means_on value \<and> \<not> allowDedup)) (StMsg ''zfs.tune: dedup=on requires allow_dedup=true'')
     (px_check (isSafeValue value) (StMsg ''zfs.tune: invalid property value'')
        (st_do ''zfs.tune'' (runNamed e ''zfs'' [''set'', prop @ ''='' @ value, dataset]))))))"

end
