(* ===== verification/Storage_Shares.thy ===== *)
theory Storage_Shares
  imports Storage_ZFS
begin

text \<open>
  NFS and Samba shares, NVMe namespaces and SMART data: \<open>nfs/nfs.go\<close>, \<open>samba/samba.go\<close>, \<open>nvme/nvme.go\<close> and
  \<open>smart/smart.go\<close> of \<open>src/storage/internal\<close>.
\<close>

subsection \<open>NFS\<close>

definition allowedOptions :: "string list" where
  "allowedOptions = [''rw'', ''ro'', ''sync'', ''async'', ''no_subtree_check'', ''no_root_squash'']"

record Share =
  sh_ID :: string
  sh_Path :: string
  sh_Network :: string
  sh_Options :: "string list"

definition name_char :: "char \<Rightarrow> bool" where
  "name_char c \<longleftrightarrow> c \<in> set ''-_'' \<or> url_letter c \<or> url_digit c"

definition isSafeID :: "string \<Rightarrow> bool" where
  "isSafeID v \<longleftrightarrow> TrimSpace v \<noteq> [] \<and> list_all name_char (TrimSpace v)"

definition isValidPath :: "string \<Rightarrow> bool" where
  "isValidPath v \<longleftrightarrow> HasPrefix v ''/'' \<and> \<not> Contains v ''..''"

definition isValidNetwork :: "string \<Rightarrow> bool" where
  "isValidNetwork v \<longleftrightarrow> v = ''*'' \<or> ParseCIDR v \<noteq> None"

fun keep_first :: "string list \<Rightarrow> string list \<Rightarrow> string list" where
  "keep_first seen [] = []"
| "keep_first seen (x # xs) = (if x \<in> set seen then keep_first seen xs else x # keep_first (x # seen) xs)"

definition validateOptions :: "string list \<Rightarrow> st_error + string list" where
  "validateOptions options =
     (if options = [] then Inr [''rw'', ''sync'']
      else let norm = map TrimSpace options in
        if list_all (\<lambda>o'. o' \<in> set allowedOptions) norm then Inr (sort (keep_first [] norm))
        else Inl (StMsg ''nfs.share.create: option is not allowed''))"

definition exports_line :: "string \<Rightarrow> string \<Rightarrow> string list \<Rightarrow> string" where
  "exports_line path network options = path @ '' '' @ network @ ''('' @ Join options '','' @ '')'' @ [newline]"

definition exports_file :: "string \<Rightarrow> string \<Rightarrow> string" where
  "exports_file exportsDir i = JoinPath [exportsDir, ''pmx-'' @ i @ ''.exports'']"

definition exports_dir :: "string \<Rightarrow> string" where
  "exports_dir d = (if d = [] then ''/etc/exports.d'' else d)"

definition NfsShareCreate :: "st_env \<Rightarrow> st_io \<Rightarrow> Share \<Rightarrow> string \<Rightarrow> unit st" where
  "NfsShareCreate e io p exportsDir =
     (let dir = exports_dir exportsDir in
      px_check (isSafeID (sh_ID p)) (StMsg ''nfs.share.create: invalid id'')
     (px_check (isValidPath (sh_Path p)) (StMsg ''nfs.share.create: invalid path'')
     (px_check (si_exists io (sh_Path p)) (StSys ''nfs.share.create: path does not exist'')
     (px_check (isValidNetwork (sh_Network p)) (StMsg ''nfs.share.create: invalid network spec'')
     (px_bind (px_lift (validateOptions (sh_Options p))) (\<lambda>options.
      px_check (si_mkdir io dir) (StSys ''nfs.share.create: mkdir exports dir'')
     (px_bind (write_file io ''nfs.share.create: write exports file'' (exports_file dir (sh_ID p))
          (exports_line (sh_Path p) (sh_Network p) options)) (\<lambda>_.
      st_do ''nfs.share.create: exportfs -ra'' (runNamed e ''exportfs'' [''-ra''])))))))))"

text \<open>Removing the file; \<open>si_rename\<close> tells whether the system permits it, and a missing file is no error.\<close>

definition NfsShareDelete :: "st_env \<Rightarrow> st_io \<Rightarrow> string \<Rightarrow> string \<Rightarrow> unit st" where
  "NfsShareDelete e io i exportsDir =
     (let file' = exports_file (exports_dir exportsDir) i in
      px_check (isSafeID i) (StMsg ''nfs.share.delete: invalid id'')
     (px_bind (\<lambda>w. if px_files w file' = None then (Inr (), w)
                  else if si_rename io then (Inr (), set_file file' None w)
                  else (Inl (StSys ''nfs.share.delete: remove exports file''), w)) (\<lambda>_.
      st_do ''nfs.share.delete: exportfs -ra'' (runNamed e ''exportfs'' [''-ra'']))))"

definition parseLine :: "string \<Rightarrow> (string \<times> string \<times> string list) option" where
  "parseLine line =
     (case Fields line of
        [path, netAndOpts] \<Rightarrow>
          (case (Index netAndOpts ''('', LastIndex netAndOpts (CHR '')'')) of
             (Some opens, Some closes) \<Rightarrow>
               if opens = 0 \<or> closes \<le> opens then None
               else let optCSV = take (closes - Suc opens) (drop (Suc opens) netAndOpts)
                    in Some (path, take opens netAndOpts, if optCSV = [] then [] else Split optCSV (CHR '',''))
           | _ \<Rightarrow> None)
      | _ \<Rightarrow> None)"

text \<open>\<open>names\<close> are the names in the directory that match \<open>pmx-*.exports\<close>; a file that cannot be read ends the listing.\<close>

fun read_shares :: "px_world \<Rightarrow> string \<Rightarrow> string list \<Rightarrow> st_error + Share list" where
  "read_shares w dir [] = Inr []"
| "read_shares w dir (name # names) =
     (case px_files w (JoinPath [dir, name]) of
        None \<Rightarrow> Inl (StSys ''nfs.share.list: read'')
      | Some data \<Rightarrow>
          (let line = TrimSpace data in
           if line = [] then read_shares w dir names
           else case parseLine line of
               None \<Rightarrow> Inl (StMsg ''nfs.share.list: parse'')
             | Some (path, network, options) \<Rightarrow>
                 bind_result (read_shares w dir names) (\<lambda>shares.
                   Inr (\<lparr>sh_ID = TrimSuffix (TrimPrefix name ''pmx-'') ''.exports'', sh_Path = path, sh_Network = network,
                         sh_Options = options\<rparr> # shares))))"

definition NfsShareList :: "st_io \<Rightarrow> string \<Rightarrow> Share list st" where
  "NfsShareList io exportsDir w =
     (let dir = exports_dir exportsDir;
          names = (case si_listing io dir of None \<Rightarrow> [] | Some ns \<Rightarrow> filter (\<lambda>n. HasPrefix n ''pmx-'' \<and> HasSuffix n ''.exports'') ns)
      in (read_shares w dir (sort names), w))"

definition shares_text :: "Share list \<Rightarrow> bytes" where
  "shares_text ss =
     json_text (JObj [(''shares'', JArr (map (\<lambda>s. JObj [(''id'', JStr (sh_ID s)), (''path'', JStr (sh_Path s)),
        (''network'', JStr (sh_Network s)),
        (''options'', if sh_Options s = [] then JNull else JArr (map JStr (sh_Options s)))]) ss))])"

subsection \<open>Samba\<close>

definition isSafePath :: "string \<Rightarrow> bool" where
  "isSafePath v \<longleftrightarrow> HasPrefix v ''/'' \<and> \<not> Contains v ''..'' \<and> \<not> ContainsAny v [CHR 0x0A, CHR 0x0D, CHR 0x00]"

definition normalizeID :: "string \<Rightarrow> st_error + string" where
  "normalizeID v =
     (let i = TrimPrefix (TrimSpace v) ''pmx-'' in
      if isSafeID i then Inr i else Inl (StMsg ''samba.share: invalid id''))"

definition default_text :: "string \<Rightarrow> string \<Rightarrow> string" where
  "default_text v d = (if TrimSpace v = [] then d else TrimSpace v)"

definition SambaShareCreate :: "st_env \<Rightarrow> string \<Rightarrow> string \<Rightarrow> string \<Rightarrow> string \<Rightarrow> unit st" where
  "SambaShareCreate e shareID path comment acl =
     px_bind (px_lift (normalizeID shareID)) (\<lambda>i.
     px_check (isSafePath path) (StMsg ''samba.share.create: invalid path'')
       (st_do ''samba.share.create'' (runNamed e ''net''
          [''usershare'', ''add'', ''pmx-'' @ i, path, default_text comment ''PMX share'', default_text acl ''Everyone:F''])))"

definition SambaShareDelete :: "st_env \<Rightarrow> string \<Rightarrow> unit st" where
  "SambaShareDelete e shareID =
     px_bind (px_lift (normalizeID shareID)) (\<lambda>i.
       st_do ''samba.share.delete'' (runNamed e ''net'' [''usershare'', ''delete'', ''pmx-'' @ i]))"

definition SambaShareList :: "st_env \<Rightarrow> string list st" where
  "SambaShareList e =
     px_bind (st_must ''samba.share.list'' (runNamed e ''net'' [''usershare'', ''list''])) (\<lambda>res.
       let lines = map TrimSpace (Split (TrimSpace (TrimSpace (xr_Stdout res))) newline)
       in px_return (sort (map (\<lambda>l. TrimPrefix l ''pmx-'') (filter (\<lambda>l. HasPrefix l ''pmx-'') lines))))"

subsection \<open>NVMe\<close>

definition ControllerAdd :: "st_env \<Rightarrow> string \<Rightarrow> int \<Rightarrow> int \<Rightarrow> int \<Rightarrow> unit st" where
  "ControllerAdd e controller sizeBlocks blockSize namespaceID =
     (let blockSize = (if blockSize \<le> 0 then 4096 else blockSize); ns = (if namespaceID \<le> 0 then 1 else namespaceID) in
      px_check (HasPrefix controller ''/dev/nvme'' \<and> \<not> Contains controller ''..'')
        (StMsg ''nvme.controller.add: invalid controller path'')
     (px_check (sizeBlocks > 0) (StMsg ''nvme.controller.add: size_blocks must be > 0'')
     (px_bind (st_do ''nvme.controller.add list'' (runNamed e ''nvme'' [''list'', ''-o'', ''json''])) (\<lambda>_.
      px_bind (st_do ''nvme.controller.add create-ns'' (runNamed e ''nvme''
          [''create-ns'', controller, ''--nsze'', Itoa sizeBlocks, ''--ncap'', Itoa sizeBlocks, ''--block-size'', Itoa blockSize])) (\<lambda>_.
      st_do ''nvme.controller.add attach-ns'' (runNamed e ''nvme''
          [''attach-ns'', controller, ''--namespace-id'', Itoa ns, ''--controllers'', ''0'']))))))"

subsection \<open>SMART\<close>

record smart_row =
  sr_Name :: string
  sr_Value :: float64
  sr_String :: string

record smartJSON =
  sj_Status :: "bool option"
  sj_Temperature :: float64
  sj_Table :: "smart_row list"
  sj_NVMe :: float64

definition zero_smart :: smartJSON where
  "zero_smart = \<lparr>sj_Status = None, sj_Temperature = Fin 0, sj_Table = [], sj_NVMe = Fin 0\<rparr>"

text \<open>Nested structs: a field is decoded with the decoder of its own struct.\<close>

definition nested :: "(string \<Rightarrow> lit \<Rightarrow> 'a \<Rightarrow> 'a option) \<Rightarrow> lit \<Rightarrow> 'a \<Rightarrow> 'a option" where
  "nested set_field v x = (case dec_struct set_field v x of (x', ok) \<Rightarrow> if ok then Some x' else None)"

definition set_raw_field :: "string \<Rightarrow> lit \<Rightarrow> float64 \<times> string \<Rightarrow> (float64 \<times> string) option" where
  "set_raw_field k v r =
     (if k = ''VALUE'' then map_option (\<lambda>x. (x, snd r)) (dec_float v (fst r))
      else if k = ''STRING'' then map_option (\<lambda>x. (fst r, x)) (dec_str v (snd r)) else Some r)"

definition set_row_field :: "string \<Rightarrow> lit \<Rightarrow> smart_row \<Rightarrow> smart_row option" where
  "set_row_field k v r =
     (if k = ''NAME'' then map_option (\<lambda>x. r\<lparr>sr_Name := x\<rparr>) (dec_str v (sr_Name r))
      else if k = ''RAW'' then
        map_option (\<lambda>x. r\<lparr>sr_Value := fst x, sr_String := snd x\<rparr>) (nested set_raw_field v (sr_Value r, sr_String r))
      else Some r)"

definition set_table_field :: "string \<Rightarrow> lit \<Rightarrow> smart_row list \<Rightarrow> smart_row list option" where
  "set_table_field k v t =
     (if k = ''TABLE'' then dec_slice (\<lambda>x. dec_struct set_row_field x \<lparr>sr_Name = [], sr_Value = Fin 0, sr_String = []\<rparr>) v
      else Some t)"

definition set_number_field :: "string \<Rightarrow> string \<Rightarrow> lit \<Rightarrow> float64 \<Rightarrow> float64 option" where
  "set_number_field name k v x = (if k = name then dec_float v x else Some x)"

definition set_smartJSON_field :: "string \<Rightarrow> lit \<Rightarrow> smartJSON \<Rightarrow> smartJSON option" where
  "set_smartJSON_field k v s =
     (if k = ''SMART_STATUS'' then
        (if v = LNull then Some (s\<lparr>sj_Status := None\<rparr>)
         else map_option (\<lambda>x. s\<lparr>sj_Status := Some x\<rparr>)
                (nested set_passed_field v (case sj_Status s of Some b \<Rightarrow> b | None \<Rightarrow> False)))
      else if k = ''TEMPERATURE'' then
        map_option (\<lambda>x. s\<lparr>sj_Temperature := x\<rparr>) (nested (set_number_field ''CURRENT'') v (sj_Temperature s))
      else if k = ''ATA_SMART_ATTRIBUTES'' then
        map_option (\<lambda>x. s\<lparr>sj_Table := x\<rparr>) (nested set_table_field v (sj_Table s))
      else if k = ''NVME_SMART_HEALTH_INFORMATION_LOG'' then
        map_option (\<lambda>x. s\<lparr>sj_NVMe := x\<rparr>) (nested (set_number_field ''TEMPERATURE'') v (sj_NVMe s))
      else Some s)"

definition decode_smart :: "bytes \<Rightarrow> smartJSON option" where
  "decode_smart data = Option.bind (json_lit data) (\<lambda>v. nested set_smartJSON_field v zero_smart)"

record DiskResult =
  dr_Device :: string
  dr_Status :: string
  dr_Temperature :: float64
  dr_Attributes :: "(string \<times> float64) list"
  dr_Error :: string

definition leadingInt :: "string \<Rightarrow> float64 option" where
  "leadingInt s = (let ds = takeWhile url_digit (TrimSpace s) in if ds = [] then None else ParseFloat ds)"

definition isUnsupportedSmart :: "run_err option \<Rightarrow> string \<Rightarrow> bool" where
  "isUnsupportedSmart err stderr =
     (case err of
        Some (ErrExit _) \<Rightarrow> Contains stderr ''unavailable'' \<or> Contains stderr ''unsupported'' \<or> Contains stderr ''not support''
      | _ \<Rightarrow> False)"

definition kelvinMaybeToC :: "float64 \<Rightarrow> float64" where
  "kelvinMaybeToC v =
     (case (v, to_float64 (27315 / 100)) of
        (Fin q, Fin c) \<Rightarrow> if q > 200 then to_float64 (q - c) else v
      | _ \<Rightarrow> v)"

definition smart_temperature :: "smartJSON \<Rightarrow> float64" where
  "smart_temperature s =
     (if float_lt (Fin 0) (sj_Temperature s) then sj_Temperature s
      else if float_lt (Fin 0) (sj_NVMe s) then kelvinMaybeToC (sj_NVMe s) else Fin 0)"

text \<open>The map of attributes: a later row of the same name replaces an earlier one.\<close>

definition smart_attributes :: "smart_row list \<Rightarrow> (string \<times> float64) list" where
  "smart_attributes rows =
     map (\<lambda>r. (sr_Name r, case leadingInt (sr_String r) of Some v \<Rightarrow> v | None \<Rightarrow> sr_Value r))
       (filter (\<lambda>r. TrimSpace (sr_Name r) \<noteq> []) rows)"

definition poll_entry :: "(run_err \<Rightarrow> string) \<Rightarrow> string \<Rightarrow> string \<Rightarrow> ExecResult option \<times> run_err option \<Rightarrow> DiskResult" where
  "poll_entry show_err parse_error dev answer =
     (let (res, err) = answer; entry = \<lparr>dr_Device = dev, dr_Status = [], dr_Temperature = Fin 0, dr_Attributes = [], dr_Error = []\<rparr>;
          stdout = (case res of Some r \<Rightarrow> xr_Stdout r | None \<Rightarrow> []); stderr = (case res of Some r \<Rightarrow> xr_Stderr r | None \<Rightarrow> [])
      in case decode_smart stdout of
           None \<Rightarrow>
             if isUnsupportedSmart err (ToLower stderr) then entry\<lparr>dr_Status := ''unsupported''\<rparr>
             else entry\<lparr>dr_Status := ''error'',
                        dr_Error := (case err of Some x \<Rightarrow> show_err x | None \<Rightarrow> ''parse smartctl json: '' @ parse_error)\<rparr>
         | Some parsed \<Rightarrow>
             entry\<lparr>dr_Status := (case sj_Status parsed of None \<Rightarrow> ''unknown'' | Some b \<Rightarrow> if b then ''passed'' else ''failed''),
                   dr_Temperature := smart_temperature parsed, dr_Attributes := smart_attributes (sj_Table parsed)\<rparr>)"

fun Poll :: "(run_err \<Rightarrow> string) \<Rightarrow> string \<Rightarrow> st_env \<Rightarrow> string list \<Rightarrow> DiskResult list st" where
  "Poll show_err parse_error e [] = px_return []"
| "Poll show_err parse_error e (dev # devs) =
     px_bind (runNamed e ''smartctl'' [''-j'', ''-H'', ''-A'', dev]) (\<lambda>answer.
     px_bind (Poll show_err parse_error e devs) (\<lambda>ds. px_return (poll_entry show_err parse_error dev answer # ds)))"

definition Atoi_ok :: "string \<Rightarrow> bool" where
  "Atoi_ok s = (\<not> snd (ParseInt s))"

definition SmartSchedule :: "st_io \<Rightarrow> string \<Rightarrow> string \<Rightarrow> string st" where
  "SmartSchedule io interval0 stateDir0 =
     (let interval = (if TrimSpace interval0 = [] then ''15m'' else TrimSpace interval0);
          stateDir = (if stateDir0 = [] then ''/var/lib/pmx-cloud/storage'' else stateDir0);
          path = JoinPath [stateDir, ''smart-schedule.json'']
      in px_check (\<not> (HasSuffix interval ''m'' \<and> \<not> Atoi_ok (TrimSuffix interval ''m'')))
           (StMsg ''smart.schedule: invalid minute interval'')
        (px_check (si_mkdir io stateDir) (StSys ''smart.schedule: mkdir state dir'')
        (px_bind (write_file io ''smart.schedule: write state file'' path (marshal_strings [(''interval'', interval)])) (\<lambda>_.
           px_return path))))"

definition json_number :: "float64 \<Rightarrow> json" where
  "json_number f = JNum (case json_float f of Some t \<Rightarrow> t | None \<Rightarrow> [])"

definition attributes_json :: "(string \<times> float64) list \<Rightarrow> json" where
  "attributes_json kvs =
     (let keys = sort (remdups (map fst kvs)); last_of = map_of (rev kvs)
      in JObj (map (\<lambda>k. (k, json_number (case last_of k of Some v \<Rightarrow> v | None \<Rightarrow> Fin 0))) keys))"

definition disk_result_json :: "DiskResult \<Rightarrow> json" where
  "disk_result_json d =
     JObj ([(''device'', JStr (dr_Device d)), (''status'', JStr (dr_Status d))]
           @ (if dr_Temperature d = Fin 0 then [] else [(''temperature_c'', json_number (dr_Temperature d))])
           @ (if dr_Attributes d = [] then [] else [(''attributes'', attributes_json (dr_Attributes d))])
           @ opt_field ''error'' (dr_Error d))"

definition poll_text :: "string list \<Rightarrow> DiskResult list \<Rightarrow> bytes" where
  "poll_text devices ds =
     json_text (JObj [(''disks'', if devices = [] then JNull else JArr (map disk_result_json ds))])"

subsection \<open>A created NFS share is listed\<close>

lemma fields_from_append: "plain a \<Longrightarrow> fields_from acc (a @ s) = fields_from (acc @ a) s"
  by (induction a arbitrary: acc) (simp_all add: plain_def)

lemma space_at_blank: "space_at (CHR '' '' # s) = 1"
  by (simp add: space_at_def space_runes_def)

lemma Fields_two:
  assumes "plain a" "a \<noteq> []" "plain b" "b \<noteq> []"
  shows "Fields (a @ '' '' @ b) = [a, b]"
  using assms by (simp add: Fields_def fields_from_append space_at_blank fields_from_plain)

lemma TrimSpace_line:
  assumes "plain_char c" "plain_char d"
  shows "TrimSpace (c # s @ [d, newline]) = c # s @ [d]"
proof -
  have "space_end (c # s @ [d, newline]) = 1"
    by (simp add: space_end_def space_runes_def newline_def suffix_def find_Some_iff)
  then have "trim_right (c # s @ [d, newline]) = trim_right ((c # s) @ [d])"
    by (subst trim_right.simps) simp
  moreover have "trim_right ((c # s) @ [d]) = (c # s) @ [d]"
    using assms(2) by (subst trim_right.simps) (simp only: space_end_plain refl if_True)
  ultimately show ?thesis using assms(1) by (simp add: TrimSpace_def trim_left.simps)
qed

lemma parseLine_exports:
  assumes "plain path" "path \<noteq> []" "plain net" "net \<noteq> []" "CHR ''('' \<notin> set net"
    and "options \<noteq> []" "\<forall>o' \<in> set options. plain o' \<and> CHR '','' \<notin> set o' \<and> CHR '')'' \<notin> set o' \<and> o' \<noteq> []"
  shows "parseLine (path @ '' '' @ net @ ''('' @ Join options '','' @ '')'') = Some (path, net, options)"
proof -
  let ?csv = "Join options '',''" let ?rest = "net @ ''('' @ ?csv @ '')''"
  have chars: "plain ?csv" "CHR '')'' \<notin> set ?csv"
    using assms(7) set_Join [of _ options "'',''"] by (fastforce simp: plain_def list_all_iff plain_char_def)+
  have csv: "Split ?csv (CHR '','') = options" using Split_Join [of options "CHR '',''"] assms(6,7) by blast
  moreover have "?csv \<noteq> []" using csv assms(6,7) by (cases options) (auto split: if_splits)
  moreover have "Fields (path @ '' '' @ ?rest) = [path, ?rest]"
    using assms(1-4) chars(1) by (intro Fields_two) (auto simp: plain_def plain_char_def)
  moreover have "Index ?rest ''('' = Some (length net)" using assms(5) by (induction net) simp_all
  moreover have "LastIndex ?rest (CHR '')'') = Some (Suc (length net + length ?csv))" by (simp add: LastIndex_def)
  ultimately show ?thesis using assms(4) by (simp add: parseLine_def)
qed

lemma keep_first_set: "set (keep_first seen xs) = set xs - set seen"
  by (induction seen xs rule: keep_first.induct) auto

lemma allowed_option_chars:
  "o' \<in> set allowedOptions \<Longrightarrow> plain o' \<and> CHR '','' \<notin> set o' \<and> CHR '')'' \<notin> set o' \<and> o' \<noteq> []"
  by (auto simp: allowedOptions_def plain_def plain_char_def)

lemma validateOptions_allowed:
  assumes "validateOptions opts = Inr options"
  shows "options \<noteq> [] \<and> set options \<subseteq> set allowedOptions"
proof (cases "opts = []")
  case True
  with assms show ?thesis by (auto simp: validateOptions_def allowedOptions_def)
next
  case False
  with assms have "list_all (\<lambda>o'. o' \<in> set allowedOptions) (map TrimSpace opts)" "options = sort (keep_first [] (map TrimSpace opts))"
    by (auto simp: validateOptions_def Let_def split: if_splits)
  moreover have "keep_first [] (map TrimSpace opts) \<noteq> []" using False by (cases opts) auto
  ultimately have "set options \<noteq> {}" "set options \<subseteq> set allowedOptions" by (auto simp: keep_first_set list_all_iff)
  then show ?thesis by auto
qed

lemma network_chars:
  assumes "isValidNetwork v"
  shows "plain v \<and> v \<noteq> [] \<and> CHR ''('' \<notin> set v"
proof (cases "v = ''*''")
  case False
  with assms obtain ip where ip: "ParseCIDR v = Some ip" by (auto simp: isValidNetwork_def)
  have "plain_char c \<and> c \<noteq> CHR ''(''" if "addr_char c" for c
    using that by (auto simp: addr_char_def plain_char_def is_hex_def hex_val_def Let_def split: if_splits)
  with ParseCIDR_chars [OF ip] have "plain v \<and> CHR ''('' \<notin> set v" by (auto simp: plain_def list_all_iff)
  moreover have "v \<noteq> []" using ip by (auto simp: ParseCIDR_def Cut_def)
  ultimately show ?thesis by simp
qed (simp add: plain_def plain_char_def)

text \<open>The listing reads its files one by one.\<close>

lemma read_shares_Cons:
  "read_shares w dir (n # ns) =
     bind_result (read_shares w dir [n]) (\<lambda>a. bind_result (read_shares w dir ns) (\<lambda>b. Inr (a @ b)))"
  by (auto simp: bind_result_def Let_def split: option.split sum.split)

lemma read_shares_all:
  "read_shares w dir ns = Inr ss \<Longrightarrow> \<forall>n \<in> set ns. \<exists>a. read_shares w dir [n] = Inr a"
  "read_shares w dir ns = Inr ss \<Longrightarrow> set ss = (\<Union>n \<in> set ns. set (projr (read_shares w dir [n])))"
  "\<forall>n \<in> set ns. \<exists>a. read_shares w dir [n] = Inr a \<Longrightarrow> \<exists>ss. read_shares w dir ns = Inr ss"
proof (induction ns arbitrary: ss)
  case (Cons n ns)
  {
    case 1
    with Cons.IH(1) show ?case
      by (subst (asm) read_shares_Cons) (auto simp: bind_result_def simp del: read_shares.simps(2) split: sum.splits)
  next
    case 2
    with Cons.IH(2) show ?case
      by (subst (asm) read_shares_Cons) (auto simp: bind_result_def simp del: read_shares.simps(2) split: sum.splits)
  next
    case 3
    with Cons.IH(3) show ?case
      by (subst read_shares_Cons) (auto simp: bind_result_def simp del: read_shares.simps(2) split: sum.splits)
  }
qed simp_all

lemma st_do_files: "st_do op (runNamed e name args) w = (r, w') \<Longrightarrow> px_files w' = px_files w"
  by (cases e name args w rule: runNamed_cases)
    (auto simp: st_do_def st_must_def px_bind_def px_fail_def px_return_def run_outcome_def split: option.splits sum.splits)

lemma NfsShareCreate_writes:
  assumes "NfsShareCreate e io p dir w = (Inr (), w')"
  obtains options where "isSafeID (sh_ID p)" "isValidPath (sh_Path p)" "isValidNetwork (sh_Network p)"
    "validateOptions (sh_Options p) = Inr options"
    "px_files w' = (px_files w)(exports_file (exports_dir dir) (sh_ID p) \<mapsto> exports_line (sh_Path p) (sh_Network p) options)"
proof -
  have "isSafeID (sh_ID p) \<and> isValidPath (sh_Path p) \<and> isValidNetwork (sh_Network p) \<and>
    (\<exists>options. validateOptions (sh_Options p) = Inr options \<and>
      px_files w' = (px_files w)(exports_file (exports_dir dir) (sh_ID p) \<mapsto> exports_line (sh_Path p) (sh_Network p) options))"
    using assms
    by (auto simp: NfsShareCreate_def Let_def px_check_def px_fail_def px_bind_def px_lift_def write_file_def set_file_def
        dest!: st_do_files split: if_splits sum.splits option.splits write_fault.splits)
  with that show ?thesis by blast
qed

definition exports_name :: "string \<Rightarrow> string" where
  "exports_name i = ''pmx-'' @ i @ ''.exports''"

lemma exports_path:
  assumes "slash \<notin> set n" "HasPrefix n ''pmx-''"
  shows "JoinPath [exports_dir [], n] = ''/etc/exports.d/'' @ n"
proof -
  have "plain_part n" using assms by (auto simp: plain_part_def HasPrefix_def prefix_def)
  moreover have "exports_dir [] = abs_path [''etc'', ''exports.d'']" by (simp add: exports_dir_def abs_path_def slash_def)
  ultimately have "JoinPath [exports_dir [], n] = abs_path ([''etc'', ''exports.d''] @ [n])"
    by (simp only:) (intro JoinPath_name, auto simp: plain_part_def slash_def)
  then show ?thesis by (simp add: abs_path_def slash_def)
qed

lemma safe_ID_name: "isSafeID i \<Longrightarrow> TrimSpace i = i \<Longrightarrow> slash \<notin> set (exports_name i) \<and> HasPrefix (exports_name i) ''pmx-''"
proof -
  assume i: "isSafeID i" "TrimSpace i = i"
  have "\<not> name_char slash" by (simp add: name_char_def slash_def url_letter_def url_digit_def byte_in_def)
  with i have "slash \<notin> set i" by (auto simp: isSafeID_def list_all_iff)
  moreover have "slash \<notin> set ''pmx-''" "slash \<notin> set ''.exports''" by (simp_all add: slash_def)
  ultimately show ?thesis by (simp only: exports_name_def HasPrefix_def set_append Un_iff prefixI) simp
qed

lemma read_created:
  assumes "px_files w (exports_file (exports_dir []) (sh_ID p)) = Some (exports_line (sh_Path p) (sh_Network p) options)"
    and "isValidPath (sh_Path p)" "plain (sh_Path p)" "isValidNetwork (sh_Network p)" "validateOptions (sh_Options p) = Inr options"
  shows "read_shares w (exports_dir []) [exports_name (sh_ID p)] = Inr [p\<lparr>sh_Options := options\<rparr>]"
proof -
  obtain c path where path: "sh_Path p = c # path" "plain_char c"
    using assms(2,3) by (cases "sh_Path p") (auto simp: isValidPath_def HasPrefix_def plain_def)
  let ?line = "sh_Path p @ '' '' @ sh_Network p @ ''('' @ Join options '','' @ '')''"
  have "TrimSpace (exports_line (sh_Path p) (sh_Network p) options) = ?line"
    using TrimSpace_line [of c "CHR '')''" "path @ '' '' @ sh_Network p @ ''('' @ Join options '',''"] path
    by (simp add: exports_line_def plain_char_def)
  moreover have "parseLine ?line = Some (sh_Path p, sh_Network p, options)"
    using validateOptions_allowed [OF assms(5)] network_chars [OF assms(4)] assms(3) path(1) allowed_option_chars
    by (intro parseLine_exports) auto
  moreover have "TrimSuffix (TrimPrefix (exports_name (sh_ID p)) ''pmx-'') ''.exports'' = sh_ID p"
    by (simp only: exports_name_def TrimPrefix_append TrimSuffix_append)
  moreover have "px_files w (JoinPath [exports_dir [], exports_name (sh_ID p)]) = Some (exports_line (sh_Path p) (sh_Network p) options)"
    using assms(1) by (simp only: exports_file_def exports_name_def)
  moreover have "\<lparr>sh_ID = sh_ID p, sh_Path = sh_Path p, sh_Network = sh_Network p, sh_Options = options\<rparr> = p\<lparr>sh_Options := options\<rparr>"
    by simp
  ultimately show ?thesis using path(1) by (simp add: bind_result_def)
qed


definition quiet_env :: st_env where
  "quiet_env =
     \<lparr>sx_stat = (\<lambda>p. Some (False, 493)), sx_Paths = Some [(''exportfs'', ''/sbin/exportfs'')], sx_AllowedBinaries = Some [''/sbin/exportfs''],
      sx_JobID = ''j'',
      sx_host = (\<lambda>_ _ _. \<lparr>pa_stdout = [], pa_stderr = [], pa_end = Exited 0, pa_deadline = False, pa_text = []\<rparr>)\<rparr>"

definition sample_share :: Share where
  "sample_share = \<lparr>sh_ID = ''a'', sh_Path = ''/srv/a'', sh_Network = ''*'', sh_Options = [''ro'']\<rparr>"


end
