(* ===== verification/Storage_Main.thy ===== *)
theory Storage_Main
  imports Storage_Shares Envelope_Verify
begin

text \<open>
  The storage agent, \<open>src/storage/cmd/pmx-storage/main.go\<close>, with its configuration \<open>src/storage/internal/config/config.go\<close>: the
  typed access to parameters, the dispatcher, and what it does with a verified envelope.
\<close>

subsection \<open>Configuration\<close>

record CommandsConfig =
  sc_Lsblk :: string
  sc_Parted :: string
  sc_Wipefs :: string
  sc_MkfsExt4 :: string
  sc_MkfsXfs :: string
  sc_MkfsBtrfs :: string
  sc_Zpool :: string
  sc_Zfs :: string
  sc_Smartctl :: string
  sc_Exportfs :: string
  sc_Net :: string
  sc_Nvme :: string
  sc_QemuImg :: string

record StorageConfig =
  sg_URL :: string
  sg_CACert :: string
  sg_AuthToken :: string
  sg_Cert :: string
  sg_Key :: string
  sg_KeysetPath :: string
  sg_StateDir :: string
  sg_Commands :: CommandsConfig

datatype storage_config_error = StReadConfig | StParseConfig string | StUnknownKey string | StURLRequired | StURLScheme string

definition or_default :: "string \<Rightarrow> string \<Rightarrow> string" where
  "or_default d v = (if v = [] then d else v)"

definition default_commands :: "CommandsConfig \<Rightarrow> CommandsConfig" where
  "default_commands c =
     \<lparr>sc_Lsblk = or_default ''/sbin/lsblk'' (sc_Lsblk c), sc_Parted = or_default ''/sbin/parted'' (sc_Parted c),
      sc_Wipefs = or_default ''/sbin/wipefs'' (sc_Wipefs c), sc_MkfsExt4 = or_default ''/sbin/mkfs.ext4'' (sc_MkfsExt4 c),
      sc_MkfsXfs = or_default ''/sbin/mkfs.xfs'' (sc_MkfsXfs c), sc_MkfsBtrfs = or_default ''/sbin/mkfs.btrfs'' (sc_MkfsBtrfs c),
      sc_Zpool = or_default ''/sbin/zpool'' (sc_Zpool c), sc_Zfs = or_default ''/sbin/zfs'' (sc_Zfs c),
      sc_Smartctl = or_default ''/usr/sbin/smartctl'' (sc_Smartctl c), sc_Exportfs = or_default ''/usr/sbin/exportfs'' (sc_Exportfs c),
      sc_Net = or_default ''/usr/bin/net'' (sc_Net c), sc_Nvme = or_default ''/usr/sbin/nvme'' (sc_Nvme c),
      sc_QemuImg = or_default ''/usr/bin/qemu-img'' (sc_QemuImg c)\<rparr>"

definition storage_validate :: "StorageConfig \<Rightarrow> storage_config_error + StorageConfig" where
  "storage_validate c =
     (if sg_URL c = [] then Inl StURLRequired
      else if \<not> HasPrefix (sg_URL c) ''wss://'' \<and> \<not> HasPrefix (sg_URL c) ''ws://'' then Inl (StURLScheme (sg_URL c))
      else Inr (c\<lparr>sg_KeysetPath := or_default ''/etc/pmx-cloud/keyset.pub'' (sg_KeysetPath c),
                 sg_StateDir := or_default ''/var/lib/pmx-cloud/storage'' (sg_StateDir c),
                 sg_Commands := default_commands (sg_Commands c)\<rparr>))"

definition storage_parse ::
  "(string \<Rightarrow> string + (StorageConfig \<times> string list)) \<Rightarrow> bytes \<Rightarrow> storage_config_error + StorageConfig" where
  "storage_parse toml_decode data =
     (case toml_decode data of
        Inl err \<Rightarrow> Inl (StParseConfig err)
      | Inr (cfg, undecoded) \<Rightarrow>
          (case undecoded of key # _ \<Rightarrow> Inl (StUnknownKey key) | [] \<Rightarrow> storage_validate cfg))"

definition storage_load ::
  "(string \<Rightarrow> string + (StorageConfig \<times> string list)) \<Rightarrow> bytes option \<Rightarrow> storage_config_error + StorageConfig" where
  "storage_load toml_decode contents = (case contents of None \<Rightarrow> Inl StReadConfig | Some data \<Rightarrow> storage_parse toml_decode data)"

definition storage_commands :: "StorageConfig \<Rightarrow> (string \<times> string) list" where
  "storage_commands cfg =
     (let c = sg_Commands cfg in
      [(''lsblk'', sc_Lsblk c), (''parted'', sc_Parted c), (''wipefs'', sc_Wipefs c), (''mkfs.ext4'', sc_MkfsExt4 c),
       (''mkfs.xfs'', sc_MkfsXfs c), (''mkfs.btrfs'', sc_MkfsBtrfs c), (''zpool'', sc_Zpool c), (''zfs'', sc_Zfs c),
       (''smartctl'', sc_Smartctl c), (''exportfs'', sc_Exportfs c), (''net'', sc_Net c), (''nvme'', sc_Nvme c),
       (''qemu-img'', sc_QemuImg c)])"

definition storage_newExec :: "StorageConfig \<Rightarrow> st_env \<Rightarrow> string \<Rightarrow> st_env" where
  "storage_newExec cfg e jobID =
     (let (paths, allow) = ResolvePaths (sx_stat e) (storage_commands cfg)
      in e\<lparr>sx_JobID := jobID, sx_Paths := Some paths, sx_AllowedBinaries := Some allow\<rparr>)"

definition loadHostFingerprint :: "bytes option \<Rightarrow> string option" where
  "loadHostFingerprint contents =
     (case contents of None \<Rightarrow> None | Some data \<Rightarrow> let fp = TrimSpace data in if fp = [] then None else Some fp)"

subsection \<open>Parameters\<close>

definition stringParam :: "params \<Rightarrow> string \<Rightarrow> string \<Rightarrow> string" where
  "stringParam ps key fallback = (case ps key of Some (AStr s) \<Rightarrow> if s = [] then fallback else s | _ \<Rightarrow> fallback)"

definition boolParam :: "params \<Rightarrow> string \<Rightarrow> bool" where
  "boolParam ps key = (case ps key of Some (ABool b) \<Rightarrow> b | Some (AStr s) \<Rightarrow> s \<in> {''1'', ''true'', ''yes''} | _ \<Rightarrow> False)"

definition intParam :: "params \<Rightarrow> string \<Rightarrow> int \<Rightarrow> int" where
  "intParam ps key fallback =
     (case ps key of
        Some (AInt n) \<Rightarrow> n | Some (AUint n) \<Rightarrow> wrap64 n | Some (AFloat f) \<Rightarrow> float_int f | _ \<Rightarrow> fallback)"

definition stringSliceParam :: "params \<Rightarrow> string \<Rightarrow> string list" where
  "stringSliceParam ps key =
     (case ps key of
        Some (AArr vs) \<Rightarrow> concat (map (\<lambda>v. case v of AStr s \<Rightarrow> if s = [] then [] else [s] | _ \<Rightarrow> []) vs)
      | _ \<Rightarrow> [])"

definition mapParam :: "params \<Rightarrow> string \<Rightarrow> (string \<times> any) list" where
  "mapParam ps key = (case ps key of Some (AMap kvs) \<Rightarrow> kvs | _ \<Rightarrow> [])"

subsection \<open>Dispatch\<close>

text \<open>What the answers need besides: texts of errors, the order in which maps are visited, and conversions of huge numbers.\<close>

record st_show =
  sw_error :: "st_error \<Rightarrow> string"
  sw_run :: "run_err \<Rightarrow> string"
  sw_parse :: string
  sw_order :: "string list \<Rightarrow> string list"
  sw_huge :: "float64 \<Rightarrow> nat"

definition st_ok_json :: bytes where
  "st_ok_json = json_text (JObj [(''ok'', JBool True)])"

definition okOrErr :: "unit st \<Rightarrow> bytes st" where
  "okOrErr m = px_bind m (\<lambda>_. px_return st_ok_json)"

definition answer :: "('a \<Rightarrow> bytes) \<Rightarrow> 'a st \<Rightarrow> bytes st" where
  "answer text m = px_bind m (\<lambda>x. px_return (text x))"

definition format_params :: "params \<Rightarrow> FormatParams" where
  "format_params p =
     \<lparr>fp_Device = stringParam p ''device'' [], fp_FSType = stringParam p ''fstype'' [], fp_Force = boolParam p ''force'',
      fp_MountsPath = [], fp_FstabPath = []\<rparr>"

definition import_params :: "StorageConfig \<Rightarrow> params \<Rightarrow> ImportImageParams" where
  "import_params cfg p =
     \<lparr>ip_ID = stringParam p ''id'' [], ip_SourceURL = stringParam p ''source_url'' [],
      ip_AllowedHosts = stringSliceParam p ''allowed_hosts'', ip_SourceFormat = stringParam p ''source_format'' [],
      ip_Destination = stringParam p ''destination'' [], ip_StorageRoot = sg_StateDir cfg\<rparr>"

definition pool_params :: "params \<Rightarrow> PoolCreateParams" where
  "pool_params p =
     \<lparr>pc_Name = stringParam p ''name'' [], pc_Topology = stringParam p ''topology'' [],
      pc_Devices = stringSliceParam p ''devices'', pc_Compression = stringParam p ''compression'' []\<rparr>"

definition share_params :: "params \<Rightarrow> Share" where
  "share_params p =
     \<lparr>sh_ID = stringParam p ''id'' [], sh_Path = stringParam p ''path'' [], sh_Network = stringParam p ''network'' [],
      sh_Options = stringSliceParam p ''options''\<rparr>"

definition schedule_text :: "string \<Rightarrow> bytes" where
  "schedule_text path = json_text (JObj [(''ok'', JBool True), (''state_path'', JStr path)])"

definition names_text :: "string list \<Rightarrow> bytes" where
  "names_text shares = json_text (JObj [(''shares'', JArr (map JStr shares))])"

definition st_commands :: "st_show \<Rightarrow> st_io \<Rightarrow> StorageConfig \<Rightarrow> st_env \<Rightarrow> params \<Rightarrow> (string \<times> bytes st) list" where
  "st_commands sw io cfg e p =
     [(''disk.inventory'', answer inventory_text (Inventory (sw_huge sw) e)),
      (''disk.format'', okOrErr (Format e io (format_params p))),
      (''disk.passthrough'', answer passthrough_text (Passthrough io (stringParam p ''wwn'' []) (stringParam p ''by_id_dir'' []))),
      (''disk.import-image'', answer import_text (ImportImage e io (import_params cfg p))),
      (''zfs.status'', StatusZFS (sw_order sw) e),
      (''zfs.pool.create'', okOrErr (PoolCreate e (pool_params p))),
      (''zfs.pool.destroy'', okOrErr (PoolDestroy e (stringParam p ''name'' []) (boolParam p ''force''))),
      (''zfs.dataset.create'',
         okOrErr (DatasetCreate e (stringParam p ''dataset'' []) (mapParam p ''options'') (boolParam p ''allow_dedup''))),
      (''zfs.dataset.destroy'', okOrErr (DatasetDestroy e (stringParam p ''dataset'' []) (boolParam p ''recursive''))),
      (''zfs.snapshot.create'', okOrErr (SnapshotCreate e (stringParam p ''snapshot'' []) (boolParam p ''recursive''))),
      (''zfs.snapshot.send'', okOrErr (SnapshotSend e io (stringParam p ''snapshot'' []) (stringParam p ''destination'' []))),
      (''zfs.scrub.start'', okOrErr (ScrubStart e (stringParam p ''pool'' []))),
      (''zfs.scrub.status'', ScrubStatus e (stringParam p ''pool'' [])),
      (''zfs.tune'',
         okOrErr (Tune e (stringParam p ''dataset'' []) (stringParam p ''property'' []) (stringParam p ''value'' [])
           (boolParam p ''allow_dedup''))),
      (''nfs.share.create'', okOrErr (NfsShareCreate e io (share_params p) [])),
      (''nfs.share.delete'', okOrErr (NfsShareDelete e io (stringParam p ''id'' []) [])),
      (''nfs.share.list'', answer shares_text (NfsShareList io [])),
      (''samba.share.create'',
         okOrErr (SambaShareCreate e (stringParam p ''id'' []) (stringParam p ''path'' []) (stringParam p ''comment'' [])
           (stringParam p ''acl'' []))),
      (''samba.share.delete'', okOrErr (SambaShareDelete e (stringParam p ''id'' []))),
      (''samba.share.list'', answer names_text (SambaShareList e)),
      (''smart.poll'',
         (let devices = stringSliceParam p ''devices'' in answer (poll_text devices) (Poll (sw_run sw) (sw_parse sw) e devices))),
      (''smart.schedule'', answer schedule_text (SmartSchedule io (stringParam p ''interval'' ''15m'') (sg_StateDir cfg))),
      (''nvme.controller.add'',
         okOrErr (ControllerAdd e (stringParam p ''controller'' []) (intParam p ''size_blocks'' 0) (intParam p ''block_size'' 4096)
           (intParam p ''namespace_id'' 1)))]"

definition st_errJSON :: "string \<Rightarrow> bytes" where
  "st_errJSON msg = marshal_strings [(''error'', msg)]"

text \<open>The answer and the error; a panic ends the process and is \<^const>\<open>None\<close>.\<close>

definition st_dispatch ::
  "st_show \<Rightarrow> st_io \<Rightarrow> StorageConfig \<Rightarrow> st_env \<Rightarrow> Envelope \<Rightarrow> px_world \<Rightarrow> ((bytes \<times> st_error option) \<times> px_world) option" where
  "st_dispatch sw io cfg e env w =
     (case map_of (st_commands sw io cfg e (case Params env of Some p \<Rightarrow> p | None \<Rightarrow> Map.empty)) (Command env) of
        None \<Rightarrow> Some ((st_errJSON (''UNSUPPORTED: '' @ Command env), None), w)
      | Some handler \<Rightarrow>
          (case handler w of
             (Inr payload, w') \<Rightarrow> Some ((payload, None), w')
           | (Inl StPanic, w') \<Rightarrow> None
           | (Inl err, w') \<Rightarrow> Some ((st_errJSON (sw_error sw err), Some err), w')))"

definition OnEnvelopeSt ::
  "st_show \<Rightarrow> st_io \<Rightarrow> StorageConfig \<Rightarrow> st_env \<Rightarrow> Envelope \<Rightarrow> px_world \<Rightarrow> ((bytes \<times> st_error option) \<times> px_world) option" where
  "OnEnvelopeSt sw io cfg e env w =
     (case st_dispatch sw io cfg (storage_newExec cfg e (JobID env)) env w of
        None \<Rightarrow> None
      | Some ((result, err), w') \<Rightarrow>
          Some ((result, err),
            w'\<lparr>px_events := px_events w' @
                 [PxAudit (JobID env) (Command env) ''complete'' (if err \<noteq> None then 1 else 0)]\<rparr>))"

subsection \<open>What the agent may run\<close>

definition zpool_shape :: "string list \<Rightarrow> bool" where
  "zpool_shape args \<longleftrightarrow>
     (\<exists>rest. args = ''list'' # rest) \<or> (\<exists>rest. args = ''status'' # rest) \<or>
     (\<exists>name. args = [''scrub'', name] \<and> isSafeToken name) \<or> (\<exists>name. args = [''destroy'', name] \<and> isSafeToken name) \<or>
     (\<exists>opts name layout devices. args = ''create'' # opts @ name # layout @ devices \<and> isSafeToken name \<and>
        set opts \<subseteq> insert ''-O'' ((@) ''compression='' ` set allowedCompression) \<and> set layout \<subseteq> set allowedTopologies \<and>
        devices \<noteq> [] \<and> list_all isDevicePath devices)"

definition zfs_shape :: "string list \<Rightarrow> bool" where
  "zfs_shape args \<longleftrightarrow>
     (\<exists>rest. args = ''list'' # rest) \<or> (\<exists>snap. args = [''send'', ''-R'', snap] \<and> isSafeSnapshot snap) \<or>
     (\<exists>opts snap. args = ''snapshot'' # opts @ [snap] \<and> set opts \<subseteq> {''-r''} \<and> isSafeSnapshot snap) \<or>
     (\<exists>ds. args = [''destroy'', ''-r'', ds] \<and> isSafeDataset ds) \<or>
     (\<exists>prop value ds. args = [''set'', prop @ ''='' @ value, ds] \<and> prop \<in> set allowedProps \<and> isSafeDataset ds) \<or>
     (\<exists>opts ds. args = ''create'' # opts @ [ds] \<and> isSafeDataset ds \<and>
        (\<forall>o' \<in> set opts. o' = ''-o'' \<or> (\<exists>prop \<in> set allowedProps. \<exists>value. o' = prop @ ''='' @ value)))"

text \<open>The arguments each tool may get.\<close>

definition storage_shape :: "string \<Rightarrow> string list \<Rightarrow> bool" where
  "storage_shape name args \<longleftrightarrow>
     name = ''lsblk'' \<or>
     (name = ''smartctl'' \<and> (\<exists>dev. args = [''-j'', ''-H'', dev] \<or> args = [''-j'', ''-H'', ''-A'', dev])) \<or>
     (name = ''wipefs'' \<and> (\<exists>dev. args = [''-a'', dev] \<and> isDevicePath dev)) \<or>
     (name = ''parted'' \<and> (\<exists>dev. args = [''-s'', dev, ''mklabel'', ''gpt'', ''mkpart'', ''primary'', ''0%'', ''100%''] \<and> isDevicePath dev)) \<or>
     (name \<in> (@) ''mkfs.'' ` set supportedFSTypes \<and> (\<exists>opt dev. args = [opt, dev] \<and> opt \<in> {''-F'', ''-f''} \<and> HasPrefix dev ''/dev/'')) \<or>
     (name = ''zpool'' \<and> zpool_shape args) \<or> (name = ''zfs'' \<and> zfs_shape args) \<or>
     (name = ''exportfs'' \<and> args = [''-ra'']) \<or>
     (name = ''net'' \<and> (args = [''usershare'', ''list''] \<or>
        (\<exists>verb i rest. args = ''usershare'' # verb # (''pmx-'' @ i) # rest \<and> verb \<in> {''add'', ''delete''} \<and> isSafeID i))) \<or>
     (name = ''nvme'' \<and> (args = [''list'', ''-o'', ''json''] \<or>
        (\<exists>verb dev rest. args = verb # dev # rest \<and> verb \<in> {''create-ns'', ''attach-ns''} \<and> HasPrefix dev ''/dev/nvme''))) \<or>
     (name = ''qemu-img'' \<and> (\<exists>fmt src dest. args = [''convert'', ''-f'', fmt, ''-O'', ''raw'', src, dest]))"

abbreviation sound :: "st_env \<Rightarrow> ('e, 'a) act \<Rightarrow> bool" where
  "sound e m \<equiv> st_ok e storage_shape m"

lemma sound_run: "storage_shape name args \<Longrightarrow> sound e (runNamed e name args)"
  by (rule st_ok_runNamed)

lemma sound_smart_status: "sound e (smart_status e dev)"
  unfolding smart_status_def
  by (rule storage.traces_bind [OF sound_run]) (auto simp: storage_shape_def intro: st_rules split: option.split)

lemma sound_inventory_disks: "sound e (inventory_disks huge e ns)"
  by (induction ns) (auto intro!: storage.traces_bind sound_smart_status intro: st_rules)

lemma sound_lsblk: "sound e (runNamed e ''lsblk'' args)"
  by (rule sound_run) (simp add: storage_shape_def)

lemma sound_Inventory: "sound e (Inventory huge e)"
  unfolding Inventory_def
  by (intro st_rules storage.traces_bind sound_lsblk sound_inventory_disks)

lemma sound_refuse_listed: "sound e (refuse_listed io check path devices msg)"
  unfolding refuse_listed_def
  by (intro st_rules storage.traces_bind; simp add: read_host_def storage.traces_silent)

lemma sound_format_guards: "sound e (format_guards e io mounts fstab device force)"
  unfolding format_guards_def listChildren_def Let_def
  by (intro st_rules storage.traces_bind sound_refuse_listed sound_lsblk)

lemma firstPartitionDevice_dev:
  "firstPartitionDevice e device w = (Inr target, w') \<Longrightarrow> HasPrefix device ''/dev/'' \<Longrightarrow> HasPrefix target ''/dev/''"
  by (auto simp: firstPartitionDevice_def px_bind_def px_return_def HasPrefix_iff Let_def
      split: prod.splits option.splits sum.splits if_splits)

lemma sound_wipe_and_make:
  assumes "isDevicePath device" and "fs \<in> set supportedFSTypes"
  shows "sound e (wipe_and_make e fs device)"
proof -
  have fs: "TrimSpace fs = fs" using assms(2) by (auto simp: supportedFSTypes_def TrimSpace_plain plain_def plain_char_def)
  have "sound e (firstPartitionDevice e device)"
    unfolding firstPartitionDevice_def Let_def by (intro st_rules storage.traces_bind sound_lsblk)
  moreover have "HasPrefix device ''/dev/''" using assms(1) by (simp add: isDevicePath_def)
  ultimately show ?thesis
    unfolding wipe_and_make_def Mkfs_def fs
    using assms firstPartitionDevice_dev
    by (intro st_rules storage.traces_bind) (fastforce simp: storage_shape_def)+
qed

lemma sound_Format: "sound e (Format e io p)"
  unfolding Format_def Let_def
  by (intro st_rules storage.traces_bind sound_format_guards sound_wipe_and_make) (simp_all add: isDevicePath_def)

lemma sound_set_file: "sound e (\<lambda>w. (r w, set_file path (c w) w))"
  by (rule storage.traces_silent) (simp add: set_file_def)

lemma sound_write_file: "sound e (write_file io failure path data)"
  by (rule storage.traces_silent) (simp add: write_file_def set_file_def split: option.split write_fault.split)

lemma sound_ImportImage: "sound e (ImportImage e io p)"
proof -
  have "sound e (resumeDownload io url path)" for url path
    by (rule storage.traces_silent) (simp add: resumeDownload_def Let_def set_file_def split: http_answer.split)
  moreover have "sound e (place_image e io fmt src dest)" for fmt src dest
    unfolding place_image_def
    by (intro st_rules storage.traces_bind) (auto simp: storage_shape_def set_file_def intro: storage.traces_silent)
  ultimately show ?thesis
    unfolding ImportImage_def Let_def by (intro st_rules storage.traces_bind)
qed

lemma sound_Passthrough: "sound e (Passthrough io wwn dir)"
  unfolding Passthrough_def Let_def by (intro st_rules)

lemma sound_zpool: "zpool_shape args \<Longrightarrow> sound e (runNamed e ''zpool'' args)"
  and sound_zfs: "zfs_shape args \<Longrightarrow> sound e (runNamed e ''zfs'' args)"
  by (rule sound_run, simp add: storage_shape_def)+

lemma sound_StatusZFS: "sound e (StatusZFS ord e)"
  unfolding StatusZFS_def
  by (intro storage.traces_bind sound_zpool storage.traces_prod)
    (auto simp: zpool_shape_def intro!: st_rules storage.traces_bind sound_zpool split: option.split)

lemma sound_PoolCreate: "sound e (PoolCreate e p)"
proof -
  have "zpool_shape ([''create''] @ (if c = [] then [] else [''-O'', ''compression='' @ c]) @ [n]
      @ (if t = ''stripe'' then [] else [t]) @ ds)"
    if "isSafeToken n" "t \<in> set allowedTopologies" "ds \<noteq> []" "list_all isDevicePath ds" "c = [] \<or> c \<in> set allowedCompression"
    for c n t ds
    using that unfolding zpool_shape_def
    by (intro disjI2 exI [of _ "if c = [] then [] else [''-O'', ''compression='' @ c]"] exI [of _ n]
        exI [of _ "if t = ''stripe'' then [] else [t]"] exI [of _ ds]) auto
  then show ?thesis unfolding PoolCreate_def Let_def by (intro st_rules sound_zpool)
qed

lemma sound_pools:
  "sound e (PoolDestroy e name force)" "sound e (ScrubStart e name)" "sound e (ScrubStatus e name)"
  unfolding PoolDestroy_def ScrubStart_def ScrubStatus_def
  by (intro st_rules storage.traces_bind sound_zpool sound_zfs; simp add: zpool_shape_def zfs_shape_def)+

lemma dataset_options_shape:
  "dataset_options allow kvs = Inr opts \<Longrightarrow> o' \<in> set opts \<Longrightarrow>
     o' = ''-o'' \<or> (\<exists>prop \<in> set allowedProps. \<exists>value. o' = prop @ ''='' @ value)"
proof (induction kvs arbitrary: opts)
  case (Cons kv kvs)
  obtain key v where kv: "kv = (key, v)" by (cases kv)
  with Cons.prems(1) obtain args where "key \<in> set allowedProps" "dataset_options allow kvs = Inr args"
    "opts = ''-o'' # (key @ ''='' @ any_text v) # args"
    by (auto simp: Let_def bind_result_def split: if_splits sum.splits)
  with Cons.IH Cons.prems(2) show ?case by auto
qed simp

lemma zfs_shape_create:
  "isSafeDataset ds \<Longrightarrow> dataset_options allow kvs = Inr opts \<Longrightarrow> zfs_shape (''create'' # opts @ [ds])"
  unfolding zfs_shape_def using dataset_options_shape by (intro disjI2 exI [of _ opts] exI [of _ ds]) blast

lemma sound_datasets:
  "sound e (DatasetCreate e ds opts allow)" "sound e (DatasetDestroy e ds rec)" "sound e (SnapshotCreate e snap rec)"
  "sound e (SnapshotSend e io snap dest)" "sound e (Tune e ds prop v allow)"
proof -
  show "sound e (DatasetCreate e ds opts allow)"
    unfolding DatasetCreate_def by (intro st_rules) (simp add: storage_shape_def zfs_shape_create)
  show "sound e (DatasetDestroy e ds rec)" "sound e (SnapshotCreate e snap rec)" "sound e (Tune e ds prop v allow)"
    unfolding DatasetDestroy_def SnapshotCreate_def Tune_def Let_def
    by (intro st_rules; auto simp: storage_shape_def zfs_shape_def)+
  show "sound e (SnapshotSend e io snap dest)"
    unfolding SnapshotSend_def
    by (intro st_rules storage.traces_bind sound_write_file) (simp add: storage_shape_def zfs_shape_def)
qed

lemma sound_shares:
  "sound e (NfsShareCreate e io sh dir)" "sound e (NfsShareDelete e io i dir)" "sound e (NfsShareList io dir)"
  "sound e (SambaShareCreate e i path comment acl)" "sound e (SambaShareDelete e i)" "sound e (SambaShareList e)"
proof -
  show "sound e (NfsShareCreate e io sh dir)"
    unfolding NfsShareCreate_def Let_def
    by (intro st_rules storage.traces_bind sound_write_file) (simp add: storage_shape_def)
  show "sound e (NfsShareDelete e io i dir)"
    unfolding NfsShareDelete_def Let_def
    by (intro st_rules storage.traces_bind storage.traces_silent) (simp_all add: set_file_def storage_shape_def)
  show "sound e (NfsShareList io dir)" by (rule storage.traces_silent) (simp add: NfsShareList_def Let_def)
  show "sound e (SambaShareCreate e i path comment acl)" "sound e (SambaShareDelete e i)" "sound e (SambaShareList e)"
    unfolding SambaShareCreate_def SambaShareDelete_def SambaShareList_def Let_def
    by (intro st_rules storage.traces_bind; auto simp: storage_shape_def normalizeID_def Let_def split: if_splits)+
qed

lemma sound_ControllerAdd: "sound e (ControllerAdd e c n b i)"
  unfolding ControllerAdd_def Let_def
  by (intro st_rules storage.traces_bind) (simp_all add: storage_shape_def)

lemma sound_Poll: "sound e (Poll sh pe e devs)"
proof (induction devs)
  case (Cons dev devs)
  show ?case
    unfolding Poll.simps by (intro storage.traces_bind sound_run Cons.IH storage.traces_return) (simp add: storage_shape_def)
qed (simp add: st_rules)

lemma sound_SmartSchedule: "sound e (SmartSchedule io interval dir)"
  unfolding SmartSchedule_def Let_def by (intro st_rules storage.traces_bind sound_write_file)

lemmas sound_rules = sound_Inventory sound_Format sound_Passthrough sound_ImportImage sound_StatusZFS sound_PoolCreate
  sound_pools sound_datasets sound_shares sound_ControllerAdd sound_Poll sound_SmartSchedule

lemma sound_okOrErr: "sound e m \<Longrightarrow> sound e (okOrErr m)"
  and sound_answer: "sound e m' \<Longrightarrow> sound e (answer text m')"
  unfolding okOrErr_def answer_def by (intro storage.traces_bind st_rules; assumption)+

lemma st_commands_sound: "(c, h) \<in> set (st_commands sw io cfg e p) \<Longrightarrow> sound e h"
  unfolding st_commands_def Let_def
  by (auto simp only: list.set insert_iff empty_iff prod.inject intro!: sound_okOrErr sound_answer sound_rules)

lemma st_dispatch_cases:
  assumes "st_dispatch sw io cfg e env w = Some (r, w')"
  obtains "w' = w" | c h where "(c, h) \<in> set (st_commands sw io cfg e (case Params env of Some p \<Rightarrow> p | None \<Rightarrow> Map.empty))"
    "w' = snd (h w)"
proof (cases "map_of (st_commands sw io cfg e (case Params env of Some p \<Rightarrow> p | None \<Rightarrow> Map.empty)) (Command env)")
  case None
  with assms have "w' = w" by (simp add: st_dispatch_def)
  then show ?thesis by (rule that(1))
next
  case (Some h)
  obtain x w1 where h: "h w = (x, w1)" by (cases "h w")
  with assms Some have "w' = w1"
    by (cases x) (simp_all add: st_dispatch_def split: st_error.splits)
  with h have "w' = snd (h w)" by simp
  with map_of_SomeD [OF Some] show ?thesis by (rule that(2))
qed

lemma st_dispatch_trace:
  assumes "st_dispatch sw io cfg e env w = Some (r, w')"
  shows "\<exists>es. px_events w' = px_events w @ es \<and> st_bracketed (sx_JobID e) es \<and>
    (\<forall>b args. PxRun b args \<in> set es \<longrightarrow> allowed_run e storage_shape b args)"
  using assms
proof (cases rule: st_dispatch_cases)
  case 1
  then show ?thesis by simp
next
  case (2 c h)
  with st_commands_sound [OF 2(1)] show ?thesis by (simp add: storage.traces_def)
qed

lemma newExec_tables:
  "exec_paths (storage_newExec cfg e j) = fst (ResolvePaths (sx_stat e) (storage_commands cfg))"
  "exec_allowed (storage_newExec cfg e j) = snd (ResolvePaths (sx_stat e) (storage_commands cfg))"
  "sx_JobID (storage_newExec cfg e j) = j"
  by (simp_all add: exec_paths_def exec_allowed_def storage_newExec_def split: prod.split)

text \<open>
  C3: whatever an envelope asks of the storage agent, with whatever parameters and however the tools answer, the
  agent runs only configured tools (as configured, or the file of that name in a trusted directory), each with
  the arguments it is known to need: \<open>wipefs\<close> and \<open>parted\<close> on a device path without \<open>..\<close>, \<open>zpool destroy\<close> and \<open>zfs destroy\<close> on
  names without metacharacters, and so on. No argument has a shell metacharacter, every execution stands
  between two audit entries of the job, and one entry concludes the command.
\<close>

theorem storage_runs_only_permitted_commands:
  assumes "OnEnvelopeSt sw io cfg e env w = Some ((payload, err), w')"
  shows "\<exists>es. px_events w' = px_events w @ es @ [PxAudit (JobID env) (Command env) ''complete'' (if err \<noteq> None then 1 else 0)] \<and>
    st_bracketed (JobID env) es \<and>
    (\<forall>b args. PxRun b args \<in> set es \<longrightarrow> list_all IsSafeArg args \<and>
       (\<exists>name p. (name, p) \<in> set (storage_commands cfg) \<and> storage_shape name args \<and>
          (b = effective_path name p \<or> (\<exists>dir \<in> set trustedBinDirs. b = JoinPath [dir, Base (effective_path name p)]))))"
proof -
  let ?e = "storage_newExec cfg e (JobID env)"
  obtain w1 where w1: "st_dispatch sw io cfg ?e env w = Some ((payload, err), w1)"
    "px_events w' = px_events w1 @ [PxAudit (JobID env) (Command env) ''complete'' (if err \<noteq> None then 1 else 0)]"
    using assms by (auto simp: OnEnvelopeSt_def split: option.splits)
  from st_dispatch_trace [OF w1(1)] obtain es where es: "px_events w1 = px_events w @ es" "st_bracketed (JobID env) es"
    "\<And>b args. PxRun b args \<in> set es \<Longrightarrow> allowed_run ?e storage_shape b args"
    by (auto simp: newExec_tables)
  have "list_all IsSafeArg args \<and>
      (\<exists>name p. (name, p) \<in> set (storage_commands cfg) \<and> storage_shape name args \<and>
         (b = effective_path name p \<or> (\<exists>dir \<in> set trustedBinDirs. b = JoinPath [dir, Base (effective_path name p)])))"
    if "PxRun b args \<in> set es" for b args
  proof -
    obtain resolved allow where tables: "ResolvePaths (sx_stat e) (storage_commands cfg) = (resolved, allow)" by fastforce
    from es(3) [OF that] obtain name where name: "map_of resolved name = Some b" "storage_shape name args" "list_all IsSafeArg args"
      by (auto simp: allowed_run_def newExec_tables tables)
    from ResolvePaths_in_sync [OF tables name(1)] obtain p where
      "(name, p) \<in> set (storage_commands cfg)" "b = resolveBinary (sx_stat e) (effective_path name p)" by blast
    with name resolveBinary_trusted [of "sx_stat e" "effective_path name p"] show ?thesis by metis
  qed
  with es w1(2) show ?thesis by (intro exI [of _ es]) simp
qed

definition sample_stat :: file_stat where
  "sample_stat p = (if HasPrefix p ''/usr/sbin/'' then Some (False, 493) else None)"

definition sample_st_env :: st_env where
  "sample_st_env =
     \<lparr>sx_stat = sample_stat, sx_Paths = None, sx_AllowedBinaries = None, sx_JobID = [],
      sx_host = (\<lambda>_ _ _. \<lparr>pa_stdout = [], pa_stderr = [], pa_end = Exited 0, pa_deadline = False, pa_text = []\<rparr>)\<rparr>"

definition sample_st_io :: st_io where
  "sample_st_io =
     \<lparr>si_read = (\<lambda>_ _. ReadMissing), si_mkdir = (\<lambda>_. True), si_write = (\<lambda>_. None), si_exists = (\<lambda>_. True),
      si_nodes = Map.empty, si_listing = (\<lambda>_. None), si_http = (\<lambda>_ _. HttpFails), si_truncate = True, si_rename = True,
      si_unix = 0, si_sha = (\<lambda>b. b)\<rparr>"

definition sample_commands :: CommandsConfig where
  "sample_commands = default_commands
     \<lparr>sc_Lsblk = [], sc_Parted = [], sc_Wipefs = [], sc_MkfsExt4 = [], sc_MkfsXfs = [], sc_MkfsBtrfs = [], sc_Zpool = [],
      sc_Zfs = [], sc_Smartctl = [], sc_Exportfs = [], sc_Net = [], sc_Nvme = [], sc_QemuImg = []\<rparr>"

definition sample_st_config :: StorageConfig where
  "sample_st_config =
     \<lparr>sg_URL = ''wss://b'', sg_CACert = [], sg_AuthToken = [], sg_Cert = [], sg_Key = [], sg_KeysetPath = [],
      sg_StateDir = ''/var/lib/s'', sg_Commands = sample_commands\<rparr>"

definition sample_st_show :: st_show where
  "sample_st_show = \<lparr>sw_error = (\<lambda>_. ''failed''), sw_run = (\<lambda>_. []), sw_parse = [], sw_order = (\<lambda>ks. ks), sw_huge = (\<lambda>_. 0)\<rparr>"

definition scrub_job :: Envelope where
  "scrub_job = (sample_envelope 0)\<lparr>Command := ''zfs.scrub.start'', Params := Some [''pool'' \<mapsto> AStr ''tank'']\<rparr>"

lemma scrub_job_runs:
  "map_option (\<lambda>(r, w). (r, px_events w))
     (OnEnvelopeSt sample_st_show sample_st_io sample_st_config sample_st_env scrub_job \<lparr>px_events = [], px_files = Map.empty\<rparr>) =
   Some ((st_ok_json, None),
     [PxAudit ''j1'' ''zpool'' ''pre'' (-1), PxRun ''/usr/sbin/zpool'' [''scrub'', ''tank''], PxAudit ''j1'' ''zpool'' ''post'' 0,
      PxAudit ''j1'' ''zfs.scrub.start'' ''complete'' 0])"
  by code_simp

theorem storage_runs_only_permitted_commands_witness:
  "st_bracketed ''j1'' [PxAudit ''j1'' ''zpool'' ''pre'' (-1), PxRun ''/usr/sbin/zpool'' [''scrub'', ''tank''], PxAudit ''j1'' ''zpool'' ''post'' 0]"
proof -
  obtain w' where run: "OnEnvelopeSt sample_st_show sample_st_io sample_st_config sample_st_env scrub_job
      \<lparr>px_events = [], px_files = Map.empty\<rparr> = Some ((st_ok_json, None), w')"
    and w': "px_events w' = [PxAudit ''j1'' ''zpool'' ''pre'' (-1), PxRun ''/usr/sbin/zpool'' [''scrub'', ''tank''],
      PxAudit ''j1'' ''zpool'' ''post'' 0, PxAudit ''j1'' ''zfs.scrub.start'' ''complete'' 0]"
    using scrub_job_runs by auto
  from storage_runs_only_permitted_commands [OF run] show ?thesis
    by (auto simp: w' scrub_job_def sample_envelope_def append_eq_Cons_conv)
qed

end
