(* ===== verification/Spec2Isabelle.thy ===== *)
theory Spec2Isabelle
  imports Audit_Log Capability_Registry Spawn Core_Config Key_Rotation Enroll Thresholds Hypervisor_Main Retention Console_Replay Core_Main Storage_Main
begin

text \<open>
  A verification of the PMX-Cloud host agents.

  \<^bold>\<open>The program.\<close> A backend controls hosts through agents. Every agent keeps an outbound WebSocket connection to the
  backend, receives signed envelopes, checks each one against a set of public keys and a replay cache, dispatches
  it to a command handler, records what it did in a hash-chained audit log and answers. \<open>pmx-core\<close> supervises the
  other agents through \<open>systemctl\<close>, enrols the host, rotates keys, spawns ephemeral agents and drains on shutdown.
  \<open>pmx-hypervisor\<close> drives the Proxmox tools, \<open>pmx-telemetry\<close> collects metrics and raises alerts, \<open>pmx-backup\<close>
  manages archives, \<open>pmx-storage\<close> formats disks, manages ZFS and shares and imports images, \<open>pmx-console-broker\<close> is a
  one-shot agent that bridges a console.

  \<^bold>\<open>Conventions.\<close> Go strings and byte slices are \<^typ>\<open>string\<close>, a time is the number of nanoseconds since the year 1,
  errors are datatypes in a sum or an option, and a panic or a call that never returns is \<^const>\<open>None\<close>. What the
  program cannot determine is an argument of the definition that meets it: clock readings, the answers of executed
  commands, failures of system calls, names of temporary files, the iteration order of Go maps. Code outside the
  repository (the CBOR, TOML and YAML codecs, SHA-256, Ed25519, X.509, the WebSocket library) is a parameter, and
  what a theorem needs of it is a hypothesis.

  \<^bold>\<open>The language.\<close> \<^theory_text>\<open>Go_Prelude\<close> holds shared lemmas; \<open>Go_Strings\<close>, \<open>Go_Time\<close>, \<open>Go_Calendar\<close>, \<open>Go_Json\<close>,
  \<open>Go_Decode\<close>, \<open>Go_Values\<close>, \<open>Go_Float\<close>, \<open>Go_Format\<close>, \<open>Go_Paths\<close>, \<open>Go_Net\<close> and \<open>Go_Url\<close> model the parts of the standard library the
  agents use: line scanning with its 64 KiB limit, time arithmetic that saturates, RFC 3339 printing and parsing
  with a round trip, JSON printing and parsing with a round trip, 64-bit floating point by rounding rationals, path
  cleaning, address and URL parsing.

  \<^bold>\<open>Shared packages\<close> (\<open>src/shared\<close>).
  \<^item> \<open>Replay_Cache\<close>: \<open>envelope/replay.go\<close> as a state machine of \<open>Seen\<close>, \<open>Remember\<close>, \<open>purge\<close> and \<open>Close\<close>; the list and
    the map agree in every reachable state, and the cache refines a log of acceptances (locale \<open>replay_guard\<close>).
  \<^item> \<open>Key_Set\<close>: \<open>envelope/keyset.go\<close>: parsing, loading, signature checks against the active keys, updates.
  \<^item> \<open>Envelope_Verify\<close>: \<open>envelope/envelope.go\<close>: canonical bytes, signing, verification. An accepted envelope is
    authentic and current; no envelope is accepted twice within the bounds of the cache; an envelope from the
    future is the exception.
  \<^item> \<open>Audit_Log\<close>: \<open>audit/audit.go\<close>: appended entries verify, iterate and survive a restart; altering the past
    needs a hash collision; partial and over-long lines lose entries.
  \<^item> \<open>Capability_Registry\<close> and \<open>Tables\<close>: \<open>capability/capability.go\<close> and the contract it shares with the router (locale
    \<open>name_table\<close>).
  \<^item> \<open>WS_Client\<close>: \<open>wsclient/client.go\<close>: dialling, back-off, heartbeats, the read loop. Over any sequence of connections
    the handler is called once per envelope at most.

  \<^bold>\<open>The supervising agent\<close> (\<open>src/core\<close>).
  \<^item> \<open>Wire_Router\<close>, \<open>Siblings\<close>, \<open>Drain\<close>, \<open>Spawn\<close>: dispatch, the allowlist of units, the draining goroutine as a step
    relation that ends and stops each sibling once, and ephemeral units whose envelope is staged in a directory
    it cannot leave. \<open>Host_World\<close> is the host they act on (locale \<open>unit_stopper\<close>).
  \<^item> \<open>Atomic_File\<close>, \<open>Key_Rotation\<close>, \<open>Enroll\<close>: replacing a file by renaming (locale \<open>atomic_writer\<close>, with crashes
    between any two system calls), key rotation and enrolment, both all or nothing.
  \<^item> \<open>Core_Config\<close>: reading and normalising the configuration.
  \<^item> \<open>Core_Main\<close>: the handlers and their wiring, and the agent as a step relation in which envelopes and draining
    interleave: a shutdown is final.

  \<^bold>\<open>Other agents.\<close>
  \<^item> \<open>Proxmox_Safe\<close>, \<open>Proxmox_Exec\<close>, \<open>Hypervisor_VM\<close>, \<open>Hypervisor_CT\<close>, \<open>Hypervisor_Main\<close>: \<open>src/hypervisor\<close>: parameter
    validation, execution with audit entries before and after, every command, the dispatcher. Whatever an envelope
    asks, only known tools run with validated arguments. \<open>Exec_Trace\<close> holds what this agent and the next share: actions
    that run tools and leave a trace of events (locale \<open>event_trace\<close>).
  \<^item> \<open>Storage_Exec\<close>, \<open>Storage_Disk\<close>, \<open>Zpool_Status\<close>, \<open>Storage_ZFS\<close>, \<open>Storage_Shares\<close>, \<open>Storage_Main\<close>: \<open>src/storage\<close>: resolution
    of binaries and their allowlist, inventory, formatting, image import, ZFS, NFS and Samba shares, NVMe, SMART, the
    dispatcher. Only permitted commands run; a disk is wiped only if no direct child is in use; an import resumed any
    number of times delivers the served object below the storage root; a created share is listed.
  \<^item> \<open>Thresholds\<close>: the alert engine of \<open>src/telemetry\<close>: alerts alternate, and an alert means its condition held.
  \<^item> \<open>Archive_Roots\<close>, \<open>Retention\<close>: the allowed directories and the retention policy of \<open>src/backup\<close>, over a file system
    with symbolic links: nothing outside the roots is deleted, and the newest archive of each period is kept.
  \<^item> \<open>Console_Replay\<close>: the replay file of \<open>src/console-broker\<close>: across processes an envelope is used once unless a write
    is cut short.

  \<^bold>\<open>Bounds.\<close> The JSON parser has fuel of one more than twice the length of the text; the fuel is shown to be enough.
  All other recursions are structural or have a termination proof. Integers are unbounded where the code's own
  checks keep them in range, and 64-bit saturation is written out for durations.

  \<^bold>\<open>Not modelled.\<close> Log lines, flag parsing and the order of start-up of the agents; the copying of console bytes; the
  probes that only describe the host; the transfer of archives; collection and push of metrics; the agents for
  network, security, hardware and updates and the Rust library they share.
\<close>

end
